(* ===== verification/Prelude.thy ===== *)
theory Prelude
  imports Main "HOL-Library.Word" "HOL-Library.AList"
begin

text \<open>
  Shared notions of the development.

  Go's \<open>int\<close> and \<open>int64\<close> are 64 bits wide: \<open>i64\<close> where the code does arithmetic on
  them, \<open>int\<close> for identifiers, which the code only stores and compares.

  A Go map is an association list with distinct keys. Its order is the order in which the
  next \<open>range\<close> loop visits the entries, which Go leaves open: a theorem about every
  association list is a theorem about every iteration order. The interface \<open>go_map\<close>
  states what the rest of the development uses of a map; it is interpreted on the operations
  of \<open>HOL-Library.AList\<close>.
\<close>

named_theorems run_simps \<open>how the execution of a program unfolds\<close>
named_theorems stable_intros \<open>syntax-directed rules for invariants of single steps\<close>
named_theorems db_simps \<open>what the statements of the database read and write\<close>

type_synonym i64 = "64 word"

subsection \<open>64-bit arithmetic\<close>

lemma sint_i64_bounds: "- (2 ^ 63) \<le> sint (x :: i64)" "sint (x :: i64) < 2 ^ 63"
  using sint_ge [of x] sint_lt [of x] by simp_all

lemma sint_i64_minus:
  fixes x y :: i64
  assumes "- (2 ^ 63) \<le> sint x - sint y" "sint x - sint y < 2 ^ 63"
  shows "sint (x - y) = sint x - sint y"
proof -
  have "sint (x - y) = signed_take_bit 63 (sint x - sint y)"
    by (simp add: sint_word_ariths)
  also have "\<dots> = sint x - sint y"
    using assms by (intro signed_take_bit_int_eq_self) simp_all
  finally show ?thesis .
qed

lemma sint_i64_of_int:
  assumes "- (2 ^ 63) \<le> n" "n < 2 ^ 63"
  shows "sint (word_of_int n :: i64) = n"
  using assms by (simp add: signed_of_int signed_take_bit_int_eq_self)

subsection \<open>Go maps\<close>

type_synonym ('k, 'v) gomap = "('k \<times> 'v) list"

abbreviation gm_get :: "('k, 'v) gomap \<Rightarrow> 'k \<Rightarrow> 'v option" where
  "gm_get \<equiv> map_of"

abbreviation gm_put :: "'k \<Rightarrow> 'v \<Rightarrow> ('k, 'v) gomap \<Rightarrow> ('k, 'v) gomap" where
  "gm_put \<equiv> AList.update"

abbreviation gm_del :: "'k \<Rightarrow> ('k, 'v) gomap \<Rightarrow> ('k, 'v) gomap" where
  "gm_del \<equiv> AList.delete"

definition gm_ok :: "('k, 'v) gomap \<Rightarrow> bool" where
  "gm_ok m = distinct (map fst m)"

text \<open>The map stored under a key, the nil map (on which reads see nothing) when it is absent.\<close>

definition gm_sub :: "('k, ('j, 'v) gomap) gomap \<Rightarrow> 'k \<Rightarrow> ('j, 'v) gomap" where
  "gm_sub m k = (case gm_get m k of None \<Rightarrow> [] | Some s \<Rightarrow> s)"

text \<open>Go's \<open>delete(m[k], j)\<close>: no effect when \<open>m[k]\<close> is the nil map.\<close>

definition gm_sub_del :: "'k \<Rightarrow> 'j \<Rightarrow> ('k, ('j, 'v) gomap) gomap \<Rightarrow> ('k, ('j, 'v) gomap) gomap" where
  "gm_sub_del k j m = (case gm_get m k of None \<Rightarrow> m | Some s \<Rightarrow> gm_put k (gm_del j s) m)"

locale go_map =
  fixes get :: "'m \<Rightarrow> 'k \<Rightarrow> 'v option"
    and put :: "'k \<Rightarrow> 'v \<Rightarrow> 'm \<Rightarrow> 'm"
    and del :: "'k \<Rightarrow> 'm \<Rightarrow> 'm"
    and entries :: "'m \<Rightarrow> ('k \<times> 'v) list"
    and ok :: "'m \<Rightarrow> bool"
  assumes get_put: "get (put k v m) j = (if j = k then Some v else get m j)"
    and get_del: "get (del k m) j = (if j = k then None else get m j)"
    and ok_put: "ok m \<Longrightarrow> ok (put k v m)"
    and ok_del: "ok m \<Longrightarrow> ok (del k m)"
    and get_entries: "ok m \<Longrightarrow> get m k = Some v \<longleftrightarrow> (k, v) \<in> set (entries m)"
begin

lemmas map_laws = get_put get_del ok_put ok_del

lemma put_same_absorbs: "get (put k v (put k w m)) j = get (put k v m) j"
  by (simp add: get_put)

lemma del_put_other: "j \<noteq> k \<Longrightarrow> get (del j (put k v m)) k = Some v"
  by (simp add: get_put get_del)

text \<open>What a loop over all entries may conclude from a property kept by every write.\<close>

lemma put_all:
  assumes "ok m" "\<And>k v. get m k = Some v \<Longrightarrow> P k v" "P k v" "get (put k v m) j = Some w"
  shows "P j w"
  using assms by (auto simp: get_put split: if_splits)

lemma del_all:
  assumes "ok m" "\<And>k v. get m k = Some v \<Longrightarrow> P k v" "get (del k m) j = Some w"
  shows "P j w"
  using assms by (auto simp: get_del split: if_splits)

lemma entries_put:
  assumes "ok m" "(j, w) \<in> set (entries (put k v m))"
  shows "(j = k \<and> w = v) \<or> (j \<noteq> k \<and> (j, w) \<in> set (entries m))"
  using assms get_entries [of "put k v m" j w] get_entries [of m j w]
  by (auto simp: get_put ok_put split: if_splits)

end

interpretation gm: go_map gm_get gm_put gm_del "\<lambda>m. m" gm_ok
proof unfold_locales
  show "gm_get (gm_put k v m) j = (if j = k then Some v else gm_get m j)" for k v m j
    by (simp add: update_conv')
  show "gm_get (gm_del k m) j = (if j = k then None else gm_get m j)" for k m j
    by (simp add: delete_conv')
  show "gm_ok m \<Longrightarrow> gm_ok (gm_put k v m)" for k v m
    by (simp add: gm_ok_def distinct_update)
  show "gm_ok m \<Longrightarrow> gm_ok (gm_del k m)" for k m
    by (simp add: gm_ok_def distinct_delete)
  show "gm_ok m \<Longrightarrow> gm_get m k = Some v \<longleftrightarrow> (k, v) \<in> set m" for m k v
    by (simp add: gm_ok_def)
qed

lemma gm_get_put [simp]: "gm_get (gm_put k v m) j = (if j = k then Some v else gm_get m j)"
  by (rule gm.get_put)

lemma gm_get_del [simp]: "gm_get (gm_del k m) j = (if j = k then None else gm_get m j)"
  by (rule gm.get_del)

lemma gm_ok_Nil [simp]: "gm_ok []"
  by (simp add: gm_ok_def)

lemma gm_ok_put [simp, intro]: "gm_ok m \<Longrightarrow> gm_ok (gm_put k v m)"
  by (rule gm.ok_put)

lemma gm_ok_del [simp, intro]: "gm_ok m \<Longrightarrow> gm_ok (gm_del k m)"
  by (rule gm.ok_del)

lemma gm_unique: "gm_ok m \<Longrightarrow> (k, v) \<in> set m \<Longrightarrow> (k, v') \<in> set m \<Longrightarrow> v = v'"
  unfolding gm_ok_def by (rule eq_key_imp_eq_value)

lemma gm_sub_put [simp]: "gm_sub (gm_put k s m) j = (if j = k then s else gm_sub m j)"
  by (simp add: gm_sub_def)

lemma gm_sub_del_sub [simp]:
  "gm_sub (gm_sub_del k j m) i = (if i = k then gm_del j (gm_sub m i) else gm_sub m i)"
  by (auto simp: gm_sub_def gm_sub_del_def split: option.splits)

lemma gm_sub_del_key [simp]: "gm_sub (gm_del k m) j = (if j = k then [] else gm_sub m j)"
  by (simp add: gm_sub_def)

end
