(* ===== verification/Go_Runtime.thy ===== *)
theory Go_Runtime
  imports Prelude
begin

text \<open>
  Handlers as programs of atomic steps.

  A handler of the server runs in a goroutine of its own, beside every other request. What it
  does to the shared world (a statement sent to the database, a section under a mutex, a write
  to a socket) is one \<open>Step\<close>: a change of the world and the program that goes on from what
  the step read. \<open>run\<close> executes a program alone; \<open>pool_step\<close> interleaves the steps of
  several programs, as the Go scheduler may, and \<open>run_schedule\<close> is the same for a given
  order of turns. \<open>keeps I G p\<close> says that each single step of \<open>p\<close> keeps the invariant
  \<open>I\<close> and the guarantee \<open>G\<close>, so both survive every interleaving of such programs.
\<close>

datatype (dead 'w, 'r) prog = Ret 'r | Step "'w \<Rightarrow> 'w" "'w \<Rightarrow> ('w, 'r) prog"

subsection \<open>Running a program alone\<close>

primrec run :: "('w, 'r) prog \<Rightarrow> 'w \<Rightarrow> 'r \<times> 'w" where
  "run (Ret r) = (\<lambda>w. (r, w))"
| "run (Step f k) = (\<lambda>w. run (k w) (f w))"

primrec bindp :: "('w, 'a) prog \<Rightarrow> ('a \<Rightarrow> ('w, 'b) prog) \<Rightarrow> ('w, 'b) prog" where
  "bindp (Ret a) h = h a"
| "bindp (Step f k) h = Step f (\<lambda>w. bindp (k w) h)"

definition atomic :: "('w \<Rightarrow> 'a \<times> 'w) \<Rightarrow> ('w, 'a) prog" where
  "atomic f = Step (\<lambda>w. snd (f w)) (\<lambda>w. Ret (fst (f w)))"

lemma run_bindp [run_simps]: "run (bindp p h) w = (case run p w of (a, w') \<Rightarrow> run (h a) w')"
  by (induction p arbitrary: w) (auto split: prod.splits)

lemma run_Ret [run_simps]: "run (Ret r) w = (r, w)"
  by simp

lemma run_atomic [run_simps]: "run (atomic f) w = f w"
  by (simp add: atomic_def)

lemma run_result: "fst (run p w) = r \<Longrightarrow> run p w = (r, snd (run p w))"
  by auto

lemma bindp_Ret [simp]: "bindp p Ret = p"
  by (induction p) auto

lemma bindp_assoc: "bindp (bindp p g) h = bindp p (\<lambda>a. bindp (g a) h)"
  by (induction p) auto

text \<open>A block that no other program can interleave with.\<close>

definition atomically :: "('w, 'a) prog \<Rightarrow> ('w, 'a) prog" where
  "atomically p = atomic (run p)"

lemma run_atomically [run_simps]: "run (atomically p) w = run p w"
  by (simp add: atomically_def run_simps)

text \<open>Weakest precondition of a program run alone; \<open>wp_intros\<close> walks through its text.\<close>

definition wp :: "('w, 'r) prog \<Rightarrow> ('r \<Rightarrow> 'w \<Rightarrow> bool) \<Rightarrow> 'w \<Rightarrow> bool" where
  "wp p Q w = (case run p w of (r, w') \<Rightarrow> Q r w')"

named_theorems wp_intros \<open>syntax-directed rules for weakest preconditions\<close>

lemma wp_run: "wp p Q w \<longleftrightarrow> Q (fst (run p w)) (snd (run p w))"
  by (simp add: wp_def split: prod.split)

lemma wpD: "wp p Q w \<Longrightarrow> run p w = (r, w') \<Longrightarrow> Q r w'"
  by (simp add: wp_def)

lemma wp_Ret [wp_intros]: "Q r w \<Longrightarrow> wp (Ret r) Q w"
  by (simp add: wp_def)

lemma wp_bindp [wp_intros]: "wp p (\<lambda>a. wp (h a) Q) w \<Longrightarrow> wp (bindp p h) Q w"
  by (simp add: wp_def run_bindp split: prod.splits)

lemma wp_atomic: "(case f w of (a, w') \<Rightarrow> Q a w') \<Longrightarrow> wp (atomic f) Q w"
  by (simp add: wp_def run_atomic)

lemma wp_atomically [wp_intros]: "wp p Q w \<Longrightarrow> wp (atomically p) Q w"
  by (simp add: wp_def run_atomically)

lemma wp_if [wp_intros]:
  "(b \<Longrightarrow> wp p Q w) \<Longrightarrow> (\<not> b \<Longrightarrow> wp q Q w) \<Longrightarrow> wp (if b then p else q) Q w"
  by simp

lemma wp_sum [wp_intros]:
  "(\<And>e. x = Inl e \<Longrightarrow> wp (f e) Q w) \<Longrightarrow> (\<And>a. x = Inr a \<Longrightarrow> wp (g a) Q w) \<Longrightarrow>
   wp (case x of Inl e \<Rightarrow> f e | Inr a \<Rightarrow> g a) Q w"
  by (cases x) auto

lemma wp_option [wp_intros]:
  "(x = None \<Longrightarrow> wp p Q w) \<Longrightarrow> (\<And>a. x = Some a \<Longrightarrow> wp (g a) Q w) \<Longrightarrow>
   wp (case x of None \<Rightarrow> p | Some a \<Rightarrow> g a) Q w"
  by (cases x) auto

lemma wp_prod [wp_intros]:
  "(\<And>a b. x = (a, b) \<Longrightarrow> wp (f a b) Q w) \<Longrightarrow> wp (case x of (a, b) \<Rightarrow> f a b) Q w"
  by (cases x) auto

lemma wp_let [wp_intros]: "wp (f x) Q w \<Longrightarrow> wp (let y = x in f y) Q w"
  by (simp add: Let_def)

lemma wp_mono: "wp p Q w \<Longrightarrow> (\<And>r w'. Q r w' \<Longrightarrow> R r w') \<Longrightarrow> wp p R w"
  by (simp add: wp_run)

lemma wp_conj: "wp p Q w \<Longrightarrow> wp p R w \<Longrightarrow> wp p (\<lambda>r w'. Q r w' \<and> R r w') w"
  by (simp add: wp_run)

subsection \<open>Interleavings\<close>

inductive pool_step :: "('w, 'r) prog list \<times> 'w \<Rightarrow> ('w, 'r) prog list \<times> 'w \<Rightarrow> bool" where
  turn: "i < length ps \<Longrightarrow> ps ! i = Step f k \<Longrightarrow> pool_step (ps, w) (ps[i := k w], f w)"

inductive pool_steps :: "('w, 'r) prog list \<times> 'w \<Rightarrow> ('w, 'r) prog list \<times> 'w \<Rightarrow> bool" where
  stay: "pool_steps c c"
| more: "pool_steps c d \<Longrightarrow> pool_step d e \<Longrightarrow> pool_steps c e"

inductive_cases pool_stepE: "pool_step (ps, w) (qs, v)"

text \<open>One turn of the program at a position; nothing when it has returned or is not there.\<close>

definition take_turn :: "nat \<Rightarrow> ('w, 'r) prog list \<times> 'w \<Rightarrow> ('w, 'r) prog list \<times> 'w" where
  "take_turn i c = (case c of (ps, w) \<Rightarrow>
     if i < length ps
     then (case ps ! i of Ret r \<Rightarrow> (ps, w) | Step f k \<Rightarrow> (ps[i := k w], f w))
     else (ps, w))"

fun run_schedule :: "nat list \<Rightarrow> ('w, 'r) prog list \<times> 'w \<Rightarrow> ('w, 'r) prog list \<times> 'w" where
  "run_schedule [] c = c"
| "run_schedule (i # is) c = run_schedule is (take_turn i c)"

lemma take_turn_steps: "pool_steps c d \<Longrightarrow> pool_steps c (take_turn i d)"
proof (cases d)
  case (Pair ps w)
  assume c: "pool_steps c d"
  show ?thesis
  proof (cases "i < length ps")
    case True
    with Pair c show ?thesis
      by (auto simp: take_turn_def split: prog.split intro: pool_steps.more pool_step.turn)
  next
    case False
    with Pair c show ?thesis by (simp add: take_turn_def)
  qed
qed

lemma schedule_steps: "pool_steps c d \<Longrightarrow> pool_steps c (run_schedule is d)"
proof (induction "is" arbitrary: d)
  case Nil
  then show ?case by simp
next
  case (Cons i "is")
  then show ?case by (simp only: run_schedule.simps take_turn_steps)
qed

corollary schedule_reachable: "pool_steps c (run_schedule is c)"
  by (rule schedule_steps) (rule pool_steps.stay)

subsection \<open>Invariants and guarantees of single steps\<close>

text \<open>
  \<open>keeps I G p\<close>: every step of \<open>p\<close> taken in a world with the invariant \<open>I\<close> leads to one
  with \<open>I\<close>, and the two are related by \<open>G\<close>. Between two steps of \<open>p\<close> the world may be any
  other with \<open>I\<close>.
\<close>

primrec keeps :: "('w \<Rightarrow> bool) \<Rightarrow> ('w \<Rightarrow> 'w \<Rightarrow> bool) \<Rightarrow> ('w, 'r) prog \<Rightarrow> bool" where
  "keeps I G (Ret r) = True"
| "keeps I G (Step f k) = (\<forall>w. I w \<longrightarrow> I (f w) \<and> G w (f w) \<and> keeps I G (k w))"

abbreviation stable :: "('w \<Rightarrow> bool) \<Rightarrow> ('w, 'r) prog \<Rightarrow> bool" where
  "stable P \<equiv> keeps P (\<lambda>_ _. True)"

lemma keeps_Ret [stable_intros]: "keeps I G (Ret r)"
  by simp

lemma keeps_bindp [stable_intros]:
  "keeps I G p \<Longrightarrow> (\<And>a. keeps I G (h a)) \<Longrightarrow> keeps I G (bindp p h)"
  by (induction p) auto

lemma keeps_atomic: "(\<And>w. I w \<Longrightarrow> I (snd (f w)) \<and> G w (snd (f w))) \<Longrightarrow> keeps I G (atomic f)"
  by (simp add: atomic_def)

lemma stable_atomic: "(\<And>w. P w \<Longrightarrow> P (snd (f w))) \<Longrightarrow> stable P (atomic f)"
  by (simp add: atomic_def)

lemma keeps_run:
  assumes "reflp G" "transp G"
  shows "keeps I G p \<Longrightarrow> I w \<Longrightarrow> I (snd (run p w)) \<and> G w (snd (run p w))"
proof (induction p arbitrary: w)
  case (Ret r)
  then show ?case using assms(1) by (simp add: reflpD)
next
  case (Step f k)
  then show ?case using transpD [OF assms(2), of w "f w"] by auto
qed

lemma stable_run: "stable P p \<Longrightarrow> P w \<Longrightarrow> P (snd (run p w))"
  by (induction p arbitrary: w) auto

lemma stable_atomically [stable_intros]: "stable P p \<Longrightarrow> stable P (atomically p)"
  unfolding atomically_def by (rule stable_atomic) (rule stable_run)

lemma keeps_if [stable_intros]:
  "(b \<Longrightarrow> keeps I G p) \<Longrightarrow> (\<not> b \<Longrightarrow> keeps I G q) \<Longrightarrow> keeps I G (if b then p else q)"
  by simp

lemma keeps_sum [stable_intros]:
  "(\<And>e. x = Inl e \<Longrightarrow> keeps I G (f e)) \<Longrightarrow> (\<And>a. x = Inr a \<Longrightarrow> keeps I G (g a)) \<Longrightarrow>
   keeps I G (case x of Inl e \<Rightarrow> f e | Inr a \<Rightarrow> g a)"
  by (cases x) auto

lemma keeps_option [stable_intros]:
  "(x = None \<Longrightarrow> keeps I G p) \<Longrightarrow> (\<And>a. x = Some a \<Longrightarrow> keeps I G (g a)) \<Longrightarrow>
   keeps I G (case x of None \<Rightarrow> p | Some a \<Rightarrow> g a)"
  by (cases x) auto

lemma keeps_prod [stable_intros]:
  "(\<And>a b. x = (a, b) \<Longrightarrow> keeps I G (f a b)) \<Longrightarrow> keeps I G (case x of (a, b) \<Rightarrow> f a b)"
  by (cases x) auto

lemma pool_step_keeps:
  assumes "pool_step (ps, w) (qs, v)" "I w" "\<forall>p \<in> set ps. keeps I G p"
  shows "I v \<and> G w v \<and> (\<forall>p \<in> set qs. keeps I G p)"
proof -
  from assms(1) obtain i f k where 1: "i < length ps" "ps ! i = Step f k" "qs = ps[i := k w]" "v = f w"
    by (auto elim: pool_stepE)
  with assms(3) have "keeps I G (Step f k)" by (metis nth_mem)
  with assms(2) have "I (f w)" "G w (f w)" and k: "keeps I G (k w)" by auto
  moreover have "\<forall>p \<in> set (ps[i := k w]). keeps I G p"
    using assms(3) k by (metis insert_iff set_update_subset_insert subsetD)
  ultimately show ?thesis using 1 by simp
qed

text \<open>
  The interface between the requests a server answers and the proofs about its world: every
  request is a program whose single steps keep the invariant and the guarantee. Then both hold
  over any interleaving of any requests, from any of its states to any later one.
\<close>

locale world_invariant =
  fixes I :: "'w \<Rightarrow> bool" and G :: "'w \<Rightarrow> 'w \<Rightarrow> bool" and serves :: "'op \<Rightarrow> ('w, 'r) prog"
  assumes serves_ok: "keeps I G (serves op)"
    and guarantee_refl: "reflp G" and guarantee_trans: "transp G"
begin

lemma pool_ok: "\<forall>p \<in> set (map serves ops). keeps I G p"
  by (simp add: serves_ok)

lemma steps_ok:
  assumes "pool_steps (ps, w) (qs, v)" "I w" "\<forall>p \<in> set ps. keeps I G p"
  shows "I v \<and> G w v \<and> (\<forall>p \<in> set qs. keeps I G p)"
  using assms(1)
proof (induction "(ps, w)" "(qs, v)" arbitrary: qs v rule: pool_steps.induct)
  case stay
  with assms guarantee_refl show ?case by (simp add: reflpD)
next
  case (more d)
  obtain rs u where d: "d = (rs, u)" by force
  with more.hyps(2) have u: "I u" "G w u" "\<forall>p \<in> set rs. keeps I G p" by simp_all
  with more.hyps(3) d have "I v \<and> G u v \<and> (\<forall>p \<in> set qs. keeps I G p)" by (auto dest: pool_step_keeps)
  with u(2) guarantee_trans show ?case by (auto dest: transpD)
qed

theorem interleaved:
  assumes "pool_steps (map serves ops, w) (qs, v)" "I w"
  shows "I v" "G w v"
  using steps_ok [OF assms pool_ok] by simp_all

theorem later:
  assumes "pool_steps (map serves ops, w) (qs, v)" "I w" "pool_steps (qs, v) (rs, u)"
  shows "I u" "G v u"
  using steps_ok [OF assms(3)] steps_ok [OF assms(1,2) pool_ok] by simp_all

lemma alone: "I w \<Longrightarrow> I (snd (run (serves op) w)) \<and> G w (snd (run (serves op) w))"
  by (rule keeps_run [OF guarantee_refl guarantee_trans serves_ok])

end

end
