(* ===== verification/Float64.thy ===== *)
theory Float64
  imports Prelude
begin

text \<open>
  Go's \<open>float64\<close>: IEEE 754 binary64 with round to nearest, ties to even, as far as the
  server uses it (the number of a JSON document, the user id of a token, the seconds of the
  action timer). \<open>Fin m e\<close> is the finite value \<open>m * 2 ^ e\<close>, canonical when \<open>m\<close> has exactly
  53 bits, or \<open>e\<close> is the least exponent, or both are \<open>0\<close>. The sign of a zero is not kept: no
  comparison of the source sees it.
\<close>

datatype f64 = Fin int int | PInf | NInf | NaN

fun bitlen :: "nat \<Rightarrow> nat" where
  "bitlen n = (if n = 0 then 0 else Suc (bitlen (n div 2)))"

declare bitlen.simps [simp del]

text \<open>The quotient of \<open>a\<close> by \<open>2 ^ k\<close>, rounded to nearest, ties to even.\<close>

definition round_half_even :: "nat \<Rightarrow> nat \<Rightarrow> nat" where
  "round_half_even a k =
     (let q = a div 2 ^ k; r = a mod 2 ^ k in
      if 2 * r < 2 ^ k \<or> (2 * r = 2 ^ k \<and> even q) then q else q + 1)"

definition f64_pack :: "bool \<Rightarrow> nat \<Rightarrow> int \<Rightarrow> f64" where
  "f64_pack neg q e =
     (if q = 0 then Fin 0 0
      else let q' = (if q = 2 ^ 53 then 2 ^ 52 else q); e' = (if q = 2 ^ 53 then e + 1 else e) in
      if e' > 971 then (if neg then NInf else PInf)
      else Fin (if neg then - int q' else int q') e')"

text \<open>The \<open>float64\<close> nearest to \<open>m * 2 ^ e\<close>.\<close>

definition f64_round :: "int \<Rightarrow> int \<Rightarrow> f64" where
  "f64_round m e =
     (let a = nat \<bar>m\<bar>; e' = max (e + int (bitlen a) - 53) (- 1074) in
      if e' \<le> e then f64_pack (m < 0) (a * 2 ^ nat (e - e')) e'
      else f64_pack (m < 0) (round_half_even a (nat (e' - e))) e')"

definition f64_of_int :: "int \<Rightarrow> f64" where
  "f64_of_int n = f64_round n 0"

text \<open>
  The \<open>float64\<close> nearest to \<open>m * 10 ^ x\<close>. A negative power of ten is divided out to more
  than 64 bits; the last bit of the quotient records whether the division was exact, which
  decides the ties.
\<close>

definition f64_of_dec :: "int \<Rightarrow> int \<Rightarrow> f64" where
  "f64_of_dec m x =
     (if 0 \<le> x then f64_round (m * 10 ^ nat x) 0
      else let d = 10 ^ nat (- x); a = nat \<bar>m\<bar>; s = bitlen d + 66; q = (a * 2 ^ s) div d;
               t = 2 * q + (if (a * 2 ^ s) mod d = 0 then 0 else 1)
           in f64_round (if m < 0 then - int t else int t) (- int s - 1))"

fun f64_sub :: "f64 \<Rightarrow> f64 \<Rightarrow> f64" where
  "f64_sub (Fin m1 e1) (Fin m2 e2) =
     (let e = min e1 e2 in f64_round (m1 * 2 ^ nat (e1 - e) - m2 * 2 ^ nat (e2 - e)) e)"
| "f64_sub NaN _ = NaN"
| "f64_sub _ NaN = NaN"
| "f64_sub PInf PInf = NaN"
| "f64_sub PInf _ = PInf"
| "f64_sub NInf NInf = NaN"
| "f64_sub NInf _ = NInf"
| "f64_sub (Fin _ _) PInf = NInf"
| "f64_sub (Fin _ _) NInf = PInf"

text \<open>Go's \<open>x <= 0\<close> (false on a NaN).\<close>

fun f64_le0 :: "f64 \<Rightarrow> bool" where
  "f64_le0 (Fin m e) = (m \<le> 0)"
| "f64_le0 NInf = True"
| "f64_le0 PInf = False"
| "f64_le0 NaN = False"

text \<open>
  Go's \<open>int64(x)\<close>: truncation towards zero. Where the value does not fit, the language leaves
  the result to the implementation: the argument \<open>oor\<close>.
\<close>

fun f64_to_int64 :: "int \<Rightarrow> f64 \<Rightarrow> int" where
  "f64_to_int64 oor (Fin m e) =
     (let v = (if 0 \<le> e then m * 2 ^ nat e else sgn m * (\<bar>m\<bar> div 2 ^ nat (- e))) in
      if - (2 ^ 63) \<le> v \<and> v < 2 ^ 63 then v else oor)"
| "f64_to_int64 oor _ = oor"

lemmas f64_eval = f64_of_int_def f64_of_dec_def f64_round_def f64_pack_def round_half_even_def Let_def

subsection \<open>The length of a number in bits\<close>

lemma bitlen_0 [simp]: "bitlen 0 = 0"
  by (simp add: bitlen.simps)

lemma bitlen_pos: "0 < n \<Longrightarrow> bitlen n = Suc (bitlen (n div 2))"
  by (simp add: bitlen.simps [of n])

text \<open>On numerals the length is read off the binary digits, so closed terms evaluate by \<open>simp\<close>.\<close>

lemma bitlen_numeral [simp]:
  "bitlen (Suc 0) = 1"
  "bitlen (numeral num.One) = 1"
  "bitlen (numeral (num.Bit0 k)) = Suc (bitlen (numeral k))"
  "bitlen (numeral (num.Bit1 k)) = Suc (bitlen (numeral k))"
  by (simp_all add: bitlen_pos)

lemma bitlen_upper: "n < 2 ^ bitlen n"
proof (induction n rule: bitlen.induct)
  case (1 n)
  show ?case
  proof (cases "n = 0")
    case False
    then have "n div 2 < 2 ^ bitlen (n div 2)" by (rule "1.IH")
    with False show ?thesis by (simp add: bitlen_pos)
  qed simp
qed

lemma bitlen_lower: "0 < n \<Longrightarrow> 2 ^ bitlen n \<le> 2 * n"
proof (induction n rule: bitlen.induct)
  case (1 n)
  show ?case
  proof (cases "n div 2 = 0")
    case True
    with "1.prems" show ?thesis by (simp add: bitlen_pos)
  next
    case False
    with "1" have "2 ^ bitlen (n div 2) \<le> 2 * (n div 2)" by simp
    with "1.prems" show ?thesis by (simp add: bitlen_pos)
  qed
qed

lemma bitlen_le: "n < 2 ^ k \<Longrightarrow> bitlen n \<le> k"
proof (rule ccontr)
  assume n: "n < 2 ^ k" and "\<not> bitlen n \<le> k"
  then have "0 < n" and "Suc k \<le> bitlen n" by (auto intro: Nat.gr0I)
  then have "2 ^ Suc k \<le> (2::nat) ^ bitlen n" by (intro power_increasing) auto
  with bitlen_lower [OF \<open>0 < n\<close>] n show False by simp
qed

subsection \<open>Integers of at most 53 bits are represented exactly\<close>

lemma f64_of_int_exact:
  assumes "\<bar>n\<bar> < 2 ^ 53" "n \<noteq> 0"
  shows "f64_of_int n = Fin (n * 2 ^ (53 - bitlen (nat \<bar>n\<bar>))) (int (bitlen (nat \<bar>n\<bar>)) - 53)"
proof -
  let ?a = "nat \<bar>n\<bar>" and ?b = "bitlen (nat \<bar>n\<bar>)"
  have a: "?a < 2 ^ 53" "0 < ?a" using assms by (auto simp: nat_less_iff)
  then have b: "?b \<le> 53" by (intro bitlen_le)
  have "?a * 2 ^ (53 - ?b) < 2 ^ ?b * 2 ^ (53 - ?b)"
    by (rule mult_strict_right_mono) (simp_all add: bitlen_upper)
  also have "\<dots> = 2 ^ 53" using b by (simp flip: power_add)
  finally have lt: "?a * 2 ^ (53 - ?b) \<noteq> 2 ^ 53" by simp
  have "f64_of_int n = f64_pack (n < 0) (?a * 2 ^ (53 - ?b)) (int ?b - 53)"
    using b by (simp add: f64_of_int_def f64_round_def Let_def nat_diff_distrib)
  with a b lt show ?thesis
    by (auto simp: f64_pack_def Let_def abs_if of_nat_mult split: if_splits)
qed

lemma f64_to_int64_scaled:
  assumes "- (2 ^ 63) \<le> n" "n < 2 ^ 63"
  shows "f64_to_int64 oor (Fin (n * 2 ^ k) (- int k)) = n"
proof -
  have "sgn (n * 2 ^ k) * (\<bar>n * 2 ^ k\<bar> div 2 ^ k) = n"
    by (simp add: sgn_mult abs_mult sgn_mult_abs)
  moreover have "0 \<le> - int k \<Longrightarrow> k = 0" by simp
  ultimately have "(if 0 \<le> - int k then n * 2 ^ k * 2 ^ nat (- int k)
      else sgn (n * 2 ^ k) * (\<bar>n * 2 ^ k\<bar> div 2 ^ nat (- (- int k)))) = n"
    by auto
  with assms show ?thesis by (simp only: f64_to_int64.simps Let_def if_True conj_absorb simp_thms)
qed

lemma f64_int_roundtrip_lt:
  assumes "\<bar>n\<bar> < 2 ^ 53"
  shows "f64_to_int64 oor (f64_of_int n) = n"
proof (cases "n = 0")
  case True
  then show ?thesis by (simp add: f64_of_int_def f64_round_def f64_pack_def)
next
  case False
  let ?b = "bitlen (nat \<bar>n\<bar>)"
  have "nat \<bar>n\<bar> < 2 ^ 53" using assms by (auto simp: nat_less_iff)
  then have b: "?b \<le> 53" by (intro bitlen_le)
  let ?k = "53 - ?b"
  have k: "int ?b - 53 = - int ?k" using b by simp
  have bounds: "- (2 ^ 63) \<le> n" "n < 2 ^ 63" using assms by auto
  have "f64_of_int n = Fin (n * 2 ^ ?k) (- int ?k)"
    using f64_of_int_exact [OF assms False] unfolding k .
  moreover have "f64_to_int64 oor (Fin (n * 2 ^ ?k) (- int ?k)) = n"
    using bounds by (rule f64_to_int64_scaled)
  ultimately show ?thesis by simp
qed

end
