(* ===== verification/Json.thy ===== *)
theory Json
  imports Float64
begin

text \<open>
  How \<open>encoding/json\<close> stores a parsed document into the request structs of the handlers: a
  field is found by its tag, letter case aside; \<open>null\<close> leaves the field as it is; a value of
  another JSON type, or an integer that does not fit, is an error of the whole decode; members
  without a field are skipped; a repeated member overwrites. The text of the document is
  parsed before (\<open>None\<close> of a request stands for a syntax error or an empty body).
\<close>

text \<open>
  \<open>JInt n\<close> is a number literal without fraction and exponent, \<open>JDec m x\<close> any other number
  literal, of value \<open>m * 10 ^ x\<close>: Go accepts only the first for an integer field.
\<close>

datatype json =
    JNull
  | JBool bool
  | JInt int
  | JDec int int
  | JStr string
  | JArr "json list"
  | JObj "(string \<times> json) list"

text \<open>
  Case folding of member names, on the bytes of their UTF-8 text: the letters A-Z, the Kelvin
  sign (a k) and the long s. No other character folds to an ASCII letter, and every tag of
  the server is ASCII.
\<close>

fun fold_codes :: "nat list \<Rightarrow> nat list" where
  "fold_codes [] = []"
| "fold_codes (c # cs) =
     (if c = 226 \<and> take 2 cs = [132, 170] then 107 # fold_codes (drop 2 cs)
      else if c = 197 \<and> take 1 cs = [191] then 115 # fold_codes (drop 1 cs)
      else if 65 \<le> c \<and> c \<le> 90 then (c + 32) # fold_codes cs
      else c # fold_codes cs)"

definition json_key :: "string \<Rightarrow> string \<Rightarrow> bool" where
  "json_key tag key \<longleftrightarrow> key = tag \<or> fold_codes (map of_char key) = fold_codes (map of_char tag)"

subsection \<open>Values of the fields\<close>

fun dec_int :: "(int \<Rightarrow> 'r \<Rightarrow> 'r) \<Rightarrow> json \<Rightarrow> 'r \<Rightarrow> 'r option" where
  "dec_int upd JNull r = Some r"
| "dec_int upd (JInt n) r = (if - (2 ^ 63) \<le> n \<and> n < 2 ^ 63 then Some (upd n r) else None)"
| "dec_int upd _ r = None"

fun dec_string :: "(string \<Rightarrow> 'r \<Rightarrow> 'r) \<Rightarrow> json \<Rightarrow> 'r \<Rightarrow> 'r option" where
  "dec_string upd JNull r = Some r"
| "dec_string upd (JStr s) r = Some (upd s r)"
| "dec_string upd _ r = None"

fun dec_bool :: "(bool \<Rightarrow> 'r \<Rightarrow> 'r) \<Rightarrow> json \<Rightarrow> 'r \<Rightarrow> 'r option" where
  "dec_bool upd JNull r = Some r"
| "dec_bool upd (JBool b) r = Some (upd b r)"
| "dec_bool upd _ r = None"

definition f64_field :: "(f64 \<Rightarrow> 'r \<Rightarrow> 'r) \<Rightarrow> f64 \<Rightarrow> 'r \<Rightarrow> 'r option" where
  "f64_field upd x r = (case x of Fin m e \<Rightarrow> Some (upd x r) | _ \<Rightarrow> None)"

fun dec_f64 :: "(f64 \<Rightarrow> 'r \<Rightarrow> 'r) \<Rightarrow> json \<Rightarrow> 'r \<Rightarrow> 'r option" where
  "dec_f64 upd JNull r = Some r"
| "dec_f64 upd (JInt n) r = f64_field upd (f64_of_int n) r"
| "dec_f64 upd (JDec m x) r = f64_field upd (f64_of_dec m x) r"
| "dec_f64 upd _ r = None"

subsection \<open>Structs\<close>

type_synonym 'r fields = "(string \<times> (json \<Rightarrow> 'r \<Rightarrow> 'r option)) list"

fun find_field :: "'r fields \<Rightarrow> string \<Rightarrow> (json \<Rightarrow> 'r \<Rightarrow> 'r option) option" where
  "find_field [] key = None"
| "find_field ((tag, dec) # fs) key = (if json_key tag key then Some dec else find_field fs key)"

fun decode_members :: "'r fields \<Rightarrow> (string \<times> json) list \<Rightarrow> 'r \<Rightarrow> 'r option" where
  "decode_members fs [] r = Some r"
| "decode_members fs ((key, v) # ms) r =
     (case find_field fs key of
        None \<Rightarrow> decode_members fs ms r
      | Some dec \<Rightarrow> (case dec v r of None \<Rightarrow> None | Some r' \<Rightarrow> decode_members fs ms r'))"

fun decode_struct :: "'r fields \<Rightarrow> 'r \<Rightarrow> json \<Rightarrow> 'r option" where
  "decode_struct fs zero JNull = Some zero"
| "decode_struct fs zero (JObj ms) = decode_members fs ms zero"
| "decode_struct fs zero _ = None"

text \<open>The decode of a body that may have no JSON value in it.\<close>

definition decode_body :: "'r fields \<Rightarrow> 'r \<Rightarrow> json option \<Rightarrow> 'r option" where
  "decode_body fs zero body = (case body of None \<Rightarrow> None | Some v \<Rightarrow> decode_struct fs zero v)"

lemma decode_members_append:
  "decode_members fs (ms @ ns) r =
     (case decode_members fs ms r of None \<Rightarrow> None | Some r' \<Rightarrow> decode_members fs ns r')"
  by (induction fs ms r rule: decode_members.induct) (auto split: option.splits)

text \<open>An integer field never leaves the range of \<open>int64\<close>.\<close>

lemma dec_int_range:
  "dec_int (\<lambda>n _. n) v r = Some n \<Longrightarrow> - (2 ^ 63) \<le> r \<Longrightarrow> r < 2 ^ 63 \<Longrightarrow>
   - (2 ^ 63) \<le> n \<and> n < 2 ^ 63"
  by (cases v) (auto split: if_splits)

end
