(* ===== verification/Http.thy ===== *)
theory Http
  imports Json
begin

text \<open>
  What the handlers read of a request and what they answer. A response is a JSON value of
  the handler's response type (status 200) or the message of \<open>http.Error\<close> with its status
  code. A header, form value, query value or path variable that is absent is the empty
  string, as \<open>Header.Get\<close>, \<open>FormValue\<close>, \<open>Query().Get\<close> and \<open>mux.Vars\<close> give it.
\<close>

record request =
  rq_ctx :: "int option"                       \<comment> \<open>the user id the JWT middleware put in the context\<close>
  rq_auth :: string                            \<comment> \<open>header Authorization\<close>
  rq_ctype :: string                           \<comment> \<open>header Content-Type\<close>
  rq_json :: "json option"                     \<comment> \<open>the first JSON value of the body\<close>
  rq_form :: "(string \<times> string) list option"   \<comment> \<open>what ParseForm collects, None where it fails\<close>
  rq_query :: "(string \<times> string) list"
  rq_vars :: "(string \<times> string) list"

definition value_of :: "(string \<times> string) list \<Rightarrow> string \<Rightarrow> string" where
  "value_of kvs k = (case map_of kvs k of None \<Rightarrow> [] | Some v \<Rightarrow> v)"

datatype 'b response = Json 'b | HttpError string nat

primrec status_code :: "'b response \<Rightarrow> nat" where
  "status_code (Json b) = 200"
| "status_code (HttpError m c) = c"

abbreviation "StatusBadRequest \<equiv> (400 :: nat)"
abbreviation "StatusUnauthorized \<equiv> (401 :: nat)"
abbreviation "StatusForbidden \<equiv> (403 :: nat)"
abbreviation "StatusNotFound \<equiv> (404 :: nat)"
abbreviation "StatusConflict \<equiv> (409 :: nat)"
abbreviation "StatusUnsupportedMediaType \<equiv> (415 :: nat)"
abbreviation "StatusInternalServerError \<equiv> (500 :: nat)"

text \<open>\<open>middleware.GetUserID\<close>: the user id of the request's context, \<open>0\<close> when it has none.\<close>

definition GetUserID :: "request \<Rightarrow> int" where
  "GetUserID r = (case rq_ctx r of Some uid \<Rightarrow> uid | None \<Rightarrow> 0)"

text \<open>A request with nothing in it, from which the examples are built.\<close>

definition blank_request :: request where
  "blank_request = \<lparr>rq_ctx = None, rq_auth = [], rq_ctype = [], rq_json = None,
     rq_form = None, rq_query = [], rq_vars = []\<rparr>"

text \<open>UTF-8 text that is not ASCII, by its bytes.\<close>

definition bytes :: "nat list \<Rightarrow> string" where
  "bytes = map char_of"

end
