(* ===== verification/Database.thy ===== *)
theory Database
  imports Go_Runtime Http
begin

text \<open>
  The MySQL tables the server uses, and the functions of \<open>internal/models\<close> as statements on
  them. A table is the list of its rows in the order of the primary key, in which an
  unordered query scans it. Strings are compared through \<open>d_coll\<close>, the key of the column's
  collation, which the schema (not part of the repository) fixes. \<open>room_users\<close> has the unique
  key (room_id, user_id) that \<open>AddUserToRoomAsHost\<close> states it relies on.

  Every statement is one atomic step. It may fail for reasons of its own (connection, lock
  timeout, a constraint of the schema): \<open>w_faults\<close> lists, for the statements to come, which
  of them fail (with the text of the error; those beyond the list succeed), so that a theorem about every list covers every error path. A failed
  statement changes nothing.
\<close>

subsection \<open>Tables\<close>

record Room =
  rm_id :: int
  rm_code :: string
  rm_game_type :: int
  rm_status :: string
  rm_max :: int
  rm_created :: int
  rm_owner :: int

record room_user =
  ru_id :: int
  ru_room :: int
  ru_user :: int
  ru_ready :: bool

record user =
  u_id :: int
  u_name :: string
  u_password :: string
  u_created :: int
  u_last_login :: int

record setting =
  st_user :: int
  st_bgm :: f64
  st_se :: f64
  st_icon :: string

record tip =
  tp_user :: int
  tp_solo :: int
  tp_multi :: int
  tp_updated :: int

record mode_row =
  md_id :: int
  md_mode :: string
  md_can_play :: bool

record game_type =
  gt_id :: int
  gt_code :: string
  gt_name :: string

record type_row =
  ty_id :: int
  ty_game_type :: int
  ty_mode :: int
  ty_name :: string
  ty_rule :: string
  ty_can_play :: bool

record game_row =
  ga_id :: int
  ga_mode :: int
  ga_type :: int

record player_row =
  pl_room :: int
  pl_user :: int
  pl_chip :: int
  pl_bet :: int
  pl_is_dealer :: bool

record database =
  d_coll :: "string \<Rightarrow> string"
  d_users :: "user list"
  d_settings :: "setting list"
  d_tips :: "tip list"
  d_modes :: "mode_row list"
  d_types :: "type_row list"
  d_game_types :: "game_type list"
  d_rooms :: "Room list"
  d_room_users :: "room_user list"
  d_games :: "game_row list"
  d_players :: "player_row list"
  d_next_user :: int
  d_next_room :: int
  d_next_ru :: int
  d_next_game :: int

definition empty_db :: database where
  "empty_db = \<lparr>d_coll = (\<lambda>s. s), d_users = [], d_settings = [], d_tips = [], d_modes = [],
     d_types = [], d_game_types = [], d_rooms = [], d_room_users = [], d_games = [],
     d_players = [], d_next_user = 1, d_next_room = 1, d_next_ru = 1, d_next_game = 1\<rparr>"

text \<open>A rollback restores the tables; the AUTO_INCREMENT counters do not go back.\<close>

definition rollback_db :: "database \<Rightarrow> database \<Rightarrow> database" where
  "rollback_db old new = old\<lparr>d_next_user := d_next_user new, d_next_room := d_next_room new,
     d_next_ru := d_next_ru new, d_next_game := d_next_game new\<rparr>"

record dbworld =
  w_db :: database
  w_faults :: "string option list"
  w_clock :: int                       \<comment> \<open>time.Now().Unix()\<close>

subsection \<open>Statements and transactions\<close>

datatype sqlerr = ErrNoRows | DbFault string

type_synonym 'a sqlres = "sqlerr + 'a"

definition sql :: "(database \<Rightarrow> 'a sqlres \<times> database) \<Rightarrow> ('z dbworld_scheme, 'a sqlres) prog" where
  "sql q = atomic (\<lambda>w.
     case w_faults w of
       Some e # fs \<Rightarrow> (Inl (DbFault e), w\<lparr>w_faults := fs\<rparr>)
     | fs \<Rightarrow> (case q (w_db w) of (r, d) \<Rightarrow> (r, w\<lparr>w_db := d, w_faults := tl fs\<rparr>)))"

text \<open>\<open>QueryRow(...).Scan(...)\<close>: the first row of the result, or \<open>sql.ErrNoRows\<close>.\<close>

definition first_row :: "'a list \<Rightarrow> 'a sqlres" where
  "first_row rows = (case rows of [] \<Rightarrow> Inl ErrNoRows | x # _ \<Rightarrow> Inr x)"

text \<open>The existence checks turn \<open>sql.ErrNoRows\<close> into \<open>false\<close> and pass other errors on.\<close>

definition exists_row :: "'a sqlres \<Rightarrow> bool sqlres" where
  "exists_row r = (case r of Inl ErrNoRows \<Rightarrow> Inr False | Inl e \<Rightarrow> Inl e | Inr _ \<Rightarrow> Inr True)"

text \<open>
  The body of a transaction, from \<open>Begin\<close> on, says whether it was committed. The deferred
  \<open>Rollback\<close> undoes its statements otherwise. Transactions are serializable: nothing else runs
  between their statements.
\<close>

definition transaction :: "('z dbworld_scheme, bool \<times> 'a) prog \<Rightarrow> ('z dbworld_scheme, 'a) prog" where
  "transaction body = atomic (\<lambda>w. case run body w of ((committed, a), w') \<Rightarrow>
     (a, if committed then w' else w'\<lparr>w_db := rollback_db (w_db w) (w_db w')\<rparr>))"

definition tx_begin :: "('z dbworld_scheme, unit sqlres) prog" where
  "tx_begin = sql (\<lambda>d. (Inr (), d))"

definition tx_commit :: "('z dbworld_scheme, unit sqlres) prog" where
  "tx_commit = sql (\<lambda>d. (Inr (), d))"

lemma run_sql [run_simps]:
  "run (sql q) w =
     (case w_faults w of
        Some e # fs \<Rightarrow> (Inl (DbFault e), w\<lparr>w_faults := fs\<rparr>)
      | fs \<Rightarrow> (case q (w_db w) of (r, d) \<Rightarrow> (r, w\<lparr>w_db := d, w_faults := tl fs\<rparr>)))"
  by (simp add: sql_def run_atomic)

lemma run_transaction [run_simps]:
  "run (transaction body) w = (case run body w of ((committed, a), w') \<Rightarrow>
     (a, if committed then w' else w'\<lparr>w_db := rollback_db (w_db w) (w_db w')\<rparr>))"
  by (simp add: transaction_def run_atomic)

lemma wp_sql:
  assumes "\<And>e fs. Q (Inl (DbFault e)) (w\<lparr>w_faults := fs\<rparr>)"
    and "\<And>fs r d. q (w_db w) = (r, d) \<Longrightarrow> Q r (w\<lparr>w_db := d, w_faults := fs\<rparr>)"
  shows "wp (sql q) Q w"
  using assms by (auto simp: wp_def run_sql split: prod.splits list.splits option.splits)

lemma wp_transaction:
  assumes "wp body (\<lambda>ca w'. Q (snd ca)
     (if fst ca then w' else w'\<lparr>w_db := rollback_db (w_db w) (w_db w')\<rparr>)) w"
  shows "wp (transaction body) Q w"
  using assms by (auto simp: wp_def run_transaction split: prod.splits)

lemma stable_sql:
  assumes "\<And>w fs. P w \<Longrightarrow> P (w\<lparr>w_faults := fs\<rparr>)"
    and "\<And>w r d fs. P w \<Longrightarrow> q (w_db w) = (r, d) \<Longrightarrow> P (w\<lparr>w_db := d, w_faults := fs\<rparr>)"
  shows "stable P (sql q)"
  unfolding sql_def
  by (rule stable_atomic) (auto simp: assms split: prod.splits list.splits option.splits)

lemma stable_transaction:
  assumes "stable P body" "\<And>w w'. P w \<Longrightarrow> P w' \<Longrightarrow> P (w'\<lparr>w_db := rollback_db (w_db w) (w_db w')\<rparr>)"
  shows "stable P (transaction body)"
  unfolding transaction_def
proof (rule stable_atomic)
  fix w :: "'a dbworld_scheme"
  assume "P w"
  with stable_run [OF assms(1) this] assms(2)
  show "P (snd (case run body w of ((committed, a), w') \<Rightarrow>
     (a, if committed then w' else w'\<lparr>w_db := rollback_db (w_db w) (w_db w')\<rparr>)))"
    by (auto split: prod.splits)
qed

end
