(* ===== verification/Models.thy ===== *)
theory Models
  imports Database
begin

text \<open>
  The functions of \<open>internal/models\<close> (room.go, room_user.go, room_leave.go, room_info.go,
  gamePlayer.go, and the placeholders of user.go and db.go), each one statement. The part of a statement that reads or writes rows is a
  function of its own on the tables, named after it.
\<close>

section \<open>Rooms (models/room.go, models/room_leave.go)\<close>

definition insert_room :: "string \<Rightarrow> int \<Rightarrow> int \<Rightarrow> int \<Rightarrow> string \<Rightarrow> int \<Rightarrow> database \<Rightarrow> database" where
  "insert_room code game_type maxp owner status now d = d\<lparr>
     d_rooms := d_rooms d @ [\<lparr>rm_id = d_next_room d, rm_code = code, rm_game_type = game_type,
       rm_status = status, rm_max = maxp, rm_created = now, rm_owner = owner\<rparr>],
     d_next_room := d_next_room d + 1\<rparr>"

text \<open>
  \<open>models.CreateRoom\<close> leaves two columns to the defaults of the schema, which is not in the repository:
  \<open>default_owner\<close> and \<open>default_created\<close>. No other code calls it.
\<close>

definition models_CreateRoom :: "int \<Rightarrow> int \<Rightarrow> string \<Rightarrow> int \<Rightarrow> int \<Rightarrow> ('z dbworld_scheme, int sqlres) prog" where
  "models_CreateRoom default_owner default_created roomCode gameTypeID maxPlayers = sql (\<lambda>d.
     (Inr (d_next_room d), insert_room roomCode gameTypeID maxPlayers default_owner ''waiting'' default_created d))"

definition room_by_code :: "string \<Rightarrow> database \<Rightarrow> Room sqlres" where
  "room_by_code code d = first_row (filter (\<lambda>r. d_coll d (rm_code r) = d_coll d code) (d_rooms d))"

definition GetRoomByCode :: "string \<Rightarrow> ('z dbworld_scheme, Room sqlres) prog" where
  "GetRoomByCode roomCode = sql (\<lambda>d. (room_by_code roomCode d, d))"

definition set_room_status :: "int \<Rightarrow> string \<Rightarrow> database \<Rightarrow> database" where
  "set_room_status roomID status d =
     d\<lparr>d_rooms := map (\<lambda>r. if rm_id r = roomID then r\<lparr>rm_status := status\<rparr> else r) (d_rooms d)\<rparr>"

definition UpdateRoomStatus :: "int \<Rightarrow> string \<Rightarrow> ('z dbworld_scheme, unit sqlres) prog" where
  "UpdateRoomStatus roomID status = sql (\<lambda>d. (Inr (), set_room_status roomID status d))"

definition UpdateRoomStatusTx :: "int \<Rightarrow> string \<Rightarrow> ('z dbworld_scheme, unit sqlres) prog" where
  "UpdateRoomStatusTx roomID status = sql (\<lambda>d. (Inr (), set_room_status roomID status d))"

definition set_room_owner :: "int \<Rightarrow> int \<Rightarrow> database \<Rightarrow> database" where
  "set_room_owner roomID uid d =
     d\<lparr>d_rooms := map (\<lambda>r. if rm_id r = roomID then r\<lparr>rm_owner := uid\<rparr> else r) (d_rooms d)\<rparr>"

definition SetRoomOwnerTx :: "int \<Rightarrow> int \<Rightarrow> ('z dbworld_scheme, unit sqlres) prog" where
  "SetRoomOwnerTx roomID newOwnerID = sql (\<lambda>d. (Inr (), set_room_owner roomID newOwnerID d))"

text \<open>The struct \<open>models.RoomUser\<close>, and the join that fills it: host first, then by entry.\<close>

record RoomUser =
  us_ID :: int
  us_UserID :: int
  us_RoomID :: int
  us_UserName :: string
  us_IsReady :: bool
  us_IsHost :: bool

definition room_user_rows :: "int \<Rightarrow> database \<Rightarrow> RoomUser list" where
  "room_user_rows roomID d =
     [\<lparr>us_ID = ru_id ru, us_UserID = u_id u, us_RoomID = ru_room ru, us_UserName = u_name u,
       us_IsReady = ru_ready ru, us_IsHost = (ru_user ru = rm_owner r)\<rparr>.
      ru \<leftarrow> d_room_users d, u \<leftarrow> d_users d, ru_user ru = u_id u,
      r \<leftarrow> d_rooms d, ru_room ru = rm_id r, ru_room ru = roomID]"

definition order_users :: "RoomUser list \<Rightarrow> RoomUser list" where
  "order_users us = (let s = sort_key us_ID us in filter us_IsHost s @ filter (\<lambda>u. \<not> us_IsHost u) s)"

definition GetUsersInRoom :: "int \<Rightarrow> ('z dbworld_scheme, RoomUser list sqlres) prog" where
  "GetUsersInRoom roomID = sql (\<lambda>d. (Inr (order_users (room_user_rows roomID d)), d))"

section \<open>Members of a room (models/room_user.go, models/room_leave.go)\<close>

definition members :: "int \<Rightarrow> database \<Rightarrow> int list" where
  "members roomID d = map ru_user (filter (\<lambda>ru. ru_room ru = roomID) (d_room_users d))"

definition add_member :: "int \<Rightarrow> int \<Rightarrow> bool \<Rightarrow> database \<Rightarrow> database" where
  "add_member roomID uid ready d = d\<lparr>
     d_room_users := d_room_users d @
       [\<lparr>ru_id = d_next_ru d, ru_room = roomID, ru_user = uid, ru_ready = ready\<rparr>],
     d_next_ru := d_next_ru d + 1\<rparr>"

definition set_ready :: "int \<Rightarrow> int \<Rightarrow> bool \<Rightarrow> database \<Rightarrow> database" where
  "set_ready roomID uid ready d = d\<lparr>d_room_users := map (\<lambda>ru.
     if ru_room ru = roomID \<and> ru_user ru = uid then ru\<lparr>ru_ready := ready\<rparr> else ru) (d_room_users d)\<rparr>"

definition remove_member :: "int \<Rightarrow> int \<Rightarrow> database \<Rightarrow> database" where
  "remove_member roomID uid d = d\<lparr>d_room_users :=
     filter (\<lambda>ru. \<not> (ru_room ru = roomID \<and> ru_user ru = uid)) (d_room_users d)\<rparr>"

definition AddUserToRoom :: "int \<Rightarrow> int \<Rightarrow> ('z dbworld_scheme, unit sqlres) prog" where
  "AddUserToRoom roomID userID = sql (\<lambda>d.
     if userID \<in> set (members roomID d) then (Inl (DbFault ''Duplicate entry''), d)
     else (Inr (), add_member roomID userID False d))"

definition AddUserToRoomAsHost :: "int \<Rightarrow> int \<Rightarrow> bool \<Rightarrow> ('z dbworld_scheme, unit sqlres) prog" where
  "AddUserToRoomAsHost roomID userID isReady = sql (\<lambda>d.
     if userID \<in> set (members roomID d) then (Inr (), set_ready roomID userID isReady d)
     else (Inr (), add_member roomID userID isReady d))"

definition CountUsersInRoom :: "int \<Rightarrow> ('z dbworld_scheme, nat sqlres) prog" where
  "CountUsersInRoom roomID = sql (\<lambda>d. (Inr (length (members roomID d)), d))"

definition CountUsersInRoomTx :: "int \<Rightarrow> ('z dbworld_scheme, nat sqlres) prog" where
  "CountUsersInRoomTx roomID = sql (\<lambda>d. (Inr (length (members roomID d)), d))"

definition UpdateUserReady :: "int \<Rightarrow> int \<Rightarrow> bool \<Rightarrow> ('z dbworld_scheme, unit sqlres) prog" where
  "UpdateUserReady roomID userID isReady = sql (\<lambda>d. (Inr (), set_ready roomID userID isReady d))"

definition CountReadyUsers :: "int \<Rightarrow> ('z dbworld_scheme, nat sqlres) prog" where
  "CountReadyUsers roomID = sql (\<lambda>d.
     (Inr (length (filter (\<lambda>ru. ru_room ru = roomID \<and> ru_ready ru) (d_room_users d))), d))"

definition IsUserInRoom :: "int \<Rightarrow> int \<Rightarrow> ('z dbworld_scheme, bool sqlres) prog" where
  "IsUserInRoom roomID userID = bindp
     (sql (\<lambda>d. (first_row (filter (\<lambda>ru. ru_room ru = roomID \<and> ru_user ru = userID) (d_room_users d)), d)))
     (\<lambda>r. Ret (exists_row r))"

definition IsUserHostInRoom :: "int \<Rightarrow> int \<Rightarrow> ('z dbworld_scheme, bool sqlres) prog" where
  "IsUserHostInRoom roomID userID = bindp
     (sql (\<lambda>d. (first_row (filter (\<lambda>r. rm_id r = roomID \<and> rm_owner r = userID) (d_rooms d)), d)))
     (\<lambda>r. Ret (exists_row r))"

text \<open>
  The member with the least entry id becomes the next owner; the answer is
  \<open>(userID, found, err)\<close>, here \<open>None\<close> when nobody is left.
\<close>

definition next_owner :: "int \<Rightarrow> database \<Rightarrow> int option" where
  "next_owner roomID d =
     (case sort_key ru_id (filter (\<lambda>ru. ru_room ru = roomID) (d_room_users d)) of
        [] \<Rightarrow> None | ru # _ \<Rightarrow> Some (ru_user ru))"

definition PickNextOwnerTx :: "int \<Rightarrow> ('z dbworld_scheme, int option sqlres) prog" where
  "PickNextOwnerTx roomID = sql (\<lambda>d. (Inr (next_owner roomID d), d))"

definition RemoveUserFromRoomTx :: "int \<Rightarrow> int \<Rightarrow> ('z dbworld_scheme, nat sqlres) prog" where
  "RemoveUserFromRoomTx roomID userID = sql (\<lambda>d.
     (Inr (length (filter (\<lambda>ru. ru_room ru = roomID \<and> ru_user ru = userID) (d_room_users d))),
      remove_member roomID userID d))"

section \<open>Lists for the client (models/room_info.go, models/gamePlayer.go)\<close>

record RoomPlayerInfo =
  rp_Name :: string
  rp_IsReady :: bool
  rp_UserID :: int
  rp_IsHost :: bool

definition GetPlayersByRoomID :: "int \<Rightarrow> ('z dbworld_scheme, RoomPlayerInfo list sqlres) prog" where
  "GetPlayersByRoomID roomID = sql (\<lambda>d. (Inr
     [\<lparr>rp_Name = u_name u, rp_IsReady = ru_ready ru, rp_UserID = ru_user ru,
       rp_IsHost = (ru_user ru = rm_owner r)\<rparr>.
      ru \<leftarrow> d_room_users d, u \<leftarrow> d_users d, ru_user ru = u_id u,
      r \<leftarrow> d_rooms d, ru_room ru = rm_id r, ru_room ru = roomID], d))"

definition unknown_game :: string where
  \<comment> \<open>the UTF-8 bytes of the Japanese for "unknown game"\<close>
  "unknown_game = bytes [228, 184, 141, 230, 152, 142, 227, 129, 170, 227, 130, 178, 227, 131, 188, 227, 131, 160]"

definition GetGameNameByTypeID :: "int \<Rightarrow> ('z dbworld_scheme, string sqlres) prog" where
  "GetGameNameByTypeID gameTypeID = bindp
     (sql (\<lambda>d. (first_row (map gt_name (filter (\<lambda>g. gt_id g = gameTypeID) (d_game_types d))), d)))
     (\<lambda>r. Ret (case r of Inl ErrNoRows \<Rightarrow> Inr unknown_game | Inl e \<Rightarrow> Inl e
                       | Inr name \<Rightarrow> Inr name))"

record PlayerGameInfo =
  pg_UserID :: int
  pg_UserName :: string
  pg_Chip :: int
  pg_Bet :: int
  pg_IsDealer :: bool

definition players_for_game :: "int \<Rightarrow> database \<Rightarrow> PlayerGameInfo list" where
  "players_for_game roomID d =
     [\<lparr>pg_UserID = u_id u, pg_UserName = u_name u, pg_Chip = pl_chip p, pg_Bet = pl_bet p,
       pg_IsDealer = pl_is_dealer p\<rparr>.
      p \<leftarrow> d_players d, u \<leftarrow> d_users d, pl_user p = u_id u, pl_room p = roomID]"

definition GetPlayersForGame :: "int \<Rightarrow> ('z dbworld_scheme, PlayerGameInfo list sqlres) prog" where
  "GetPlayersForGame roomID = sql (\<lambda>d. (Inr (players_for_game roomID d), d))"

section \<open>Placeholders (models/user.go, models/db.go)\<close>

text \<open>What they write; no route leads to them.\<close>

definition GetUserData :: "request \<Rightarrow> ('w, string) prog" where
  "GetUserData r = Ret ''User data placeholder''"

definition GetdbData :: "request \<Rightarrow> ('w, string) prog" where
  "GetdbData r = Ret ''User data placeholder''"

end
