(* ===== verification/Membership.thy ===== *)
theory Membership
  imports Models
begin

text \<open>
  The contract between the lobby handlers and the \<open>room_users\<close> table. The locale
  \<open>room_membership\<close> lists the operations the handlers call on the members of a room and what
  they rely on; the lemmas about capacity and host hand-over are proved from it once. It is
  interpreted on the statements of \<open>Models\<close>, under the structural invariant \<open>ids_ok\<close> of the
  tables. \<open>lobby_ok\<close> is the invariant of the rooms themselves.
\<close>

section \<open>The interface\<close>

locale room_membership =
  fixes mem :: "int \<Rightarrow> 'd \<Rightarrow> int list"
    and add :: "int \<Rightarrow> int \<Rightarrow> 'd \<Rightarrow> 'd"
    and del :: "int \<Rightarrow> int \<Rightarrow> 'd \<Rightarrow> 'd"
    and pick :: "int \<Rightarrow> 'd \<Rightarrow> int option"
    and ok :: "'d \<Rightarrow> bool"
  assumes mem_add: "mem q (add r u d) = (if q = r then mem r d @ [u] else mem q d)"
    and mem_del: "mem q (del r u d) = (if q = r then filter (\<lambda>x. x \<noteq> u) (mem r d) else mem q d)"
    and pick_first: "ok d \<Longrightarrow> pick r d = (case mem r d of [] \<Rightarrow> None | u # _ \<Rightarrow> Some u)"
    and mem_distinct: "ok d \<Longrightarrow> distinct (mem r d)"
    and ok_add: "ok d \<Longrightarrow> u \<notin> set (mem r d) \<Longrightarrow> ok (add r u d)"
    and ok_del: "ok d \<Longrightarrow> ok (del r u d)"
begin

lemma add_capacity: "length (mem r d) < n \<Longrightarrow> length (mem r (add r u d)) \<le> n"
  by (simp add: mem_add)

lemma add_keeps: "v \<in> set (mem q d) \<Longrightarrow> v \<in> set (mem q (add r u d))"
  by (auto simp: mem_add)

lemma add_not_empty: "mem r (add r u d) \<noteq> []"
  by (simp add: mem_add)

lemma del_length: "length (mem q (del r u d)) \<le> length (mem q d)"
  by (simp add: mem_del)

lemma del_others: "v \<in> set (mem q d) \<Longrightarrow> v \<noteq> u \<or> q \<noteq> r \<Longrightarrow> v \<in> set (mem q (del r u d))"
  by (auto simp: mem_del)

lemma del_gone: "u \<notin> set (mem r (del r u d))"
  by (simp add: mem_del)

text \<open>After a departure the next owner is a member who stays, if anybody stays.\<close>

lemma hand_over:
  assumes "ok d" "mem r (del r u d) \<noteq> []"
  obtains v where "pick r (del r u d) = Some v" "v \<in> set (mem r (del r u d))" "v \<noteq> u" "v \<in> set (mem r d)"
proof -
  from assms(2) obtain v vs where v: "mem r (del r u d) = v # vs" by (cases "mem r (del r u d)") auto
  with pick_first [OF ok_del [OF assms(1)], of r r u] have "pick r (del r u d) = Some v" by simp
  moreover from v have "v \<in> set (filter (\<lambda>x. x \<noteq> u) (mem r d))"
    by (metis list.set_intros(1) mem_del)
  ultimately show ?thesis using that v by auto
qed

lemma hand_over_unless_empty: "ok d \<Longrightarrow> pick r d = None \<longleftrightarrow> mem r d = []"
  by (simp add: pick_first split: list.split)

lemma leave_join: "ok d \<Longrightarrow> u \<notin> set (mem r d) \<Longrightarrow> mem r (del r u (add r u d)) = mem r d"
  by (auto simp: mem_add mem_del filter_id_conv)

end

section \<open>The tables\<close>

definition ids_ok :: "database \<Rightarrow> bool" where
  "ids_ok d \<longleftrightarrow>
     distinct (map rm_id (d_rooms d)) \<and>
     (\<forall>r \<in> set (d_rooms d). rm_id r < d_next_room d) \<and>
     sorted_wrt (<) (map ru_id (d_room_users d)) \<and>
     (\<forall>ru \<in> set (d_room_users d). ru_id ru < d_next_ru d) \<and>
     distinct (map (\<lambda>ru. (ru_room ru, ru_user ru)) (d_room_users d))"

lemma ids_okI:
  assumes "distinct (map rm_id (d_rooms d))" "\<And>r. r \<in> set (d_rooms d) \<Longrightarrow> rm_id r < d_next_room d"
    "sorted_wrt (<) (map ru_id (d_room_users d))"
    "\<And>ru. ru \<in> set (d_room_users d) \<Longrightarrow> ru_id ru < d_next_ru d"
    "distinct (map (\<lambda>ru. (ru_room ru, ru_user ru)) (d_room_users d))"
  shows "ids_ok d"
  using assms by (simp add: ids_ok_def)

lemma frame_add [db_simps]:
  "d_rooms (add_member r u b d) = d_rooms d" "d_next_room (add_member r u b d) = d_next_room d"
  "d_next_user (add_member r u b d) = d_next_user d" "d_next_game (add_member r u b d) = d_next_game d"
  "d_next_ru (add_member r u b d) = d_next_ru d + 1"
  by (simp_all add: add_member_def)

lemma frame_set_ready [db_simps]:
  "d_rooms (set_ready r u b d) = d_rooms d" "d_next_room (set_ready r u b d) = d_next_room d"
  "d_next_user (set_ready r u b d) = d_next_user d" "d_next_game (set_ready r u b d) = d_next_game d"
  "d_next_ru (set_ready r u b d) = d_next_ru d"
  by (simp_all add: set_ready_def)

lemma frame_remove [db_simps]:
  "d_rooms (remove_member r u d) = d_rooms d" "d_next_room (remove_member r u d) = d_next_room d"
  "d_next_user (remove_member r u d) = d_next_user d" "d_next_game (remove_member r u d) = d_next_game d"
  "d_next_ru (remove_member r u d) = d_next_ru d"
  by (simp_all add: remove_member_def)

lemma frame_status [db_simps]:
  "d_room_users (set_room_status r s d) = d_room_users d"
  "d_next_room (set_room_status r s d) = d_next_room d"
  "d_next_user (set_room_status r s d) = d_next_user d" "d_next_game (set_room_status r s d) = d_next_game d"
  "d_next_ru (set_room_status r s d) = d_next_ru d"
  by (simp_all add: set_room_status_def)

lemma frame_owner [db_simps]:
  "d_room_users (set_room_owner r u d) = d_room_users d"
  "d_next_room (set_room_owner r u d) = d_next_room d"
  "d_next_user (set_room_owner r u d) = d_next_user d" "d_next_game (set_room_owner r u d) = d_next_game d"
  "d_next_ru (set_room_owner r u d) = d_next_ru d"
  by (simp_all add: set_room_owner_def)

lemma ids_status: "map rm_id (d_rooms (set_room_status r s d)) = map rm_id (d_rooms d)"
  by (simp add: set_room_status_def)

lemma ids_owner: "map rm_id (d_rooms (set_room_owner r u d)) = map rm_id (d_rooms d)"
  by (simp add: set_room_owner_def)

lemma rooms_status [db_simps]:
  "rm_id ` set (d_rooms (set_room_status r s d)) = rm_id ` set (d_rooms d)"
  using arg_cong [OF ids_status, of set] by simp

lemma rooms_owner [db_simps]:
  "rm_id ` set (d_rooms (set_room_owner r u d)) = rm_id ` set (d_rooms d)"
  using arg_cong [OF ids_owner, of set] by simp

lemma members_add [db_simps]:
  "members q (add_member r u b d) = (if q = r then members r d @ [u] else members q d)"
  by (simp add: members_def add_member_def)

lemma members_remove [db_simps]:
  "members q (remove_member r u d) =
     (if q = r then filter (\<lambda>x. x \<noteq> u) (members r d) else members q d)"
  by (auto simp: members_def remove_member_def filter_map o_def intro!: arg_cong [where f = "map ru_user"] filter_cong)

lemma members_set_ready [db_simps]: "members q (set_ready r u b d) = members q d"
proof -
  have "map ru_user (filter (\<lambda>ru. ru_room ru = q) (map (\<lambda>ru.
      if ru_room ru = r \<and> ru_user ru = u then ru\<lparr>ru_ready := b\<rparr> else ru) xs)) =
    map ru_user (filter (\<lambda>ru. ru_room ru = q) xs)" for xs :: "room_user list"
    by (induction xs) auto
  then show ?thesis by (simp add: members_def set_ready_def)
qed

lemma members_status [db_simps]: "members q (set_room_status r s d) = members q d"
  by (simp add: members_def set_room_status_def)

lemma members_owner [db_simps]: "members q (set_room_owner r u d) = members q d"
  by (simp add: members_def set_room_owner_def)

lemma members_distinct:
  assumes "ids_ok d"
  shows "distinct (members r d)"
proof -
  let ?xs = "filter (\<lambda>ru. ru_room ru = r) (d_room_users d)"
  from assms have "distinct (map (\<lambda>ru. (ru_room ru, ru_user ru)) ?xs)"
    by (simp add: ids_ok_def distinct_map_filter)
  then show ?thesis by (auto simp: members_def distinct_map inj_on_def)
qed

text \<open>The rows are in the order of their entry ids, so the oldest entry is the first one.\<close>

lemma next_owner_first:
  assumes "ids_ok d"
  shows "next_owner r d = (case members r d of [] \<Rightarrow> None | u # _ \<Rightarrow> Some u)"
proof -
  let ?xs = "filter (\<lambda>ru. ru_room ru = r) (d_room_users d)"
  from assms have "sorted_wrt (\<lambda>x y. ru_id x < ru_id y) (d_room_users d)"
    by (simp add: ids_ok_def sorted_wrt_map)
  then have "sorted_wrt (\<lambda>x y. ru_id x < ru_id y) ?xs" by (rule sorted_wrt_filter)
  then have "sorted (map ru_id ?xs)"
    unfolding sorted_wrt_map by (rule sorted_wrt_mono_rel [rotated]) simp
  then have "sort_key ru_id ?xs = ?xs" by (rule sort_key_id_if_sorted)
  then show ?thesis by (simp add: next_owner_def members_def split: list.splits)
qed

lemma ids_ok_add:
  assumes "ids_ok d" "u \<notin> set (members r d)"
  shows "ids_ok (add_member r u b d)"
proof (rule ids_okI)
  show "distinct (map (\<lambda>ru. (ru_room ru, ru_user ru)) (d_room_users (add_member r u b d)))"
    using assms by (auto simp: ids_ok_def add_member_def members_def)
qed (use assms in \<open>force simp: ids_ok_def add_member_def sorted_wrt_append\<close>)+

lemma ids_ok_remove: "ids_ok d \<Longrightarrow> ids_ok (remove_member r u d)"
proof (rule ids_okI)
  assume d: "ids_ok d"
  then have "sorted_wrt (\<lambda>x y. ru_id x < ru_id y) (d_room_users d)"
    by (simp add: ids_ok_def sorted_wrt_map)
  then show "sorted_wrt (<) (map ru_id (d_room_users (remove_member r u d)))"
    by (simp add: remove_member_def sorted_wrt_map sorted_wrt_filter)
  from d show "distinct (map (\<lambda>ru. (ru_room ru, ru_user ru)) (d_room_users (remove_member r u d)))"
    by (simp add: ids_ok_def remove_member_def distinct_map_filter)
qed (auto simp: ids_ok_def remove_member_def)

lemma ids_ok_set_ready: "ids_ok d \<Longrightarrow> ids_ok (set_ready r u b d)"
proof -
  let ?f = "\<lambda>ru. if ru_room ru = r \<and> ru_user ru = u then ru\<lparr>ru_ready := b\<rparr> else ru"
  have "map ru_id (map ?f xs) = map ru_id xs"
    "map (\<lambda>ru. (ru_room ru, ru_user ru)) (map ?f xs) = map (\<lambda>ru. (ru_room ru, ru_user ru)) xs"
    for xs :: "room_user list"
    by (induction xs) auto
  then show "ids_ok d \<Longrightarrow> ids_ok (set_ready r u b d)"
    by (auto simp: ids_ok_def set_ready_def simp del: map_map)
qed

lemma ids_ok_status: "ids_ok d \<Longrightarrow> ids_ok (set_room_status r s d)"
  using ids_status [of r s d] by (auto simp: ids_ok_def set_room_status_def simp del: map_map)

lemma ids_ok_owner: "ids_ok d \<Longrightarrow> ids_ok (set_room_owner r u d)"
  using ids_owner [of r u d] by (auto simp: ids_ok_def set_room_owner_def simp del: map_map)

interpretation tables: room_membership members "\<lambda>r u. add_member r u False" remove_member next_owner ids_ok
  by unfold_locales
    (simp_all add: db_simps next_owner_first members_distinct ids_ok_add ids_ok_remove)

end
