(* ===== verification/Conns.thy ===== *)
theory Conns
  imports Models
begin

text \<open>
  WebSocket connections: the table \<open>roomConnections\<close> of room_websocket.go (room code to
  connection to user), the messages of the server, and the broadcasts to a room. A connection
  is a number (the identity of the \<open>*websocket.Conn\<close>); \<open>w_sent\<close> lists what was written, oldest
  first; a write fails on a connection the server closed (\<open>w_closed\<close>) or the network broke
  (\<open>w_broken\<close>). A section under \<open>roomConnMu\<close>, a statement and a write to one connection are
  one step each, as other goroutines may run in between.
\<close>

section \<open>Messages\<close>

record PlayerInfo =
  pi_UserID :: int
  pi_Name :: string
  pi_IsReady :: bool
  pi_IsHost :: bool
  pi_IsDealer :: bool

record RoomStatusResponse =
  rs_Type :: string
  rs_RoomCode :: string
  rs_Players :: "PlayerInfo list"
  rs_MaxPlayers :: int

record AllReadyResponse =
  ar_Type :: string
  ar_RoomCode :: string
  ar_AllReady :: bool

record StartGameBroadcast =
  sg_Type :: string
  sg_RoomCode :: string
  sg_GameID :: int

text \<open>A player of a Blackjack table and the broadcast of the bets (game_tip.go).\<close>

record BJBetPlayerState =
  bp_UserID :: int
  bp_Name :: string
  bp_Bet :: i64
  bp_Confirmed :: bool
  bp_TotalChips :: i64

record BetStateBroadcast =
  bs_Type :: string
  bs_RoomCode :: string
  bs_Players :: "BJBetPlayerState list"
  bs_AllConfirmed :: bool

record PlayerOrderMessage =
  po_Type :: string
  po_Players :: "PlayerInfo list"

record TimerMessage =
  tm_Type :: string
  tm_Remaining :: f64

datatype ws_msg =
    RoomStatus RoomStatusResponse
  | AllReady AllReadyResponse
  | StartGame StartGameBroadcast
  | BetState BetStateBroadcast
  | PlayerOrder PlayerOrderMessage
  | TimerMsg TimerMessage

section \<open>Connections\<close>

type_synonym conn = nat

record networld = dbworld +
  w_roomConns :: "(string, (conn, int) gomap) gomap"
  w_sent :: "(conn \<times> ws_msg) list"
  w_closed :: "conn list"
  w_broken :: "conn list"

text \<open>\<open>conn.WriteJSON\<close>, \<open>True\<close> when it returned no error.\<close>

definition WriteJSON :: "conn \<Rightarrow> ws_msg \<Rightarrow> ('z networld_scheme, bool) prog" where
  "WriteJSON c m = atomic (\<lambda>w.
     if c \<in> set (w_closed w) \<or> c \<in> set (w_broken w) then (False, w)
     else (True, w\<lparr>w_sent := w_sent w @ [(c, m)]\<rparr>))"

definition close_conn :: "conn \<Rightarrow> 'z networld_scheme \<Rightarrow> 'z networld_scheme" where
  "close_conn c w = w\<lparr>w_closed := c # w_closed w\<rparr>"

definition snapshot_room :: "string \<Rightarrow> ('z networld_scheme, (conn \<times> int) list) prog" where
  "snapshot_room roomCode = atomic (\<lambda>w. (gm_sub (w_roomConns w) roomCode, w))"

text \<open>
  The section that drops the connections a broadcast could not write to: \<open>delete\<close> and
  \<open>Close\<close> for each. It is not entered when there is none.
\<close>

fun drop_conns :: "string \<Rightarrow> conn list \<Rightarrow> 'z networld_scheme \<Rightarrow> 'z networld_scheme" where
  "drop_conns roomCode [] w = w"
| "drop_conns roomCode (c # cs) w =
     drop_conns roomCode cs (close_conn c (w\<lparr>w_roomConns := gm_sub_del roomCode c (w_roomConns w)\<rparr>))"

definition drop_failed :: "string \<Rightarrow> conn list \<Rightarrow> ('z networld_scheme, unit) prog" where
  "drop_failed roomCode toDelete =
     (if toDelete = [] then Ret () else atomic (\<lambda>w. ((), drop_conns roomCode toDelete w)))"

section \<open>broadcastRoomStatus\<close>

definition player_info :: "RoomUser \<Rightarrow> PlayerInfo" where
  "player_info u = \<lparr>pi_UserID = us_UserID u, pi_Name = us_UserName u, pi_IsReady = us_IsReady u,
     pi_IsHost = us_IsHost u, pi_IsDealer = False\<rparr>"

text \<open>The loop over the users: the players, whether all are ready, the host (the last one marked).\<close>

fun scan_users :: "RoomUser list \<Rightarrow> PlayerInfo list \<times> bool \<times> int \<Rightarrow> PlayerInfo list \<times> bool \<times> int" where
  "scan_users [] acc = acc"
| "scan_users (u # us) (players, allReady, hostUserID) =
     scan_users us (players @ [player_info u],
       (if \<not> us_IsReady u then False else allReady),
       (if us_IsHost u then us_UserID u else hostUserID))"

definition all_ready_msg :: "string \<Rightarrow> ws_msg" where
  "all_ready_msg roomCode = AllReady \<lparr>ar_Type = ''all_ready'', ar_RoomCode = roomCode, ar_AllReady = True\<rparr>"

text \<open>The loop over the snapshot; the result lists the connections to drop.\<close>

fun send_status :: "string \<Rightarrow> ws_msg \<Rightarrow> bool \<Rightarrow> int \<Rightarrow> (conn \<times> int) list \<Rightarrow> conn list \<Rightarrow>
    ('z networld_scheme, conn list) prog" where
  "send_status roomCode statusMsg allReady host [] toDelete = Ret toDelete"
| "send_status roomCode statusMsg allReady host ((c, uid) # items) toDelete =
     bindp (WriteJSON c statusMsg) (\<lambda>ok.
       if \<not> ok then send_status roomCode statusMsg allReady host items (toDelete @ [c])
       else if allReady \<and> uid = host then
         bindp (WriteJSON c (all_ready_msg roomCode)) (\<lambda>ok'.
           send_status roomCode statusMsg allReady host items
             (if ok' then toDelete else toDelete @ [c]))
       else send_status roomCode statusMsg allReady host items toDelete)"

definition broadcastRoomStatus :: "string \<Rightarrow> ('z networld_scheme, unit) prog" where
  "broadcastRoomStatus roomCode =
     bindp (snapshot_room roomCode) (\<lambda>snapshot.
       if snapshot = [] then Ret () else
       bindp (GetRoomByCode roomCode) (\<lambda>res. case res of Inl e \<Rightarrow> Ret () | Inr room \<Rightarrow>
       bindp (GetUsersInRoom (rm_id room)) (\<lambda>res. case res of Inl e \<Rightarrow> Ret () | Inr users \<Rightarrow>
         case scan_users users ([], True, 0) of (players, allReady, hostUserID) \<Rightarrow>
         bindp (send_status roomCode
            (RoomStatus \<lparr>rs_Type = ''room_status'', rs_RoomCode = roomCode, rs_Players = players,
               rs_MaxPlayers = rm_max room\<rparr>) allReady hostUserID snapshot [])
           (drop_failed roomCode))))"

section \<open>closeUserConnections\<close>

fun close_user_loop :: "int \<Rightarrow> (conn \<times> int) list \<Rightarrow> (conn, int) gomap \<Rightarrow> conn list \<Rightarrow>
    (conn, int) gomap \<times> conn list" where
  "close_user_loop userID [] connMap closed = (connMap, closed)"
| "close_user_loop userID ((c, uid) # items) connMap closed =
     (if uid = userID then close_user_loop userID items (gm_del c connMap) (c # closed)
      else close_user_loop userID items connMap closed)"

definition closeUserConnections :: "string \<Rightarrow> int \<Rightarrow> ('z networld_scheme, unit) prog" where
  "closeUserConnections roomCode userID = atomic (\<lambda>w.
     case gm_get (w_roomConns w) roomCode of
       None \<Rightarrow> ((), w)
     | Some connMap \<Rightarrow>
         (case close_user_loop userID connMap connMap (w_closed w) of (connMap', closed') \<Rightarrow>
            ((), w\<lparr>w_closed := closed',
                   w_roomConns := (if connMap' = [] then gm_del roomCode (w_roomConns w)
                                   else gm_put roomCode connMap' (w_roomConns w))\<rparr>)))"

section \<open>broadcastStartGame\<close>

fun send_start :: "ws_msg \<Rightarrow> (conn \<times> int) list \<Rightarrow> conn list \<Rightarrow> ('z networld_scheme, conn list) prog" where
  "send_start msg [] toDelete = Ret toDelete"
| "send_start msg ((c, uid) # items) toDelete =
     bindp (WriteJSON c msg) (\<lambda>ok. send_start msg items (if ok then toDelete else toDelete @ [c]))"

definition broadcastStartGame :: "string \<Rightarrow> int \<Rightarrow> ('z networld_scheme, unit) prog" where
  "broadcastStartGame roomCode gameID =
     bindp (snapshot_room roomCode) (\<lambda>snapshot.
       if snapshot = [] then Ret () else
       bindp (send_start (StartGame \<lparr>sg_Type = ''start_game'', sg_RoomCode = roomCode,
                sg_GameID = gameID\<rparr>) snapshot [])
         (drop_failed roomCode))"

end
