(* ===== verification/Rooms.thy ===== *)
theory Rooms
  imports Conns
begin

text \<open>
  The handlers of the lobby: create (room_create.go), join (room_join.go), leave
  (room_leave.go), start (room_start.go), ready (room_ready.go) and room status
  (room_info.go), with the generator of room codes (utils.go). A handler reads the request
  and is a program that ends with the response.
\<close>

definition reply_error :: "string \<Rightarrow> nat \<Rightarrow> ('w, 'b response) prog" where
  "reply_error msg code = Ret (HttpError msg code)"

text \<open>
  \<open>rand.Intn(n)\<close>, from an arbitrary draw of the generator. \<open>raw i\<close> is the draw of the i-th
  call.
\<close>

definition Intn :: "nat \<Rightarrow> nat \<Rightarrow> nat" where
  "Intn raw n = raw mod n"

definition roomCodeCharset :: string where
  "roomCodeCharset = ''0123456789''"

definition GenerateRoomCode :: "(nat \<Rightarrow> nat) \<Rightarrow> string" where
  "GenerateRoomCode raw =
     map (\<lambda>i. roomCodeCharset ! Intn (raw i) (length roomCodeCharset)) [0..<6]"

section \<open>CreateRoomHandler\<close>

record CreateRoomRequest =
  crq_GameTypeID :: int
  crq_MaxPlayers :: int

record CreateRoomResponse =
  crs_Result :: string
  crs_RoomCode :: string
  crs_UserID :: int
  crs_GameName :: string

definition create_room_fields :: "CreateRoomRequest fields" where
  "create_room_fields =
     [(''game_type_id'', dec_int (\<lambda>n r. r\<lparr>crq_GameTypeID := n\<rparr>)),
      (''max_players'', dec_int (\<lambda>n r. r\<lparr>crq_MaxPlayers := n\<rparr>))]"

definition game_type_name :: "int \<Rightarrow> database \<Rightarrow> string sqlres" where
  "game_type_name gid d = first_row (map gt_name (filter (\<lambda>g. gt_id g = gid) (d_game_types d)))"

text \<open>The transaction: \<open>None\<close> when it was committed, else the error response.\<close>

definition create_room_tx :: "string \<Rightarrow> CreateRoomRequest \<Rightarrow> int \<Rightarrow> int \<Rightarrow>
    ('z dbworld_scheme, bool \<times> (string \<times> nat) option) prog" where
  "create_room_tx roomCode req userID now =
     bindp tx_begin (\<lambda>res. case res of
       Inl e \<Rightarrow> Ret (False, Some (''DB error'', StatusInternalServerError)) | Inr _ \<Rightarrow>
     bindp (sql (\<lambda>d. (Inr (d_next_room d),
        insert_room roomCode (crq_GameTypeID req) (crq_MaxPlayers req) userID ''waiting'' now d)))
       (\<lambda>res. case res of
       Inl e \<Rightarrow> Ret (False, Some (''DB Insert Error'', StatusInternalServerError)) | Inr roomID \<Rightarrow>
     bindp (AddUserToRoomAsHost roomID userID False) (\<lambda>res. case res of
       Inl e \<Rightarrow> Ret (False, Some (''DB Insert Error'', StatusInternalServerError)) | Inr _ \<Rightarrow>
     bindp tx_commit (\<lambda>res. case res of
       Inl e \<Rightarrow> Ret (False, Some (''DB error'', StatusInternalServerError)) | Inr _ \<Rightarrow>
     Ret (True, None)))))"

definition time_now :: "('z dbworld_scheme, int) prog" where
  "time_now = atomic (\<lambda>w. (w_clock w, w))"

definition CreateRoomHandler ::
    "(nat \<Rightarrow> nat) \<Rightarrow> request \<Rightarrow> ('z dbworld_scheme, CreateRoomResponse response) prog" where
  "CreateRoomHandler raw r =
     (let userID = GetUserID r in
      if userID = 0 then reply_error ''Unauthorized'' StatusUnauthorized else
      case decode_body create_room_fields \<lparr>crq_GameTypeID = 0, crq_MaxPlayers = 0\<rparr> (rq_json r) of
        None \<Rightarrow> reply_error ''Bad Request'' StatusBadRequest
      | Some req0 \<Rightarrow>
      let req = (if crq_MaxPlayers req0 \<le> 0 then req0\<lparr>crq_MaxPlayers := 4\<rparr> else req0);
          roomCode = GenerateRoomCode raw in
      bindp time_now (\<lambda>now.
      bindp (sql (\<lambda>d. (game_type_name (crq_GameTypeID req) d, d))) (\<lambda>res. case res of
        Inl e \<Rightarrow> reply_error ''Invalid game_type_id'' StatusBadRequest | Inr gameName \<Rightarrow>
      bindp (transaction (create_room_tx roomCode req userID now)) (\<lambda>failed. case failed of
        Some (msg, code) \<Rightarrow> reply_error msg code | None \<Rightarrow>
      Ret (Json \<lparr>crs_Result = ''OK'', crs_RoomCode = roomCode, crs_UserID = userID,
             crs_GameName = gameName\<rparr>)))))"

section \<open>JoinRoomHandler\<close>

text \<open>\<open>JoinRoomRequest\<close>, \<open>LeaveRoomRequest\<close> and \<open>StartRequest\<close> hold the room code alone.\<close>

definition room_code_fields :: "string fields" where
  "room_code_fields = [(''room_code'', dec_string (\<lambda>s _. s))]"

definition decode_room_code :: "request \<Rightarrow> string option" where
  "decode_room_code r = (case decode_body room_code_fields [] (rq_json r) of
     None \<Rightarrow> None | Some code \<Rightarrow> if code = [] then None else Some code)"

record JoinRoomResponse =
  jr_Result :: string
  jr_RoomID :: int
  jr_RoomCode :: string
  jr_UserID :: int
  jr_GameName :: string

definition room_game_name :: "int \<Rightarrow> database \<Rightarrow> string sqlres" where
  "room_game_name roomID d = first_row
     [gt_name gt. gt \<leftarrow> d_game_types d, r \<leftarrow> d_rooms d, rm_game_type r = gt_id gt, rm_id r = roomID]"

definition join_response :: "Room \<Rightarrow> int \<Rightarrow> string \<Rightarrow> JoinRoomResponse" where
  "join_response room userID gameName = \<lparr>jr_Result = ''OK'', jr_RoomID = rm_id room,
     jr_RoomCode = rm_code room, jr_UserID = userID, jr_GameName = gameName\<rparr>"

definition JoinRoomHandler :: "request \<Rightarrow> ('z networld_scheme, JoinRoomResponse response) prog" where
  "JoinRoomHandler r =
     (let userID = GetUserID r in
      if userID = 0 then reply_error ''Unauthorized'' StatusUnauthorized else
      case decode_room_code r of
        None \<Rightarrow> reply_error ''Invalid request'' StatusBadRequest
      | Some reqCode \<Rightarrow>
      bindp (GetRoomByCode reqCode) (\<lambda>res. case res of
        Inl e \<Rightarrow> reply_error ''Room not found'' StatusNotFound | Inr room \<Rightarrow>
      if rm_status room \<noteq> ''waiting'' then reply_error ''Room not accepting joins'' StatusForbidden else
      bindp (IsUserInRoom (rm_id room) userID) (\<lambda>res. case res of
        Inl e \<Rightarrow> reply_error ''DB error'' StatusInternalServerError | Inr inRoom \<Rightarrow>
      if inRoom then
        bindp (sql (\<lambda>d. (room_game_name (rm_id room) d, d))) (\<lambda>res. case res of
          Inl e \<Rightarrow> reply_error ''Lookup error'' StatusInternalServerError
        | Inr gameName \<Rightarrow> Ret (Json (join_response room userID gameName)))
      else
      bindp (CountUsersInRoom (rm_id room)) (\<lambda>res. case res of
        Inl e \<Rightarrow> reply_error ''DB error'' StatusInternalServerError | Inr count \<Rightarrow>
      if rm_max room \<le> int count then reply_error ''Room full'' StatusForbidden else
      bindp (AddUserToRoom (rm_id room) userID) (\<lambda>res. case res of
        Inl e \<Rightarrow> reply_error ''DB error'' StatusInternalServerError | Inr _ \<Rightarrow>
      bindp (sql (\<lambda>d. (room_game_name (rm_id room) d, d))) (\<lambda>res. case res of
        Inl e \<Rightarrow> reply_error ''Lookup error'' StatusInternalServerError | Inr gameName \<Rightarrow>
      bindp (broadcastRoomStatus (rm_code room)) (\<lambda>_.
      Ret (Json (join_response room userID gameName)))))))))"

section \<open>LeaveRoomHandler\<close>

record LeaveRoomResponse =
  lr_Result :: string
  lr_RoomCode :: string
  lr_HostChanged :: bool
  lr_NewHostUserID :: int
  lr_RoomBecameZero :: bool

definition leave_tx :: "Room \<Rightarrow> int \<Rightarrow>
    ('z dbworld_scheme, bool \<times> ((string \<times> nat) + LeaveRoomResponse)) prog" where
  "leave_tx room userID =
     bindp tx_begin (\<lambda>res. case res of
       Inl e \<Rightarrow> Ret (False, Inl (''DB error'', StatusInternalServerError)) | Inr _ \<Rightarrow>
     bindp (RemoveUserFromRoomTx (rm_id room) userID) (\<lambda>res. case res of
       Inl e \<Rightarrow> Ret (False, Inl (''Leave failed'', StatusInternalServerError)) | Inr affected \<Rightarrow>
     if affected = 0 then Ret (False, Inl (''Leave failed'', StatusInternalServerError)) else
     bindp (CountUsersInRoomTx (rm_id room)) (\<lambda>res. case res of
       Inl e \<Rightarrow> Ret (False, Inl (''DB error'', StatusInternalServerError)) | Inr leftCount \<Rightarrow>
     let resp = \<lparr>lr_Result = ''OK'', lr_RoomCode = rm_code room, lr_HostChanged = False,
                  lr_NewHostUserID = 0, lr_RoomBecameZero = False\<rparr>;
         finish = (\<lambda>resp. bindp tx_commit (\<lambda>res. case res of
            Inl e \<Rightarrow> Ret (False, Inl (''DB error'', StatusInternalServerError))
          | Inr _ \<Rightarrow> Ret (True, Inr resp))) in
     if leftCount = 0 then
       bindp (UpdateRoomStatusTx (rm_id room) ''closed'') (\<lambda>res. case res of
         Inl e \<Rightarrow> Ret (False, Inl (''DB error'', StatusInternalServerError))
       | Inr _ \<Rightarrow> finish (resp\<lparr>lr_RoomBecameZero := True\<rparr>))
     else if userID = rm_owner room then
       bindp (PickNextOwnerTx (rm_id room)) (\<lambda>res. case res of
         Inl e \<Rightarrow> Ret (False, Inl (''DB error'', StatusInternalServerError))
       | Inr None \<Rightarrow> finish resp
       | Inr (Some newOwnerID) \<Rightarrow>
           bindp (SetRoomOwnerTx (rm_id room) newOwnerID) (\<lambda>res. case res of
             Inl e \<Rightarrow> Ret (False, Inl (''DB error'', StatusInternalServerError))
           | Inr _ \<Rightarrow> finish (resp\<lparr>lr_HostChanged := True, lr_NewHostUserID := newOwnerID\<rparr>)))
     else finish resp)))"

definition LeaveRoomHandler :: "request \<Rightarrow> ('z networld_scheme, LeaveRoomResponse response) prog" where
  "LeaveRoomHandler r =
     (let userID = GetUserID r in
      if userID = 0 then reply_error ''Unauthorized'' StatusUnauthorized else
      case decode_room_code r of
        None \<Rightarrow> reply_error ''Invalid request'' StatusBadRequest
      | Some reqCode \<Rightarrow>
      bindp (GetRoomByCode reqCode) (\<lambda>res. case res of
        Inl e \<Rightarrow> reply_error ''Room not found'' StatusNotFound | Inr room \<Rightarrow>
      bindp (IsUserInRoom (rm_id room) userID) (\<lambda>res. case res of
        Inl e \<Rightarrow> reply_error ''DB error'' StatusInternalServerError | Inr inRoom \<Rightarrow>
      if \<not> inRoom then reply_error ''Not in room'' StatusForbidden else
      bindp (transaction (leave_tx room userID)) (\<lambda>res. case res of
        Inl (msg, code) \<Rightarrow> reply_error msg code | Inr resp \<Rightarrow>
      bindp (closeUserConnections reqCode userID) (\<lambda>_.
      bindp (broadcastRoomStatus reqCode) (\<lambda>_.
      Ret (Json resp)))))))"

section \<open>StartRoomHandler\<close>

record StartResponse =
  sr_Result :: string
  sr_GameID :: int

definition err_text :: "sqlerr \<Rightarrow> string" where
  "err_text e = (case e of ErrNoRows \<Rightarrow> ''sql: no rows in result set'' | DbFault t \<Rightarrow> t)"

definition insert_game :: "int \<Rightarrow> int \<Rightarrow> database \<Rightarrow> database" where
  "insert_game mode type d = d\<lparr>
     d_games := d_games d @ [\<lparr>ga_id = d_next_game d, ga_mode = mode, ga_type = type\<rparr>],
     d_next_game := d_next_game d + 1\<rparr>"

definition start_tx :: "Room \<Rightarrow> ('z dbworld_scheme, bool \<times> ((string \<times> nat) + int)) prog" where
  "start_tx room =
     bindp tx_begin (\<lambda>res. case res of
       Inl e \<Rightarrow> Ret (False, Inl (''tx begin failed: '' @ err_text e, StatusInternalServerError)) | Inr _ \<Rightarrow>
     bindp (sql (\<lambda>d. (Inr (d_next_game d), insert_game 1 (rm_game_type room) d))) (\<lambda>res. case res of
       Inl e \<Rightarrow> Ret (False, Inl (''insert games failed: '' @ err_text e, StatusInternalServerError))
     | Inr gameID \<Rightarrow>
     bindp (sql (\<lambda>d. (Inr (), set_room_status (rm_id room) ''playing'' d))) (\<lambda>res. case res of
       Inl e \<Rightarrow> Ret (False, Inl (''update room status failed: '' @ err_text e, StatusInternalServerError))
     | Inr _ \<Rightarrow>
     bindp tx_commit (\<lambda>res. case res of
       Inl e \<Rightarrow> Ret (False, Inl (''tx commit failed: '' @ err_text e, StatusInternalServerError))
     | Inr _ \<Rightarrow> Ret (True, Inr gameID)))))"

text \<open>
  The handler's result pairs the response with the goroutine it starts: the arguments of
  \<open>go broadcastStartGame(...)\<close>.
\<close>

definition StartRoomHandler ::
    "request \<Rightarrow> ('z dbworld_scheme, StartResponse response \<times> (string \<times> int) option) prog" where
  "StartRoomHandler r =
     (let userID = GetUserID r; err = (\<lambda>msg code. Ret (HttpError msg code, None)) in
      if userID = 0 then err ''Unauthorized'' StatusUnauthorized else
      case decode_room_code r of
        None \<Rightarrow> err ''Invalid request'' StatusBadRequest
      | Some reqCode \<Rightarrow>
      bindp (GetRoomByCode reqCode) (\<lambda>res. case res of
        Inl e \<Rightarrow> err (''Room not found: '' @ err_text e) StatusNotFound | Inr room \<Rightarrow>
      if rm_owner room \<noteq> userID then err ''Only host can start'' StatusForbidden else
      bindp (CountUsersInRoom (rm_id room)) (\<lambda>res. case res of
        Inl e \<Rightarrow> err (''count users failed: '' @ err_text e) StatusInternalServerError | Inr userCount \<Rightarrow>
      bindp (CountReadyUsers (rm_id room)) (\<lambda>res. case res of
        Inl e \<Rightarrow> err (''count ready failed: '' @ err_text e) StatusInternalServerError | Inr readyCount \<Rightarrow>
      if userCount = 0 \<or> userCount \<noteq> readyCount then err ''Not all users are ready'' StatusForbidden else
      if rm_status room = ''playing'' then err ''Already playing'' StatusConflict else
      bindp (transaction (start_tx room)) (\<lambda>res. case res of
        Inl (msg, code) \<Rightarrow> err msg code
      | Inr gameID \<Rightarrow> Ret (Json \<lparr>sr_Result = ''OK'', sr_GameID = gameID\<rparr>, Some (reqCode, gameID)))))))"

section \<open>ReadyHandler and RoomStatusHandler\<close>

record ReadyRequest =
  rr_RoomCode :: string
  rr_IsReady :: bool

definition ready_fields :: "ReadyRequest fields" where
  "ready_fields =
     [(''room_code'', dec_string (\<lambda>s r. r\<lparr>rr_RoomCode := s\<rparr>)),
      (''is_ready'', dec_bool (\<lambda>b r. r\<lparr>rr_IsReady := b\<rparr>))]"

definition zero_ready :: ReadyRequest where
  "zero_ready = \<lparr>rr_RoomCode = [], rr_IsReady = False\<rparr>"

record ReadyResponse =
  rdy_Result :: string

definition ReadyHandler :: "request \<Rightarrow> ('z dbworld_scheme, ReadyResponse response) prog" where
  "ReadyHandler r =
     (let userID = GetUserID r in
      case decode_body ready_fields zero_ready (rq_json r) of
        None \<Rightarrow> reply_error ''Invalid request'' StatusBadRequest
      | Some req \<Rightarrow>
      bindp (GetRoomByCode (rr_RoomCode req)) (\<lambda>res. case res of
        Inl e \<Rightarrow> reply_error ''Room not found'' StatusNotFound | Inr room \<Rightarrow>
      bindp (UpdateUserReady (rm_id room) userID (rr_IsReady req)) (\<lambda>res. case res of
        Inl e \<Rightarrow> reply_error ''DB error'' StatusInternalServerError | Inr _ \<Rightarrow>
      Ret (Json \<lparr>rdy_Result = ''OK''\<rparr>))))"

definition RoomStatusHandler :: "request \<Rightarrow> ('z dbworld_scheme, RoomStatusResponse response) prog" where
  "RoomStatusHandler r =
     (let userID = GetUserID r in
      if userID = 0 then reply_error ''Unauthorized'' StatusUnauthorized else
      let roomCode = value_of (rq_query r) ''code'' in
      if roomCode = [] then reply_error ''Missing room code'' StatusBadRequest else
      bindp (GetRoomByCode roomCode) (\<lambda>res. case res of
        Inl e \<Rightarrow> reply_error ''Room not found'' StatusNotFound | Inr room \<Rightarrow>
      bindp (GetUsersInRoom (rm_id room)) (\<lambda>res. case res of
        Inl e \<Rightarrow> reply_error ''DB error'' StatusInternalServerError | Inr users \<Rightarrow>
      Ret (Json \<lparr>rs_Type = ''room_status'', rs_RoomCode = rm_code room,
             rs_Players = map player_info users, rs_MaxPlayers = 0\<rparr>))))"

end
