(* ===== verification/Lobby.thy ===== *)
theory Lobby
  imports Membership Rooms
begin

text \<open>
  What the lobby handlers keep of the tables. \<open>lobby_ok\<close>: a room is closed exactly when nobody
  is in it, its owner is one of its members, and it never holds more members than it allows.
  Every handler run on its own keeps it, whichever statements fail. (Interleaved joins do not
  keep the capacity; that is in \<open>Races\<close>.)
\<close>

definition room_ok :: "database \<Rightarrow> Room \<Rightarrow> bool" where
  "room_ok d r \<longleftrightarrow>
     rm_status r \<in> {''waiting'', ''playing'', ''closed''} \<and>
     (members (rm_id r) d = [] \<longleftrightarrow> rm_status r = ''closed'') \<and>
     (members (rm_id r) d \<noteq> [] \<longrightarrow> rm_owner r \<in> set (members (rm_id r) d)) \<and>
     int (length (members (rm_id r) d)) \<le> rm_max r"

definition lobby_ok :: "database \<Rightarrow> bool" where
  "lobby_ok d \<longleftrightarrow> ids_ok d \<and> (\<forall>r \<in> set (d_rooms d). room_ok d r) \<and>
     (\<forall>ru \<in> set (d_room_users d). ru_room ru \<in> rm_id ` set (d_rooms d))"

lemma lobby_okI:
  assumes "ids_ok d" "\<And>r. r \<in> set (d_rooms d) \<Longrightarrow> room_ok d r"
    "\<And>ru. ru \<in> set (d_room_users d) \<Longrightarrow> ru_room ru \<in> rm_id ` set (d_rooms d)"
  shows "lobby_ok d"
  using assms by (simp add: lobby_ok_def)

lemma lobby_okD:
  assumes "lobby_ok d"
  shows "ids_ok d" "r \<in> set (d_rooms d) \<Longrightarrow> room_ok d r"
    "ru \<in> set (d_room_users d) \<Longrightarrow> ru_room ru \<in> rm_id ` set (d_rooms d)"
  using assms by (auto simp: lobby_ok_def)

lemma room_id_inj:
  "ids_ok d \<Longrightarrow> r \<in> set (d_rooms d) \<Longrightarrow> s \<in> set (d_rooms d) \<Longrightarrow> rm_id r = rm_id s \<Longrightarrow> r = s"
  by (auto simp: ids_ok_def distinct_map inj_on_def)

section \<open>Writes that keep the invariant\<close>

lemma room_ok_cong:
  "members (rm_id r) e = members (rm_id r) d \<Longrightarrow> room_ok e r = room_ok d r"
  by (simp add: room_ok_def)

lemma lobby_ok_set_ready:
  assumes "lobby_ok d"
  shows "lobby_ok (set_ready q u b d)"
proof (rule lobby_okI)
  show "ids_ok (set_ready q u b d)" using assms by (simp add: lobby_ok_def ids_ok_set_ready)
  show "room_ok (set_ready q u b d) r" if "r \<in> set (d_rooms (set_ready q u b d))" for r
    using that assms by (simp add: room_ok_cong [OF members_set_ready] lobby_okD frame_set_ready)
  show "ru_room ru \<in> rm_id ` set (d_rooms (set_ready q u b d))"
    if "ru \<in> set (d_room_users (set_ready q u b d))" for ru
    using that lobby_okD(3) [OF assms] by (auto simp: set_ready_def split: if_splits)
qed

lemma lobby_ok_add:
  assumes d: "lobby_ok d" and r: "r \<in> set (d_rooms d)" and "rm_status r \<noteq> ''closed''"
    and u: "u \<notin> set (members (rm_id r) d)" and "int (length (members (rm_id r) d)) < rm_max r"
  shows "lobby_ok (add_member (rm_id r) u b d)"
proof (rule lobby_okI)
  show "ids_ok (add_member (rm_id r) u b d)" using d u by (simp add: lobby_ok_def ids_ok_add)
  show "room_ok (add_member (rm_id r) u b d) s" if "s \<in> set (d_rooms (add_member (rm_id r) u b d))" for s
  proof (cases "rm_id s = rm_id r")
    case True
    with that r d have "s = r" by (auto simp: db_simps dest: lobby_okD(1) room_id_inj)
    moreover have "room_ok d r" using d r by (rule lobby_okD)
    ultimately show ?thesis using assms by (auto simp: room_ok_def db_simps)
  next
    case False
    with that d show ?thesis
      by (simp add: room_ok_cong [of s "add_member (rm_id r) u b d" d] db_simps lobby_okD)
  qed
  show "ru_room ru \<in> rm_id ` set (d_rooms (add_member (rm_id r) u b d))"
    if "ru \<in> set (d_room_users (add_member (rm_id r) u b d))" for ru
    using that lobby_okD(3) [OF d] r by (auto simp: add_member_def)
qed

lemma lobby_ok_create:
  assumes d: "lobby_ok d" and "0 < maxp"
  shows "lobby_ok (add_member (d_next_room d) u b (insert_room code g maxp u ''waiting'' now d))"
    (is "lobby_ok (add_member _ _ _ ?e)")
proof -
  have fresh: "members (d_next_room d) ?e = []"
    using lobby_okD(1,3) [OF d] by (fastforce simp: members_def insert_room_def ids_ok_def filter_empty_conv)
  have ids: "ids_ok ?e"
    using lobby_okD(1) [OF d] by (force simp: ids_ok_def insert_room_def)
  show ?thesis
  proof (rule lobby_okI)
    show "ids_ok (add_member (d_next_room d) u b ?e)" using ids fresh by (simp add: ids_ok_add)
    show "room_ok (add_member (d_next_room d) u b ?e) s"
      if "s \<in> set (d_rooms (add_member (d_next_room d) u b ?e))" for s
    proof (cases "s \<in> set (d_rooms d)")
      case True
      with lobby_okD(1) [OF d] have "rm_id s \<noteq> d_next_room d" by (auto simp: ids_ok_def)
      then have "members (rm_id s) (add_member (d_next_room d) u b ?e) = members (rm_id s) d"
        by (simp add: db_simps) (simp add: members_def insert_room_def)
      with True d show ?thesis
        by (simp add: room_ok_cong [of s "add_member (d_next_room d) u b ?e" d] lobby_okD)
    next
      case False
      with that have "rm_id s = d_next_room d" "rm_status s = ''waiting''" "rm_owner s = u" "rm_max s = maxp"
        by (auto simp: add_member_def insert_room_def)
      with fresh assms(2) show ?thesis by (simp add: room_ok_def db_simps)
    qed
    show "ru_room ru \<in> rm_id ` set (d_rooms (add_member (d_next_room d) u b ?e))"
      if "ru \<in> set (d_room_users (add_member (d_next_room d) u b ?e))" for ru
      using that lobby_okD(3) [OF d] by (auto simp: add_member_def insert_room_def)
  qed
qed

text \<open>
  A departure, by what becomes of the room: nobody stays and it is closed; the owner leaves
  and the next one is a member who stays; somebody else leaves.
\<close>

definition leave_db :: "Room \<Rightarrow> int \<Rightarrow> database \<Rightarrow> database" where
  "leave_db room u d = (let e = remove_member (rm_id room) u d in
     if members (rm_id room) e = [] then set_room_status (rm_id room) ''closed'' e
     else if u = rm_owner room
       then (case next_owner (rm_id room) e of None \<Rightarrow> e | Some v \<Rightarrow> set_room_owner (rm_id room) v e)
     else e)"

lemma d_rooms_leave:
  "rm_id ` set (d_rooms (leave_db room u d)) = rm_id ` set (d_rooms d)"
  by (simp add: leave_db_def Let_def db_simps split: option.split)

lemma room_users_leave: "d_room_users (leave_db room u d) = d_room_users (remove_member (rm_id room) u d)"
  by (simp add: leave_db_def Let_def db_simps split: option.split)

lemma members_leave: "members q (leave_db room u d) = members q (remove_member (rm_id room) u d)"
  by (simp add: members_def room_users_leave)

lemma leave_room_ok:
  assumes d: "ids_ok d" and room: "room_ok d room" and u: "u \<in> set (members (rm_id room) d)"
    and e: "e = remove_member (rm_id room) u d"
  shows "members (rm_id room) e = [] \<Longrightarrow> room_ok e (room\<lparr>rm_status := ''closed''\<rparr>)"
    and "members (rm_id room) e \<noteq> [] \<Longrightarrow> u \<noteq> rm_owner room \<Longrightarrow> room_ok e room"
    and "next_owner (rm_id room) e = Some v \<Longrightarrow> room_ok e (room\<lparr>rm_owner := v\<rparr>)"
proof -
  have le: "length (members (rm_id room) e) \<le> length (members (rm_id room) d)"
    unfolding e by (rule tables.del_length)
  from u have ne: "members (rm_id room) d \<noteq> []" by auto
  from room le ne show "members (rm_id room) e = [] \<Longrightarrow> room_ok e (room\<lparr>rm_status := ''closed''\<rparr>)"
    by (simp add: room_ok_def)
  show "members (rm_id room) e \<noteq> [] \<Longrightarrow> u \<noteq> rm_owner room \<Longrightarrow> room_ok e room"
    using room le ne e tables.del_others [of "rm_owner room" "rm_id room" d u]
    by (auto simp: room_ok_def)
  assume v: "next_owner (rm_id room) e = Some v"
  with e d have ne': "members (rm_id room) e \<noteq> []"
    using tables.hand_over_unless_empty [of e "rm_id room"] by (auto simp: ids_ok_remove)
  with v e d have "v \<in> set (members (rm_id room) e)"
    by (auto elim: tables.hand_over [OF d, of "rm_id room" u])
  with room le ne ne' show "room_ok e (room\<lparr>rm_owner := v\<rparr>)" by (auto simp: room_ok_def)
qed

lemma lobby_ok_leave:
  assumes d: "lobby_ok d" and room: "room \<in> set (d_rooms d)" and u: "u \<in> set (members (rm_id room) d)"
  shows "lobby_ok (leave_db room u d)"
proof (rule lobby_okI)
  let ?e = "remove_member (rm_id room) u d"
  have ids: "ids_ok ?e" using d by (simp add: lobby_okD ids_ok_remove)
  then show "ids_ok (leave_db room u d)"
    by (auto simp: leave_db_def Let_def ids_ok_status ids_ok_owner split: option.split)
  note ok = leave_room_ok [OF lobby_okD(1) [OF d] lobby_okD(2) [OF d room] u refl]
  have ex: "\<exists>v. next_owner (rm_id room) ?e = Some v" if "members (rm_id room) ?e \<noteq> []"
    using that tables.hand_over_unless_empty [OF ids, of "rm_id room"] by auto
  show "room_ok (leave_db room u d) s" if s: "s \<in> set (d_rooms (leave_db room u d))" for s
  proof -
    have rooms: "d_rooms ?e = d_rooms d" by (simp add: remove_member_def)
    have same: "room_ok (leave_db room u d) s = room_ok ?e s"
      by (rule room_ok_cong) (rule members_leave)
    have inj: "t = room" if "t \<in> set (d_rooms d)" "rm_id t = rm_id room" for t
      using that room lobby_okD(1) [OF d] by (blast intro: room_id_inj)
    have other: "room_ok ?e t" if "t \<in> set (d_rooms d)" "rm_id t \<noteq> rm_id room" for t
      using that d by (simp add: room_ok_cong [of t ?e d] db_simps lobby_okD)
    consider (empty) "members (rm_id room) ?e = []"
      | (owner) v where "members (rm_id room) ?e \<noteq> []" "u = rm_owner room" "next_owner (rm_id room) ?e = Some v"
      | (guest) "members (rm_id room) ?e \<noteq> []" "u \<noteq> rm_owner room"
      using ex by blast
    then show ?thesis
    proof cases
      case empty
      with s obtain t where t: "t \<in> set (d_rooms d)"
        "s = (if rm_id t = rm_id room then t\<lparr>rm_status := ''closed''\<rparr> else t)"
        by (auto simp: leave_db_def set_room_status_def rooms Let_def)
      with same empty ok(1) other inj show ?thesis by (cases "rm_id t = rm_id room") auto
    next
      case owner
      with s obtain t where t: "t \<in> set (d_rooms d)"
        "s = (if rm_id t = rm_id room then t\<lparr>rm_owner := v\<rparr> else t)"
        by (auto simp: leave_db_def set_room_owner_def Let_def frame_remove)
      with same owner ok(3) other inj show ?thesis by (cases "rm_id t = rm_id room") auto
    next
      case guest
      with s have "s \<in> set (d_rooms d)" by (simp add: leave_db_def rooms)
      with same guest ok(2) other inj show ?thesis by (cases "rm_id s = rm_id room") auto
    qed
  qed
  show "ru_room ru \<in> rm_id ` set (d_rooms (leave_db room u d))"
    if "ru \<in> set (d_room_users (leave_db room u d))" for ru
    using that lobby_okD(3) [OF d] unfolding d_rooms_leave room_users_leave
    by (auto simp: remove_member_def)
qed

lemma lobby_ok_playing:
  assumes d: "lobby_ok d" and room: "room \<in> set (d_rooms d)" and ne: "members (rm_id room) d \<noteq> []"
  shows "lobby_ok (set_room_status (rm_id room) ''playing'' d)"
proof (rule lobby_okI)
  show "ids_ok (set_room_status (rm_id room) ''playing'' d)" using d by (simp add: lobby_okD ids_ok_status)
  show "room_ok (set_room_status (rm_id room) ''playing'' d) s"
    if "s \<in> set (d_rooms (set_room_status (rm_id room) ''playing'' d))" for s
  proof -
    from that obtain t where t: "t \<in> set (d_rooms d)"
      "s = (if rm_id t = rm_id room then t\<lparr>rm_status := ''playing''\<rparr> else t)"
      by (auto simp: set_room_status_def)
    with d ne lobby_okD(2) [OF d t(1)] show ?thesis by (auto simp: room_ok_def db_simps)
  qed
  show "ru_room ru \<in> rm_id ` set (d_rooms (set_room_status (rm_id room) ''playing'' d))"
    if "ru \<in> set (d_room_users (set_room_status (rm_id room) ''playing'' d))" for ru
    using that lobby_okD(3) [OF d] by (simp add: db_simps)
qed

lemma lobby_ok_frame:
  assumes "lobby_ok d" "d_rooms e = d_rooms d" "d_room_users e = d_room_users d"
    "d_next_room d \<le> d_next_room e" "d_next_ru d \<le> d_next_ru e"
  shows "lobby_ok e"
proof (rule lobby_okI)
  show "ids_ok e" using assms by (force simp: lobby_ok_def ids_ok_def)
  show "room_ok e r" if "r \<in> set (d_rooms e)" for r
    using that assms by (simp add: lobby_ok_def room_ok_def members_def)
  show "ru_room ru \<in> rm_id ` set (d_rooms e)" if "ru \<in> set (d_room_users e)" for ru
    using that assms by (auto simp: lobby_ok_def)
qed

lemma lobby_ok_rollback:
  assumes "lobby_ok d" "d_next_room d \<le> d_next_room e" "d_next_ru d \<le> d_next_ru e"
  shows "lobby_ok (rollback_db d e)"
  using assms by (intro lobby_ok_frame [OF assms(1)]) (simp_all add: rollback_db_def)

lemma lobby_ok_game: "lobby_ok d \<Longrightarrow> lobby_ok (insert_game m t d)"
  by (erule lobby_ok_frame) (simp_all add: insert_game_def)

lemma lobby_ok_empty: "lobby_ok empty_db"
  by (simp add: lobby_ok_def ids_ok_def empty_db_def)

end
