(* ===== verification/Lobby_Handlers.thy ===== *)
theory Lobby_Handlers
  imports Lobby
begin

text \<open>
  What each lobby handler does, on every branch and for every pattern of failing statements:
  the exact change of the tables on success, and none on an error response. From these
  specifications follow the preservation of \<open>lobby_ok\<close> and the properties of the responses.
\<close>

section \<open>Rules for the statements and broadcasts\<close>

lemma wp_query:
  assumes "\<And>e fs. Q (Inl (DbFault e)) (w\<lparr>w_faults := fs\<rparr>)" "\<And>fs. Q (q (w_db w)) (w\<lparr>w_faults := fs\<rparr>)"
  shows "wp (sql (\<lambda>d. (q d, d))) Q w"
  using assms by (intro wp_sql) (auto dest: spec)

lemma wp_update:
  assumes "\<And>e fs. Q (Inl (DbFault e)) (w\<lparr>w_faults := fs\<rparr>)"
    "\<And>fs. Q (Inr (q (w_db w))) (w\<lparr>w_db := f (w_db w), w_faults := fs\<rparr>)"
  shows "wp (sql (\<lambda>d. (Inr (q d), f d))) Q w"
  using assms by (intro wp_sql) auto

lemma wp_GetRoomByCode:
  assumes "\<And>e fs. Q (Inl (DbFault e)) (w\<lparr>w_faults := fs\<rparr>)"
    "\<And>fs. Q (room_by_code code (w_db w)) (w\<lparr>w_faults := fs\<rparr>)"
  shows "wp (GetRoomByCode code) Q w"
  unfolding GetRoomByCode_def using assms by (rule wp_query)

lemma room_by_code_in: "room_by_code code d = Inr room \<Longrightarrow> room \<in> set (d_rooms d)"
  by (auto simp: room_by_code_def first_row_def dest: filter_eq_ConsD split: list.splits)

lemma wp_IsUserInRoom:
  assumes "\<And>e fs. Q (Inl (DbFault e)) (w\<lparr>w_faults := fs\<rparr>)"
    "\<And>fs. Q (Inr (u \<in> set (members r (w_db w)))) (w\<lparr>w_faults := fs\<rparr>)"
  shows "wp (IsUserInRoom r u) Q w"
proof -
  have "exists_row (first_row (filter (\<lambda>ru. ru_room ru = r \<and> ru_user ru = u) (d_room_users d))) =
      Inr (u \<in> set (members r d))" for d
    by (auto simp: exists_row_def first_row_def members_def filter_empty_conv
        dest: filter_eq_ConsD split: list.split)
  with assms show ?thesis
    unfolding IsUserInRoom_def
    by (intro wp_intros wp_query) (auto simp: exists_row_def)
qed

lemma wp_CountUsersInRoom:
  assumes "\<And>e fs. Q (Inl (DbFault e)) (w\<lparr>w_faults := fs\<rparr>)"
    "\<And>fs. Q (Inr (length (members r (w_db w)))) (w\<lparr>w_faults := fs\<rparr>)"
  shows "wp (CountUsersInRoom r) Q w" "wp (CountUsersInRoomTx r) Q w"
  unfolding CountUsersInRoom_def CountUsersInRoomTx_def using assms by (auto intro!: wp_query)

lemma wp_tx_begin:
  assumes "\<And>e fs. Q (Inl (DbFault e)) (w\<lparr>w_faults := fs\<rparr>)" "\<And>fs. Q (Inr ()) (w\<lparr>w_faults := fs\<rparr>)"
  shows "wp tx_begin Q w" "wp tx_commit Q w"
  unfolding tx_begin_def tx_commit_def using assms by (auto intro!: wp_query)

lemma wp_AddUserToRoom:
  assumes "\<And>e fs. Q (Inl (DbFault e)) (w\<lparr>w_faults := fs\<rparr>)"
    "\<And>fs. u \<notin> set (members r (w_db w)) \<Longrightarrow>
       Q (Inr ()) (w\<lparr>w_db := add_member r u False (w_db w), w_faults := fs\<rparr>)"
  shows "wp (AddUserToRoom r u) Q w"
  unfolding AddUserToRoom_def
proof (rule wp_sql)
  fix e fs
  show "Q (Inl (DbFault e)) (w\<lparr>w_faults := fs\<rparr>)" by (rule assms(1))
next
  fix fs x d
  assume "(if u \<in> set (members r (w_db w)) then (Inl (DbFault ''Duplicate entry''), w_db w)
    else (Inr (), add_member r u False (w_db w))) = (x, d)"
  then show "Q x (w\<lparr>w_db := d, w_faults := fs\<rparr>)" using assms by (auto split: if_splits)
qed

lemma wp_AddUserToRoomAsHost:
  assumes "u \<notin> set (members r (w_db w))" "\<And>e fs. Q (Inl (DbFault e)) (w\<lparr>w_faults := fs\<rparr>)"
    "\<And>fs. Q (Inr ()) (w\<lparr>w_db := add_member r u b (w_db w), w_faults := fs\<rparr>)"
  shows "wp (AddUserToRoomAsHost r u b) Q w"
  unfolding AddUserToRoomAsHost_def using assms by (intro wp_sql) auto

text \<open>Broadcasts and the closing of connections leave the tables alone.\<close>

lemma stable_query [stable_intros]:
  "(\<And>w fs. P w \<Longrightarrow> P (w\<lparr>w_faults := fs\<rparr>)) \<Longrightarrow> stable P (sql (\<lambda>d. (q d, d)))"
  by (rule stable_sql) auto

definition db_is :: "database \<Rightarrow> 'z dbworld_scheme \<Rightarrow> bool" where
  "db_is d w \<longleftrightarrow> w_db w = d"

lemma db_is_write [stable_intros]: "stable (db_is d) (WriteJSON c m)"
  unfolding WriteJSON_def by (rule stable_atomic) (simp add: db_is_def)

lemma db_drop_conns [simp]: "w_db (drop_conns code cs w) = w_db w"
  by (induction cs arbitrary: w) (simp_all add: close_conn_def)

lemma db_is_drop [stable_intros]: "stable (db_is d) (drop_failed code cs)"
  unfolding drop_failed_def by (intro stable_intros stable_atomic) (simp add: db_is_def)

lemma db_is_send_status [stable_intros]: "stable (db_is d) (send_status code m b h items cs)"
  by (induction items arbitrary: cs) (auto simp: split_paired_all intro!: stable_intros)

lemma db_is_send_start [stable_intros]: "stable (db_is d) (send_start m items cs)"
  by (induction items arbitrary: cs) (auto simp: split_paired_all intro!: stable_intros)

lemma db_is_snapshot [stable_intros]: "stable (db_is d) (snapshot_room code)"
  unfolding snapshot_room_def by (rule stable_atomic) simp

lemma db_is_broadcast: "stable (db_is d) (broadcastRoomStatus code)"
  unfolding broadcastRoomStatus_def GetRoomByCode_def GetUsersInRoom_def
  by (intro stable_intros) (simp_all add: db_is_def)

lemma db_is_start: "stable (db_is d) (broadcastStartGame code gid)"
  unfolding broadcastStartGame_def by (intro stable_intros)

lemma db_is_close: "stable (db_is d) (closeUserConnections code u)"
  unfolding closeUserConnections_def
  by (rule stable_atomic) (auto simp: db_is_def split: option.splits prod.splits)

lemma wp_db_is:
  assumes "stable (db_is (w_db w)) p" "\<And>a w'. w_db w' = w_db w \<Longrightarrow> Q a w'"
  shows "wp p Q w"
  using stable_run [OF assms(1)] assms(2) by (auto simp: wp_run db_is_def)

lemmas wp_broadcast = wp_db_is [OF db_is_broadcast]
lemmas wp_close = wp_db_is [OF db_is_close]
lemmas wp_start_broadcast = wp_db_is [OF db_is_start]

text \<open>An error response leaves every table as it was; only the id counters may have moved on.\<close>

definition same_tables :: "database \<Rightarrow> database \<Rightarrow> bool" where
  "same_tables d e \<longleftrightarrow> rollback_db d e = e \<and> d_next_user d \<le> d_next_user e \<and>
     d_next_room d \<le> d_next_room e \<and> d_next_ru d \<le> d_next_ru e \<and> d_next_game d \<le> d_next_game e"

lemma same_tables_refl [simp]: "same_tables d d"
  by (simp add: same_tables_def rollback_db_def)

lemma same_tables_rollback [simp]:
  "same_tables d (rollback_db d e) \<longleftrightarrow> d_next_user d \<le> d_next_user e \<and> d_next_room d \<le> d_next_room e \<and>
     d_next_ru d \<le> d_next_ru e \<and> d_next_game d \<le> d_next_game e"
  by (simp add: same_tables_def rollback_db_def)

lemma lobby_ok_same: "lobby_ok d \<Longrightarrow> same_tables d e \<Longrightarrow> lobby_ok e"
  by (metis lobby_ok_rollback same_tables_def)

lemma frame_insert_room [db_simps]:
  "d_next_room (insert_room c g m u s n d) = d_next_room d + 1"
  "d_next_user (insert_room c g m u s n d) = d_next_user d"
  "d_next_ru (insert_room c g m u s n d) = d_next_ru d"
  "d_next_game (insert_room c g m u s n d) = d_next_game d"
  by (simp_all add: insert_room_def)

lemma frame_insert_game [db_simps]:
  "d_next_room (insert_game m t d) = d_next_room d" "d_next_user (insert_game m t d) = d_next_user d"
  "d_next_ru (insert_game m t d) = d_next_ru d" "d_next_game (insert_game m t d) = d_next_game d + 1"
  "d_rooms (insert_game m t d) = d_rooms d" "d_room_users (insert_game m t d) = d_room_users d"
  by (simp_all add: insert_game_def)

section \<open>Create\<close>

definition created :: "string \<Rightarrow> int \<Rightarrow> int \<Rightarrow> int \<Rightarrow> int \<Rightarrow> database \<Rightarrow> database" where
  "created code g maxp uid now d =
     add_member (d_next_room d) uid False (insert_room code g maxp uid ''waiting'' now d)"

lemma create_tx_spec:
  assumes "lobby_ok d" "w_db w = d"
  shows "wp (transaction (create_room_tx code req uid now)) (\<lambda>failed w'. case failed of
      None \<Rightarrow> w_db w' = created code (crq_GameTypeID req) (crq_MaxPlayers req) uid now d
    | Some (msg, c) \<Rightarrow> same_tables d (w_db w') \<and> c = 500) w"
proof -
  have fresh: "uid \<notin> set (members (d_next_room d) (insert_room code g m u s now d))" for g m u s
    using lobby_okD(1,3) [OF assms(1)] by (fastforce simp: members_def insert_room_def ids_ok_def)
  show ?thesis
    unfolding create_room_tx_def
    by (auto intro!: wp_intros wp_transaction wp_tx_begin wp_update wp_AddUserToRoomAsHost
        simp: fresh created_def db_simps assms(2))
qed


text \<open>The request after the default for the number of players.\<close>

definition create_req :: "request \<Rightarrow> CreateRoomRequest option" where
  "create_req r = map_option (\<lambda>q. if crq_MaxPlayers q \<le> 0 then q\<lparr>crq_MaxPlayers := 4\<rparr> else q)
     (decode_body create_room_fields \<lparr>crq_GameTypeID = 0, crq_MaxPlayers = 0\<rparr> (rq_json r))"

lemma create_spec:
  assumes "lobby_ok (w_db w)"
  shows "wp (CreateRoomHandler raw r) (\<lambda>res w'. case res of
      HttpError msg c \<Rightarrow> same_tables (w_db w) (w_db w')
    | Json b \<Rightarrow> (\<exists>req. create_req r = Some req \<and> 0 < crq_MaxPlayers req \<and> GetUserID r \<noteq> 0 \<and>
        crs_RoomCode b = GenerateRoomCode raw \<and> crs_UserID b = GetUserID r \<and> crs_Result b = ''OK'' \<and>
        game_type_name (crq_GameTypeID req) (w_db w) = Inr (crs_GameName b) \<and>
        w_db w' = created (GenerateRoomCode raw) (crq_GameTypeID req) (crq_MaxPlayers req)
          (GetUserID r) (w_clock w) (w_db w))) w"
  unfolding CreateRoomHandler_def reply_error_def time_now_def Let_def
  by (auto intro!: wp_intros wp_query wp_atomic wp_mono [OF create_tx_spec [OF assms]]
      simp: create_req_def split: option.splits)

lemma create_keeps:
  "lobby_ok (w_db w) \<Longrightarrow> wp (CreateRoomHandler raw r) (\<lambda>_ w'. lobby_ok (w_db w')) w"
  by (rule wp_mono [OF create_spec])
    (auto simp: created_def lobby_ok_create split: response.splits dest: lobby_ok_same)

section \<open>Join\<close>

lemma join_spec:
  "wp (JoinRoomHandler r) (\<lambda>res w'. case decode_room_code r of
      None \<Rightarrow> w' = w
    | Some code \<Rightarrow> (case room_by_code code (w_db w) of
        Inl _ \<Rightarrow> w_db w' = w_db w
      | Inr room \<Rightarrow>
          (w_db w' = w_db w \<and> (\<forall>b. res = Json b \<longrightarrow> GetUserID r \<in> set (members (rm_id room) (w_db w)))) \<or>
          (rm_status room = ''waiting'' \<and> GetUserID r \<noteq> 0 \<and>
           GetUserID r \<notin> set (members (rm_id room) (w_db w)) \<and>
           int (length (members (rm_id room) (w_db w))) < rm_max room \<and>
           w_db w' = add_member (rm_id room) (GetUserID r) False (w_db w) \<and>
           (\<forall>b. res = Json b \<longrightarrow> (\<exists>g. b = join_response room (GetUserID r) g))))) w"
  unfolding JoinRoomHandler_def reply_error_def Let_def
  by (auto intro!: wp_intros wp_query wp_GetRoomByCode wp_IsUserInRoom wp_CountUsersInRoom
      wp_AddUserToRoom wp_broadcast split: option.splits sum.splits)

lemma join_keeps:
  assumes "lobby_ok (w_db w)"
  shows "wp (JoinRoomHandler r) (\<lambda>_ w'. lobby_ok (w_db w')) w"
  by (rule wp_mono [OF join_spec])
    (use assms in \<open>auto simp: lobby_ok_add room_by_code_in split: option.splits sum.splits\<close>)

section \<open>Leave\<close>

text \<open>The response that goes with \<open>leave_db\<close>.\<close>

definition leave_resp :: "Room \<Rightarrow> int \<Rightarrow> database \<Rightarrow> LeaveRoomResponse" where
  "leave_resp room u d = (let e = remove_member (rm_id room) u d;
       resp = \<lparr>lr_Result = ''OK'', lr_RoomCode = rm_code room, lr_HostChanged = False,
                  lr_NewHostUserID = 0, lr_RoomBecameZero = False\<rparr> in
     if members (rm_id room) e = [] then resp\<lparr>lr_RoomBecameZero := True\<rparr>
     else if u = rm_owner room
       then (case next_owner (rm_id room) e of None \<Rightarrow> resp
             | Some v \<Rightarrow> resp\<lparr>lr_HostChanged := True, lr_NewHostUserID := v\<rparr>)
     else resp)"

lemma wp_remove:
  assumes "\<And>e fs. Q (Inl (DbFault e)) (w\<lparr>w_faults := fs\<rparr>)"
    "\<And>n fs. (n = 0 \<longleftrightarrow> u \<notin> set (members r (w_db w))) \<Longrightarrow>
       Q (Inr n) (w\<lparr>w_db := remove_member r u (w_db w), w_faults := fs\<rparr>)"
  shows "wp (RemoveUserFromRoomTx r u) Q w"
proof -
  have "length (filter (\<lambda>ru. ru_room ru = r \<and> ru_user ru = u) (d_room_users d)) = 0 \<longleftrightarrow>
      u \<notin> set (members r d)" for d
    by (auto simp: members_def filter_empty_conv)
  with assms show ?thesis unfolding RemoveUserFromRoomTx_def by (intro wp_update) blast+
qed

lemma leave_tx_spec:
  assumes "w_db w = d" "u \<in> set (members (rm_id room) d)"
  shows "wp (transaction (leave_tx room u)) (\<lambda>res w'. case res of
      Inl (msg, c) \<Rightarrow> same_tables d (w_db w') \<and> c = 500
    | Inr resp \<Rightarrow> w_db w' = leave_db room u d \<and> resp = leave_resp room u d) w"
  unfolding leave_tx_def Let_def UpdateRoomStatusTx_def SetRoomOwnerTx_def PickNextOwnerTx_def
  by (auto intro!: wp_intros wp_transaction wp_tx_begin wp_query wp_update wp_remove wp_CountUsersInRoom
      simp: leave_db_def leave_resp_def assms db_simps split: option.splits)

lemma leave_spec:
  "wp (LeaveRoomHandler r) (\<lambda>res w'. case res of
      HttpError msg c \<Rightarrow> same_tables (w_db w) (w_db w')
    | Json b \<Rightarrow> (\<exists>code room. decode_room_code r = Some code \<and> room_by_code code (w_db w) = Inr room \<and>
        GetUserID r \<noteq> 0 \<and> GetUserID r \<in> set (members (rm_id room) (w_db w)) \<and>
        w_db w' = leave_db room (GetUserID r) (w_db w) \<and>
        b = leave_resp room (GetUserID r) (w_db w))) w"
  unfolding LeaveRoomHandler_def reply_error_def Let_def
  by (auto intro!: wp_intros wp_GetRoomByCode wp_IsUserInRoom wp_mono [OF leave_tx_spec [OF refl]]
      wp_broadcast wp_close)

lemma leave_keeps:
  assumes "lobby_ok (w_db w)"
  shows "wp (LeaveRoomHandler r) (\<lambda>_ w'. lobby_ok (w_db w')) w"
  by (rule wp_mono [OF leave_spec])
    (use assms in \<open>auto simp: lobby_ok_leave room_by_code_in split: response.splits dest: lobby_ok_same\<close>)

section \<open>Start\<close>

definition all_ready :: "int \<Rightarrow> database \<Rightarrow> bool" where
  "all_ready rid d \<longleftrightarrow> (\<forall>ru \<in> set (d_room_users d). ru_room ru = rid \<longrightarrow> ru_ready ru)"

definition started :: "Room \<Rightarrow> database \<Rightarrow> database" where
  "started room d = set_room_status (rm_id room) ''playing'' (insert_game 1 (rm_game_type room) d)"

lemma ready_count:
  "length (members rid d) = length (filter (\<lambda>ru. ru_room ru = rid \<and> ru_ready ru) (d_room_users d)) \<longleftrightarrow>
   all_ready rid d"
proof -
  have le: "length (filter (\<lambda>ru. ru_room ru = rid \<and> ru_ready ru) xs) \<le>
      length (filter (\<lambda>ru. ru_room ru = rid) xs)" for xs
    by (induction xs) auto
  have "length (filter (\<lambda>ru. ru_room ru = rid) xs) =
      length (filter (\<lambda>ru. ru_room ru = rid \<and> ru_ready ru) xs) \<longleftrightarrow>
      (\<forall>ru \<in> set xs. ru_room ru = rid \<longrightarrow> ru_ready ru)" for xs
  proof (induction xs)
    case (Cons x xs)
    then show ?case using le [of xs] by auto
  qed simp
  then show ?thesis by (simp add: members_def all_ready_def)
qed

lemma start_tx_spec:
  assumes "w_db w = d"
  shows "wp (transaction (start_tx room)) (\<lambda>res w'. case res of
      Inl (msg, c) \<Rightarrow> same_tables d (w_db w') \<and> c = 500
    | Inr gid \<Rightarrow> w_db w' = started room d \<and> gid = d_next_game d) w"
  unfolding start_tx_def
  by (auto intro!: wp_intros wp_transaction wp_tx_begin wp_update
      simp: assms started_def db_simps)

lemma start_spec:
  "wp (StartRoomHandler r) (\<lambda>res w'. case res of
      (HttpError msg c, g) \<Rightarrow> same_tables (w_db w) (w_db w') \<and> g = None
    | (Json b, g) \<Rightarrow> (\<exists>code room. decode_room_code r = Some code \<and> room_by_code code (w_db w) = Inr room \<and>
        GetUserID r \<noteq> 0 \<and> GetUserID r = rm_owner room \<and> members (rm_id room) (w_db w) \<noteq> [] \<and>
        all_ready (rm_id room) (w_db w) \<and> rm_status room \<noteq> ''playing'' \<and>
        w_db w' = started room (w_db w) \<and>
        b = \<lparr>sr_Result = ''OK'', sr_GameID = d_next_game (w_db w)\<rparr> \<and>
        g = Some (code, d_next_game (w_db w)))) w"
  unfolding StartRoomHandler_def Let_def CountReadyUsers_def
  by (auto intro!: wp_intros wp_query wp_GetRoomByCode wp_CountUsersInRoom
      wp_mono [OF start_tx_spec [OF refl]] simp: ready_count)

lemma start_keeps:
  assumes "lobby_ok (w_db w)"
  shows "wp (StartRoomHandler r) (\<lambda>_ w'. lobby_ok (w_db w')) w"
proof -
  have "lobby_ok (started room (w_db w))"
    if "room \<in> set (d_rooms (w_db w))" "members (rm_id room) (w_db w) \<noteq> []" for room
  proof -
    have "members (rm_id room) (insert_game 1 (rm_game_type room) (w_db w)) = members (rm_id room) (w_db w)"
      by (simp add: members_def db_simps)
    with that assms show ?thesis
      unfolding started_def by (intro lobby_ok_playing lobby_ok_game) (simp_all add: db_simps)
  qed
  note started = this
  show ?thesis
  proof (rule wp_mono [OF start_spec])
    fix res w'
    show "lobby_ok (w_db w')" if "case res of
      (HttpError msg c, g) \<Rightarrow> same_tables (w_db w) (w_db w') \<and> g = None
    | (Json b, g) \<Rightarrow> (\<exists>code room. decode_room_code r = Some code \<and> room_by_code code (w_db w) = Inr room \<and>
        GetUserID r \<noteq> 0 \<and> GetUserID r = rm_owner room \<and> members (rm_id room) (w_db w) \<noteq> [] \<and>
        all_ready (rm_id room) (w_db w) \<and> rm_status room \<noteq> ''playing'' \<and>
        w_db w' = started room (w_db w) \<and>
        b = \<lparr>sr_Result = ''OK'', sr_GameID = d_next_game (w_db w)\<rparr> \<and>
        g = Some (code, d_next_game (w_db w)))"
      using that assms started
      by (cases "fst res") (auto simp: room_by_code_in dest: lobby_ok_same split: prod.splits)
  qed
qed

section \<open>Ready\<close>

lemma ready_spec:
  "wp (ReadyHandler r) (\<lambda>res w'. case res of
      HttpError msg c \<Rightarrow> w_db w' = w_db w
    | Json b \<Rightarrow> (\<exists>q room. decode_body ready_fields zero_ready (rq_json r) = Some q \<and>
        room_by_code (rr_RoomCode q) (w_db w) = Inr room \<and>
        w_db w' = set_ready (rm_id room) (GetUserID r) (rr_IsReady q) (w_db w))) w"
  unfolding ReadyHandler_def reply_error_def Let_def UpdateUserReady_def
  by (auto intro!: wp_intros wp_query wp_update wp_GetRoomByCode)

lemma ready_keeps:
  assumes "lobby_ok (w_db w)"
  shows "wp (ReadyHandler r) (\<lambda>_ w'. lobby_ok (w_db w')) w"
  by (rule wp_mono [OF ready_spec])
    (use assms in \<open>auto simp: lobby_ok_set_ready split: response.splits\<close>)

end
