(* ===== verification/Broadcasts.thy ===== *)
theory Broadcasts
  imports Conns
begin

text \<open>
  What a broadcast sends, in closed form, for every iteration order of the connection table:
  the messages appended to \<open>w_sent\<close>, the connections it drops, and that the closing of a user's
  connections removes exactly those.
\<close>

section \<open>The loop over the users of a room\<close>

definition host_of :: "RoomUser list \<Rightarrow> int \<Rightarrow> int" where
  "host_of us h = (case filter us_IsHost us of [] \<Rightarrow> h | hs \<Rightarrow> us_UserID (last hs))"

lemma scan_users_eq:
  "scan_users us (ps, a, h) =
     (ps @ map player_info us, a \<and> (\<forall>u \<in> set us. us_IsReady u), host_of us h)"
proof (induction us arbitrary: ps a h)
  case Nil
  then show ?case by (simp add: host_of_def)
next
  case (Cons u us)
  show ?case
    by (simp only: scan_users.simps Cons.IH) (auto simp: host_of_def split: list.splits)
qed

section \<open>The loops over the connections\<close>

definition alive :: "'z networld_scheme \<Rightarrow> conn \<Rightarrow> bool" where
  "alive w c \<longleftrightarrow> c \<notin> set (w_closed w) \<and> c \<notin> set (w_broken w)"

lemma alive_sent [simp]: "alive (w\<lparr>w_sent := ms\<rparr>) c = alive w c"
  by (simp add: alive_def)

lemma alive_frame [simp]:
  "alive (w\<lparr>w_db := d\<rparr>) c = alive w c" "alive (w\<lparr>w_faults := fs\<rparr>) c = alive w c"
  by (simp_all add: alive_def)

lemma run_WriteJSON [run_simps]:
  "run (WriteJSON c m) w = (if alive w c then (True, w\<lparr>w_sent := w_sent w @ [(c, m)]\<rparr>) else (False, w))"
  by (simp add: WriteJSON_def run_atomic alive_def)

definition status_sends :: "'z networld_scheme \<Rightarrow> string \<Rightarrow> ws_msg \<Rightarrow> bool \<Rightarrow> int \<Rightarrow>
    (conn \<times> int) list \<Rightarrow> (conn \<times> ws_msg) list" where
  "status_sends w code m allReady host items = concat (map (\<lambda>(c, uid).
     if alive w c then (c, m) # (if allReady \<and> uid = host then [(c, all_ready_msg code)] else [])
     else []) items)"

definition failed_conns :: "'z networld_scheme \<Rightarrow> (conn \<times> int) list \<Rightarrow> conn list" where
  "failed_conns w items = map fst (filter (\<lambda>(c, uid). \<not> alive w c) items)"

lemma sends_frame [simp]:
  "status_sends (w\<lparr>w_sent := ms\<rparr>) code m a h items = status_sends w code m a h items"
  "failed_conns (w\<lparr>w_sent := ms\<rparr>) items = failed_conns w items"
  by (simp_all add: status_sends_def failed_conns_def)

lemma run_send_status [run_simps]:
  "run (send_status code m a h items cs) w =
     (cs @ failed_conns w items, w\<lparr>w_sent := w_sent w @ status_sends w code m a h items\<rparr>)"
proof (induction items arbitrary: cs w)
  case Nil
  then show ?case by (simp add: failed_conns_def status_sends_def)
next
  case (Cons item items)
  obtain c uid where item: "item = (c, uid)" by force
  show ?case
    unfolding item using Cons.IH
    by (cases a) (auto simp: run_simps failed_conns_def status_sends_def)
qed

lemma run_send_start [run_simps]:
  "run (send_start m items cs) w =
     (cs @ failed_conns w items,
      w\<lparr>w_sent := w_sent w @ map (\<lambda>(c, uid). (c, m)) (filter (\<lambda>(c, uid). alive w c) items)\<rparr>)"
proof (induction items arbitrary: cs w)
  case Nil
  then show ?case by (simp add: failed_conns_def)
next
  case (Cons item items)
  obtain c uid where item: "item = (c, uid)" by force
  show ?case
    unfolding item by (simp add: run_simps Cons.IH) (auto simp: failed_conns_def)
qed

section \<open>Whole broadcasts\<close>

lemma drop_failed_sent [simp]: "w_sent (drop_conns code cs w) = w_sent w"
  by (induction cs arbitrary: w) (simp_all add: close_conn_def)

definition status_msg :: "string \<Rightarrow> Room \<Rightarrow> RoomUser list \<Rightarrow> ws_msg" where
  "status_msg code room us = RoomStatus \<lparr>rs_Type = ''room_status'', rs_RoomCode = code,
     rs_Players = map player_info us, rs_MaxPlayers = rm_max room\<rparr>"

lemma broadcast_sent:
  assumes "w_faults w = []" "room_by_code code (w_db w) = Inr room"
    and "us = order_users (room_user_rows (rm_id room) (w_db w))"
  shows "w_sent (snd (run (broadcastRoomStatus code) w)) = w_sent w @
    status_sends w code (status_msg code room us) (\<forall>u \<in> set us. us_IsReady u) (host_of us 0)
      (gm_sub (w_roomConns w) code)"
proof (cases "gm_sub (w_roomConns w) code = []")
  case True
  then show ?thesis
    by (simp add: broadcastRoomStatus_def snapshot_room_def run_simps status_sends_def)
next
  case False
  have "status_sends (w\<lparr>w_faults := []\<rparr>) c m a h items = status_sends w c m a h items" for c m a h items
    by (simp add: status_sends_def)
  with False assms show ?thesis
    by (simp add: broadcastRoomStatus_def snapshot_room_def run_simps GetRoomByCode_def
        GetUsersInRoom_def scan_users_eq drop_failed_def status_msg_def)
qed

lemma start_sent:
  "w_sent (snd (run (broadcastStartGame code gid) w)) = w_sent w @
     map (\<lambda>(c, uid). (c, StartGame \<lparr>sg_Type = ''start_game'', sg_RoomCode = code, sg_GameID = gid\<rparr>))
       (filter (\<lambda>(c, uid). alive w c) (gm_sub (w_roomConns w) code))"
  by (simp add: broadcastStartGame_def snapshot_room_def drop_failed_def run_simps)

section \<open>closeUserConnections\<close>

lemma gm_del_filter: "gm_del k m = filter (\<lambda>p. fst p \<noteq> k) m"
  by (induction m) auto

lemma close_user_loop_eq:
  "close_user_loop uid items m cs =
     (filter (\<lambda>p. fst p \<notin> fst ` set (filter (\<lambda>q. snd q = uid) items)) m,
      rev (map fst (filter (\<lambda>q. snd q = uid) items)) @ cs)"
proof (induction items arbitrary: m cs)
  case (Cons item items)
  obtain c u where item: "item = (c, u)" by force
  show ?case unfolding item by (auto simp: Cons.IH gm_del_filter intro: filter_cong)
qed simp

lemma close_user_loop_self:
  assumes "gm_ok m"
  shows "close_user_loop uid m m cs =
    (filter (\<lambda>p. snd p \<noteq> uid) m, rev (map fst (filter (\<lambda>q. snd q = uid) m)) @ cs)"
proof -
  have "fst p \<notin> fst ` set (filter (\<lambda>q. snd q = uid) m) \<longleftrightarrow> snd p \<noteq> uid" if "p \<in> set m" for p
  proof -
    obtain k v where p: "p = (k, v)" by force
    have "k \<in> fst ` set (filter (\<lambda>q. snd q = uid) m) \<longleftrightarrow> (k, uid) \<in> set m"
      by (force simp: image_iff)
    with that p gm_unique [OF assms, of k] show ?thesis by auto
  qed
  then show ?thesis unfolding close_user_loop_eq by (simp cong: filter_cong)
qed

lemma close_user_conns:
  assumes "gm_ok (gm_sub (w_roomConns w) code)"
  shows "gm_sub (w_roomConns (snd (run (closeUserConnections code uid) w))) k =
      (if k = code then filter (\<lambda>p. snd p \<noteq> uid) (gm_sub (w_roomConns w) k) else gm_sub (w_roomConns w) k)"
    and "set (w_closed (snd (run (closeUserConnections code uid) w))) =
      set (w_closed w) \<union> {c. (c, uid) \<in> set (gm_sub (w_roomConns w) code)}"
  using assms
  by (auto simp: closeUserConnections_def run_atomic gm_sub_def close_user_loop_self image_iff
      split: option.splits)

end
