(* ===== verification/Lobby_Results.thy ===== *)
theory Lobby_Results
  imports Lobby_Handlers Broadcasts
begin

text \<open>
  The answers of the lobby handlers when no statement fails, and the order in which the members
  of a room are listed.
\<close>

section \<open>Statements that do not fail\<close>

lemma run_sql_ok [run_simps]:
  "w_faults w = [] \<Longrightarrow> run (sql q) w = (case q (w_db w) of (r, d) \<Rightarrow> (r, w\<lparr>w_db := d, w_faults := []\<rparr>))"
  by (simp add: run_sql)

lemma run_GetRoomByCode:
  "w_faults w = [] \<Longrightarrow> run (GetRoomByCode code) w = (room_by_code code (w_db w), w)"
  by (simp add: GetRoomByCode_def run_simps)

lemma exists_member:
  "exists_row (first_row (filter (\<lambda>ru. ru_room ru = rid \<and> ru_user ru = u) (d_room_users d))) =
     Inr (u \<in> set (members rid d))"
  by (auto simp: exists_row_def first_row_def members_def filter_empty_conv
      dest: filter_eq_ConsD split: list.split)

lemma run_IsUserInRoom:
  "w_faults w = [] \<Longrightarrow> run (IsUserInRoom rid u) w = (Inr (u \<in> set (members rid (w_db w))), w)"
  by (simp add: IsUserInRoom_def run_simps exists_member)

lemma run_CountUsersInRoom:
  "w_faults w = [] \<Longrightarrow> run (CountUsersInRoom rid) w = (Inr (length (members rid (w_db w))), w)"
  by (simp add: CountUsersInRoom_def run_simps)

lemmas run_models = run_GetRoomByCode run_IsUserInRoom run_CountUsersInRoom

section \<open>Join\<close>

text \<open>The status code of a join, as a function of the tables.\<close>

definition join_code :: "request \<Rightarrow> database \<Rightarrow> nat" where
  "join_code r d =
     (if GetUserID r = 0 then 401 else
      case decode_room_code r of None \<Rightarrow> 400 | Some code \<Rightarrow>
      (case room_by_code code d of Inl _ \<Rightarrow> 404 | Inr room \<Rightarrow>
       let m = members (rm_id room) d; seated = GetUserID r \<in> set m in
       if rm_status room \<noteq> ''waiting'' then 403
       else if \<not> seated \<and> rm_max room \<le> int (length m) then 403
       else case room_game_name (rm_id room) d of Inl _ \<Rightarrow> 500 | Inr _ \<Rightarrow> 200))"

lemma room_game_name_add [simp]: "room_game_name rid (add_member q u b d) = room_game_name rid d"
  by (simp add: room_game_name_def add_member_def)

lemma join_code_ok:
  assumes "w_faults w = []"
  shows "status_code (fst (run (JoinRoomHandler r) w)) = join_code r (w_db w)"
  using assms unfolding JoinRoomHandler_def join_code_def reply_error_def Let_def
  by (simp add: run_simps run_models AddUserToRoom_def split: option.split sum.split prod.split)

text \<open>What a join does, on every branch and with any statement failing.\<close>

definition join_effect :: "request \<Rightarrow> Room \<Rightarrow> database \<Rightarrow> database \<Rightarrow> JoinRoomResponse response \<Rightarrow> bool" where
  "join_effect r room d d' res =
     (let seated = GetUserID r \<in> set (members (rm_id room) d);
          may_sit = GetUserID r \<noteq> 0 \<and> rm_status room = ''waiting'' \<and> \<not> seated \<and>
            int (length (members (rm_id room) d)) < rm_max room;
          sat = add_member (rm_id room) (GetUserID r) False d in
      case res of
        HttpError msg c \<Rightarrow> d' = d \<or> (may_sit \<and> d' = sat \<and> msg = ''Lookup error'' \<and> c = 500)
      | Json b \<Rightarrow> (\<exists>g. room_game_name (rm_id room) d = Inr g \<and> b = join_response room (GetUserID r) g) \<and>
          (if seated then d' = d else may_sit \<and> d' = sat))"

lemma join_effect_ok:
  "wp (JoinRoomHandler r) (\<lambda>res w'. case decode_room_code r of
      None \<Rightarrow> w_db w' = w_db w \<and> (\<forall>b. res \<noteq> Json b)
    | Some code \<Rightarrow> (case room_by_code code (w_db w) of
        Inl _ \<Rightarrow> w_db w' = w_db w \<and> (\<forall>b. res \<noteq> Json b)
      | Inr room \<Rightarrow> join_effect r room (w_db w) (w_db w') res)) w"
  unfolding JoinRoomHandler_def reply_error_def Let_def
  by (auto intro!: wp_intros wp_query wp_GetRoomByCode wp_IsUserInRoom wp_CountUsersInRoom
      wp_AddUserToRoom wp_broadcast simp: join_effect_def Let_def split: option.splits sum.splits)

section \<open>Start\<close>

definition start_code :: "request \<Rightarrow> database \<Rightarrow> nat" where
  "start_code r d =
     (if GetUserID r = 0 then 401 else
      case decode_room_code r of None \<Rightarrow> 400 | Some code \<Rightarrow>
      (case room_by_code code d of Inl _ \<Rightarrow> 404 | Inr room \<Rightarrow>
       if rm_owner room \<noteq> GetUserID r then 403
       else if members (rm_id room) d = [] \<or> \<not> all_ready (rm_id room) d then 403
       else if rm_status room = ''playing'' then 409 else 200))"

lemma start_code_ok:
  assumes "w_faults w = []"
  shows "status_code (fst (fst (run (StartRoomHandler r) w))) = start_code r (w_db w)"
  using assms unfolding StartRoomHandler_def start_code_def Let_def start_tx_def
  by (simp add: run_simps run_models CountReadyUsers_def ready_count tx_begin_def tx_commit_def
      split: option.split sum.split prod.split)

section \<open>Leave\<close>

text \<open>The rooms and members after a departure, by the list of those who stay.\<close>

lemma leave_members:
  "members q (leave_db room u d) = (if q = rm_id room then filter (\<lambda>x. x \<noteq> u) (members q d) else members q d)"
  by (simp add: members_leave tables.mem_del)

lemma next_owner_hd:
  "ids_ok d \<Longrightarrow> next_owner rid d = (case members rid d of [] \<Rightarrow> None | v # _ \<Rightarrow> Some v)"
  by (rule tables.pick_first)

definition room_left :: "int \<Rightarrow> int \<Rightarrow> int list \<Rightarrow> Room \<Rightarrow> Room" where
  "room_left rid u stay r = (if rm_id r \<noteq> rid then r
     else if stay = [] then r\<lparr>rm_status := ''closed''\<rparr>
     else if u = rm_owner r then r\<lparr>rm_owner := hd stay\<rparr> else r)"

lemma leave_rooms:
  assumes "ids_ok d" "room \<in> set (d_rooms d)" "stay = filter (\<lambda>x. x \<noteq> u) (members (rm_id room) d)"
  shows "d_rooms (leave_db room u d) = map (room_left (rm_id room) u stay) (d_rooms d)"
proof -
  let ?e = "remove_member (rm_id room) u d"
  have m: "members (rm_id room) ?e = stay" by (simp add: tables.mem_del assms(3))
  have e: "d_rooms ?e = d_rooms d" by (simp add: remove_member_def)
  have ids: "ids_ok ?e" using assms(1) by (rule ids_ok_remove)
  have eq: "r = room" if "r \<in> set (d_rooms d)" "rm_id r = rm_id room" for r
    using that assms(1,2) by (blast intro: room_id_inj)
  have no: "next_owner (rm_id room) ?e = (if stay = [] then None else Some (hd stay))"
    using next_owner_hd [OF ids, of "rm_id room"] m by (simp split: list.split)
  consider (empty) "stay = []" | (owner) "stay \<noteq> []" "u = rm_owner room" | (guest) "stay \<noteq> []" "u \<noteq> rm_owner room"
    by blast
  then show ?thesis
  proof cases
    case empty
    then have "leave_db room u d = set_room_status (rm_id room) ''closed'' ?e"
      using m by (simp add: leave_db_def Let_def)
    with empty show ?thesis by (auto simp: set_room_status_def e room_left_def dest: eq)
  next
    case owner
    then have "leave_db room u d = set_room_owner (rm_id room) (hd stay) ?e"
      using m no by (simp add: leave_db_def Let_def)
    with owner show ?thesis by (auto simp: set_room_owner_def remove_member_def room_left_def dest: eq)
  next
    case guest
    then have "leave_db room u d = ?e" using m by (simp add: leave_db_def Let_def)
    with guest show ?thesis by (auto simp: e room_left_def dest: eq intro!: map_idI [symmetric])
  qed
qed

lemma leave_resp_hd:
  assumes "ids_ok d" "stay = filter (\<lambda>x. x \<noteq> u) (members (rm_id room) d)"
  shows "leave_resp room u d = \<lparr>lr_Result = ''OK'', lr_RoomCode = rm_code room,
    lr_HostChanged = (stay \<noteq> [] \<and> u = rm_owner room),
    lr_NewHostUserID = (if stay \<noteq> [] \<and> u = rm_owner room then hd stay else 0),
    lr_RoomBecameZero = (stay = [])\<rparr>"
proof -
  have m: "members (rm_id room) (remove_member (rm_id room) u d) = stay" by (simp add: tables.mem_del assms(2))
  show ?thesis
    using next_owner_hd [OF ids_ok_remove [OF assms(1)], of "rm_id room" "rm_id room" u] m
    by (auto simp: leave_resp_def Let_def split: list.splits)
qed

section \<open>The list of users\<close>

text \<open>Host first, then in the order of entry, when every member has a row in \<open>users\<close>.\<close>

definition users_ok :: "database \<Rightarrow> bool" where
  "users_ok d \<longleftrightarrow> distinct (map u_id (d_users d)) \<and>
     (\<forall>ru \<in> set (d_room_users d). ru_user ru \<in> u_id ` set (d_users d))"

lemma concat_if_filter: "concat (map (\<lambda>x. if P x then [f x] else []) xs) = map f (filter P xs)"
  by (induction xs) simp_all

lemma concat_single:
  assumes "distinct (map f xs)" "y \<in> set xs"
  shows "concat (map (\<lambda>x. if f y = f x then [g x] else []) xs) = [g y]"
  using assms
proof (induction xs)
  case (Cons x xs)
  show ?case
  proof (cases "y = x")
    case True
    with Cons.prems have "concat (map (\<lambda>x. if f y = f x then [g x] else []) xs) = []"
      by (auto simp: concat_eq_Nil_conv)
    with True show ?thesis by simp
  next
    case False
    with Cons.prems have y: "y \<in> set xs" by simp
    then have "f y \<noteq> f x" using Cons.prems(1) by (metis distinct.simps(2) image_eqI list.set_map list.simps(9))
    with y Cons show ?thesis by simp
  qed
qed simp

text \<open>The row that the join makes of a member.\<close>

definition user_row :: "Room \<Rightarrow> user \<Rightarrow> room_user \<Rightarrow> RoomUser" where
  "user_row r u ru = \<lparr>us_ID = ru_id ru, us_UserID = u_id u, us_RoomID = ru_room ru,
     us_UserName = u_name u, us_IsReady = ru_ready ru, us_IsHost = (ru_user ru = rm_owner r)\<rparr>"

lemma room_rows_eq:
  assumes d: "ids_ok d" "users_ok d" and r: "r \<in> set (d_rooms d)"
  obtains name where "room_user_rows (rm_id r) d =
    map (\<lambda>ru. user_row r (name ru) ru) (filter (\<lambda>ru. ru_room ru = rm_id r) (d_room_users d))"
    "\<And>ru. ru \<in> set (d_room_users d) \<Longrightarrow> u_id (name ru) = ru_user ru \<and> name ru \<in> set (d_users d)"
proof -
  have "\<forall>ru \<in> set (d_room_users d). \<exists>u. u \<in> set (d_users d) \<and> u_id u = ru_user ru"
    using d(2) by (force simp: users_ok_def)
  then obtain name where n: "\<And>ru. ru \<in> set (d_room_users d) \<Longrightarrow> name ru \<in> set (d_users d) \<and> u_id (name ru) = ru_user ru"
    by metis
  have ur: "distinct (map u_id (d_users d))" "distinct (map rm_id (d_rooms d))"
    using d by (simp_all add: users_ok_def ids_ok_def)
  define rows where "rows ru = concat (map (\<lambda>u. if ru_user ru = u_id u
      then concat (map (\<lambda>q. if ru_room ru = rm_id q then if ru_room ru = rm_id r then [user_row q u ru] else [] else []) (d_rooms d))
      else []) (d_users d))" for ru
  have rows: "rows ru = (if ru_room ru = rm_id r then [user_row r (name ru) ru] else [])"
    if ru: "ru \<in> set (d_room_users d)" for ru
  proof (cases "ru_room ru = rm_id r")
    case True
    have "concat (map (\<lambda>q. if rm_id r = rm_id q then [user_row q u ru] else []) (d_rooms d)) = [user_row r u ru]" for u
      by (rule concat_single [OF ur(2) r])
    then have "rows ru = concat (map (\<lambda>u. if u_id (name ru) = u_id u then [user_row r u ru] else []) (d_users d))"
      using True n [OF ru] by (simp add: rows_def cong: if_cong)
    also have "\<dots> = [user_row r (name ru) ru]"
      using n [OF ru] by (intro concat_single [OF ur(1)]) simp
    finally show ?thesis using True by simp
  next
    case False
    then show ?thesis by (auto simp: rows_def concat_eq_Nil_conv)
  qed
  have "room_user_rows (rm_id r) d = concat (map rows (d_room_users d))"
    unfolding room_user_rows_def rows_def [abs_def] user_row_def by (rule refl)
  also have "\<dots> = concat (map (\<lambda>ru. if ru_room ru = rm_id r then [user_row r (name ru) ru] else []) (d_room_users d))"
    by (intro arg_cong [where f = concat] map_cong) (simp_all add: rows)
  also have "\<dots> = map (\<lambda>ru. user_row r (name ru) ru) (filter (\<lambda>ru. ru_room ru = rm_id r) (d_room_users d))"
    by (rule concat_if_filter)
  finally show ?thesis using that n by blast
qed

lemma filter_one: "distinct xs \<Longrightarrow> x \<in> set xs \<Longrightarrow> filter (\<lambda>y. y = x) xs = [x]"
  by (induction xs) (auto simp: filter_empty_conv)

lemma order_users_host_first:
  assumes d: "ids_ok d" "users_ok d" and r: "r \<in> set (d_rooms d)" and o: "rm_owner r \<in> set (members (rm_id r) d)"
  shows "map us_UserID (order_users (room_user_rows (rm_id r) d)) =
    rm_owner r # filter (\<lambda>u. u \<noteq> rm_owner r) (members (rm_id r) d)"
proof -
  define fs where "fs = filter (\<lambda>ru. ru_room ru = rm_id r) (d_room_users d)"
  obtain name where n: "room_user_rows (rm_id r) d = map (\<lambda>ru. user_row r (name ru) ru) fs"
    "\<And>ru. ru \<in> set (d_room_users d) \<Longrightarrow> u_id (name ru) = ru_user ru \<and> name ru \<in> set (d_users d)"
    using room_rows_eq [OF d r] unfolding fs_def by blast
  let ?rows = "map (\<lambda>ru. user_row r (name ru) ru) fs"
  have "sorted_wrt (<) (map ru_id fs)"
    using d(1) by (simp add: ids_ok_def fs_def sorted_wrt_map sorted_wrt_filter)
  then have "sorted (map us_ID ?rows)" by (simp add: user_row_def comp_def strict_sorted_imp_sorted)
  then have s: "sort_key us_ID ?rows = ?rows" by (rule sort_key_id_if_sorted)
  have u: "u_id (name ru) = ru_user ru" if "ru \<in> set fs" for ru
    using that n(2) by (simp add: fs_def)
  have "map us_UserID (filter us_IsHost ?rows) = filter (\<lambda>u. u = rm_owner r) (map ru_user fs)"
    "map us_UserID (filter (\<lambda>u. \<not> us_IsHost u) ?rows) = filter (\<lambda>u. u \<noteq> rm_owner r) (map ru_user fs)"
    by (simp_all add: filter_map comp_def user_row_def u)
  moreover have "filter (\<lambda>u. u = rm_owner r) (map ru_user fs) = [rm_owner r]"
    using filter_one [OF tables.mem_distinct [OF d(1)] o] by (simp add: members_def fs_def)
  ultimately show ?thesis
    by (simp add: order_users_def Let_def n(1) s) (simp add: members_def fs_def)
qed

section \<open>Who is told that all are ready\<close>

lemma host_of_order: "filter us_IsHost us = [x] \<Longrightarrow> host_of (order_users us) h = us_UserID x"
  by (auto simp: host_of_def order_users_def Let_def filter_sort dest: filter_eq_ConsD)

lemma set_order_users [simp]: "set (order_users us) = set us"
  by (auto simp: order_users_def Let_def)

lemma room_users_ready:
  assumes d: "ids_ok d" "users_ok d" and r: "r \<in> set (d_rooms d)"
  shows "(\<forall>u \<in> set (order_users (room_user_rows (rm_id r) d)). us_IsReady u) \<longleftrightarrow> all_ready (rm_id r) d"
proof -
  obtain name where "room_user_rows (rm_id r) d =
      map (\<lambda>ru. user_row r (name ru) ru) (filter (\<lambda>ru. ru_room ru = rm_id r) (d_room_users d))"
    using room_rows_eq [OF d r] by blast
  then show ?thesis by (auto simp: user_row_def all_ready_def)
qed

lemma room_users_host:
  assumes d: "ids_ok d" "users_ok d" and r: "r \<in> set (d_rooms d)" and o: "rm_owner r \<in> set (members (rm_id r) d)"
  shows "host_of (order_users (room_user_rows (rm_id r) d)) h = rm_owner r"
proof -
  let ?fs = "filter (\<lambda>ru. ru_room ru = rm_id r) (d_room_users d)"
  obtain name where n: "room_user_rows (rm_id r) d = map (\<lambda>ru. user_row r (name ru) ru) ?fs"
    "\<And>ru. ru \<in> set (d_room_users d) \<Longrightarrow> u_id (name ru) = ru_user ru \<and> name ru \<in> set (d_users d)"
    using room_rows_eq [OF d r] by blast
  have "map us_UserID (filter us_IsHost (room_user_rows (rm_id r) d)) =
      map (\<lambda>ru. u_id (name ru)) (filter (\<lambda>ru. ru_user ru = rm_owner r) ?fs)"
    by (simp add: n(1) filter_map comp_def user_row_def)
  also have "\<dots> = map ru_user (filter (\<lambda>ru. ru_user ru = rm_owner r) ?fs)"
    by (rule map_cong) (auto simp: n(2))
  also have "\<dots> = filter (\<lambda>u. u = rm_owner r) (members (rm_id r) d)"
    by (simp add: members_def filter_map comp_def)
  also have "\<dots> = [rm_owner r]" using tables.mem_distinct [OF d(1)] o by (rule filter_one)
  finally obtain x where x: "filter us_IsHost (room_user_rows (rm_id r) d) = [x]" "us_UserID x = rm_owner r"
    by (auto simp: map_eq_Cons_conv)
  then show ?thesis by (simp add: host_of_order)
qed

text \<open>What one connection receives of a broadcast.\<close>

lemma sends_other: "c \<notin> fst ` set items \<Longrightarrow> filter (\<lambda>p. fst p = c) (status_sends w code m a h items) = []"
  by (auto simp: status_sends_def filter_empty_conv image_iff split: if_splits prod.splits)

lemma status_sends_to:
  assumes "gm_ok items"
  shows "map snd (filter (\<lambda>p. fst p = c) (status_sends w code m a h items)) =
    (case gm_get items c of None \<Rightarrow> []
     | Some uid \<Rightarrow> if alive w c then m # (if a \<and> uid = h then [all_ready_msg code] else []) else [])"
  using assms
proof (induction items)
  case Nil
  then show ?case by (simp add: status_sends_def)
next
  case (Cons item items)
  obtain e uid where item: "item = (e, uid)" by force
  have split: "status_sends w code m a h (item # items) =
      status_sends w code m a h [item] @ status_sends w code m a h items"
    by (simp add: status_sends_def)
  have one: "status_sends w code m a h [item] = (if alive w e
      then (e, m) # (if a \<and> uid = h then [(e, all_ready_msg code)] else []) else [])"
    by (simp add: status_sends_def item)
  show ?case
  proof (cases "e = c")
    case True
    with Cons.prems item have "filter (\<lambda>p. fst p = c) (status_sends w code m a h items) = []"
      by (intro sends_other) (auto simp: gm_ok_def)
    with True show ?thesis unfolding split one by (simp add: item)
  next
    case False
    with Cons show ?thesis unfolding split one by (simp add: item gm_ok_def)
  qed
qed

lemma start_sends_to:
  assumes "gm_ok items"
  shows "map snd (filter (\<lambda>p. fst p = c) (map (\<lambda>(c, uid). (c, m)) (filter (\<lambda>(c, uid). alive w c) items))) =
    (if alive w c \<and> gm_get items c \<noteq> None then [m] else [])"
  using assms
proof (induction items)
  case (Cons item items)
  obtain e uid where item: "item = (e, uid)" by force
  show ?case
  proof (cases "e = c")
    case True
    with Cons.prems item have "c \<notin> fst ` set items" by (simp add: gm_ok_def)
    then have "filter (\<lambda>p. fst p = c) (map (\<lambda>(c, uid). (c, m)) (filter (\<lambda>(c, uid). alive w c) items)) = []"
      by (force simp: filter_empty_conv image_iff)
    with True item show ?thesis by simp
  next
    case False
    with Cons item show ?thesis by (auto simp: gm_ok_def split: if_splits)
  qed
qed simp

definition received :: "'z networld_scheme \<Rightarrow> 'z networld_scheme \<Rightarrow> conn \<Rightarrow> ws_msg list" where
  "received w w' c = map snd (filter (\<lambda>p. fst p = c) (drop (length (w_sent w)) (w_sent w')))"

end
