(* ===== verification/Room_Ws.thy ===== *)
theory Room_Ws
  imports Lobby_Results
begin

text \<open>
  \<open>GameRoomWebSocketHandler\<close> (room_websocket.go): the life of one lobby connection. The frames
  the client sends are the argument \<open>frames\<close>; when they end, \<open>ReadMessage\<close> fails, the loop
  breaks and the deferred calls run, last one first: ready is taken back, the connection
  leaves the table, the others are told, the connection is closed. The goroutine that pings the
  client, the read limit and the read deadline do not touch the state and are left out; a
  deadline that passes is the end of the frames.
\<close>

text \<open>A received message: its type, and its JSON value (\<open>None\<close> when it does not parse).\<close>

datatype ws_frame =
    TextMessage "json option"
  | BinaryMessage "json option"
  | OtherMessage

definition register_conn :: "string \<Rightarrow> conn \<Rightarrow> int \<Rightarrow> ('z networld_scheme, unit) prog" where
  "register_conn roomCode c userID = atomic (\<lambda>w.
     ((), w\<lparr>w_roomConns := gm_put roomCode (gm_put c userID (gm_sub (w_roomConns w) roomCode)) (w_roomConns w)\<rparr>))"

definition unregister_conn :: "string \<Rightarrow> conn \<Rightarrow> ('z networld_scheme, unit) prog" where
  "unregister_conn roomCode c = atomic (\<lambda>w.
     ((), w\<lparr>w_roomConns := gm_sub_del roomCode c (w_roomConns w)\<rparr>))"

definition Close :: "conn \<Rightarrow> ('z networld_scheme, unit) prog" where
  "Close c = atomic (\<lambda>w. ((), close_conn c w))"

text \<open>One turn of the receive loop on a text or binary message.\<close>

definition ready_message :: "string \<Rightarrow> int \<Rightarrow> json option \<Rightarrow> ('z networld_scheme, unit) prog" where
  "ready_message roomCode userID raw =
     (case decode_body ready_fields zero_ready raw of
        None \<Rightarrow> Ret ()
      | Some readyReq0 \<Rightarrow>
      let readyReq = (if rr_RoomCode readyReq0 \<noteq> roomCode then readyReq0\<lparr>rr_RoomCode := roomCode\<rparr>
                      else readyReq0) in
      bindp (GetRoomByCode (rr_RoomCode readyReq)) (\<lambda>res. case res of
        Inl e \<Rightarrow> Ret () | Inr room \<Rightarrow>
      bindp (UpdateUserReady (rm_id room) userID (rr_IsReady readyReq)) (\<lambda>res. case res of
        Inl e \<Rightarrow> Ret () | Inr _ \<Rightarrow>
      broadcastRoomStatus (rr_RoomCode readyReq))))"

fun receive_loop :: "string \<Rightarrow> int \<Rightarrow> ws_frame list \<Rightarrow> ('z networld_scheme, unit) prog" where
  "receive_loop roomCode userID [] = Ret ()"
| "receive_loop roomCode userID (TextMessage raw # fs) =
     bindp (ready_message roomCode userID raw) (\<lambda>_. receive_loop roomCode userID fs)"
| "receive_loop roomCode userID (BinaryMessage raw # fs) =
     bindp (ready_message roomCode userID raw) (\<lambda>_. receive_loop roomCode userID fs)"
| "receive_loop roomCode userID (OtherMessage # fs) = receive_loop roomCode userID fs"

definition disconnect :: "string \<Rightarrow> conn \<Rightarrow> int \<Rightarrow> int \<Rightarrow> ('z networld_scheme, unit) prog" where
  "disconnect roomCode c roomID userID =
     bindp (UpdateUserReady roomID userID False) (\<lambda>_.
     bindp (unregister_conn roomCode c) (\<lambda>_.
     broadcastRoomStatus roomCode))"

definition GameRoomWebSocketHandler ::
    "bool \<Rightarrow> conn \<Rightarrow> ws_frame list \<Rightarrow> request \<Rightarrow> ('z networld_scheme, unit) prog" where
  "GameRoomWebSocketHandler upgraded c frames r =
     (if \<not> upgraded then Ret () else
      let roomCode = value_of (rq_vars r) ''room_code''; userID = GetUserID r in
      if userID = 0 then Close c else
      bindp (GetRoomByCode roomCode) (\<lambda>res. case res of
        Inl e \<Rightarrow> Close c | Inr room \<Rightarrow>
      bindp (IsUserInRoom (rm_id room) userID) (\<lambda>res. case res of
        Inl e \<Rightarrow> Close c | Inr inRoom \<Rightarrow>
      if \<not> inRoom then Close c else
      bindp (register_conn roomCode c userID) (\<lambda>_.
      bindp (broadcastRoomStatus roomCode) (\<lambda>_.
      bindp (receive_loop roomCode userID frames) (\<lambda>_.
      bindp (disconnect roomCode c (rm_id room) userID) (\<lambda>_.
      Close c)))))))"

section \<open>The table of connections under the broadcasts\<close>

text \<open>
  No broadcast adds a connection: \<open>conns_within w0 w\<close> says that every registered connection of
  \<open>w\<close> was registered, for the same user, in \<open>w0\<close>.
\<close>

definition registered :: "string \<Rightarrow> 'z networld_scheme \<Rightarrow> conn \<Rightarrow> int option" where
  "registered code w c = gm_get (gm_sub (w_roomConns w) code) c"

definition conns_within :: "'y networld_scheme \<Rightarrow> 'z networld_scheme \<Rightarrow> bool" where
  "conns_within w0 w \<longleftrightarrow> (\<forall>code c uid. registered code w c = Some uid \<longrightarrow> registered code w0 c = Some uid)"

lemma conns_within_refl [simp]: "conns_within w w"
  by (simp add: conns_within_def)

lemma conns_within_trans: "conns_within w0 w1 \<Longrightarrow> conns_within w1 w2 \<Longrightarrow> conns_within w0 w2"
  by (simp add: conns_within_def)

lemma registered_frame [simp]:
  "registered code (w\<lparr>w_db := d\<rparr>) = registered code w"
  "registered code (w\<lparr>w_faults := fs\<rparr>) = registered code w"
  "registered code (w\<lparr>w_sent := ms\<rparr>) = registered code w"
  "registered code (w\<lparr>w_closed := cs\<rparr>) = registered code w"
  by (simp_all add: registered_def fun_eq_iff)

lemma conns_within_frame [simp]:
  "conns_within w0 (w\<lparr>w_db := d\<rparr>) = conns_within w0 w"
  "conns_within w0 (w\<lparr>w_faults := fs\<rparr>) = conns_within w0 w"
  "conns_within w0 (w\<lparr>w_sent := ms\<rparr>) = conns_within w0 w"
  "conns_within w0 (w\<lparr>w_closed := cs\<rparr>) = conns_within w0 w"
  by (simp_all add: conns_within_def)

lemma conns_within_sub_del:
  "conns_within w0 w \<Longrightarrow> conns_within w0 (w\<lparr>w_roomConns := gm_sub_del k c (w_roomConns w)\<rparr>)"
  by (auto simp: conns_within_def registered_def split: if_splits)

lemma conns_within_drop: "conns_within w0 w \<Longrightarrow> conns_within w0 (drop_conns code cs w)"
  by (induction cs arbitrary: w) (simp_all add: close_conn_def conns_within_sub_del)

lemma within_write [stable_intros]: "stable (conns_within w0) (WriteJSON c m)"
  unfolding WriteJSON_def by (rule stable_atomic) simp

lemma within_drop [stable_intros]: "stable (conns_within w0) (drop_failed code cs)"
  unfolding drop_failed_def by (intro stable_intros stable_atomic) (simp add: conns_within_drop)

lemma within_send [stable_intros]: "stable (conns_within w0) (send_status code m b h items cs)"
  by (induction items arbitrary: cs) (auto simp: split_paired_all intro!: stable_intros)

lemma within_snapshot [stable_intros]: "stable (conns_within w0) (snapshot_room code)"
  unfolding snapshot_room_def by (rule stable_atomic) simp

lemma within_sql [stable_intros]: "stable (conns_within w0) (sql q)"
  by (rule stable_sql) simp_all

lemma within_broadcast [stable_intros]: "stable (conns_within w0) (broadcastRoomStatus code)"
  unfolding broadcastRoomStatus_def GetRoomByCode_def GetUsersInRoom_def by (intro stable_intros)

lemma within_ready [stable_intros]: "stable (conns_within w0) (ready_message code uid raw)"
  unfolding ready_message_def GetRoomByCode_def UpdateUserReady_def Let_def
  by (intro stable_intros)

lemma within_loop [stable_intros]: "stable (conns_within w0) (receive_loop code uid frames)"
  by (induction code uid frames rule: receive_loop.induct) (auto intro!: stable_intros)

lemma within_run: "stable (conns_within w) p \<Longrightarrow> conns_within w (snd (run p w))"
  by (rule stable_run) simp_all

section \<open>After the session\<close>

text \<open>Once it is over, the connection is closed and in no table, whatever happened meanwhile.\<close>

lemma wp_within:
  assumes "stable (conns_within w) p" "\<And>a w'. conns_within w w' \<Longrightarrow> Q a w'"
  shows "wp p Q w"
  using within_run [OF assms(1)] assms(2) by (simp add: wp_run)

lemma wp_register:
  assumes "\<And>w'. (\<And>k e. registered k w' e = (if k = code \<and> e = c then Some uid else registered k w e)) \<Longrightarrow>
     w_db w' = w_db w \<Longrightarrow> w_closed w' = w_closed w \<Longrightarrow> Q () w'"
  shows "wp (register_conn code c uid) Q w"
  unfolding register_conn_def using assms
  by (intro wp_atomic) (simp add: registered_def split: prod.split)

lemma wp_unregister:
  assumes "\<And>w'. (\<And>k e. registered k w' e = (if k = code \<and> e = c then None else registered k w e)) \<Longrightarrow>
     w_db w' = w_db w \<Longrightarrow> w_closed w' = w_closed w \<Longrightarrow> Q () w'"
  shows "wp (unregister_conn code c) Q w"
  unfolding unregister_conn_def using assms
  by (intro wp_atomic) (simp add: registered_def split: prod.split)

lemma wp_Close:
  assumes "Q () (close_conn c w)"
  shows "wp (Close c) Q w"
  unfolding Close_def using assms by (intro wp_atomic) simp


lemma registered_close [simp]: "registered k (close_conn c w) = registered k w"
  by (simp add: close_conn_def)

lemma within_none: "conns_within w w' \<Longrightarrow> registered k w c = None \<Longrightarrow> registered k w' c = None"
  by (metis conns_within_def not_None_eq)

lemma session_end:
  assumes "\<And>k. registered k w c = None"
  shows "wp (GameRoomWebSocketHandler True c frames r)
    (\<lambda>_ w'. (\<forall>k. registered k w' c = None) \<and> c \<in> set (w_closed w')) w"
proof -
  have close: "wp (Close c) (\<lambda>_ w'. (\<forall>k. registered k w' c = None) \<and> c \<in> set (w_closed w')) v"
    if "\<And>k. registered k v c = None" for v :: "'a networld_scheme"
    using that by (intro wp_Close) (auto simp: close_conn_def)
  have disc: "wp (disconnect code c rid uid) (\<lambda>_ w'. \<forall>k. registered k w' c = None) v"
    if "\<And>k. k \<noteq> code \<Longrightarrow> registered k v c = None" for v :: "'a networld_scheme" and code rid uid
    unfolding disconnect_def UpdateUserReady_def
    by (intro wp_intros wp_update wp_unregister wp_within [OF within_broadcast] allI;
        erule within_none; simp add: that)
  show ?thesis
    unfolding GameRoomWebSocketHandler_def Let_def
    by (auto intro!: wp_intros wp_GetRoomByCode wp_IsUserInRoom wp_register close wp_mono [OF disc]
        wp_within [OF within_broadcast] wp_within [OF within_loop] simp: assms)
      (erule within_none, erule within_none, simp add: assms)+
qed

text \<open>
  A client that is not authenticated, or not a member of the room, never enters the table,
  receives nothing, and changes nothing; its connection is closed.
\<close>

lemma session_refused:
  assumes "GetUserID r = 0 \<or> (\<forall>room. room_by_code (value_of (rq_vars r) ''room_code'') (w_db w) = Inr room \<longrightarrow>
     GetUserID r \<notin> set (members (rm_id room) (w_db w)))"
  shows "wp (GameRoomWebSocketHandler True c frames r)
    (\<lambda>_ w'. w_db w' = w_db w \<and> w_roomConns w' = w_roomConns w \<and> w_sent w' = w_sent w \<and>
       w_closed w' = c # w_closed w) w"
  unfolding GameRoomWebSocketHandler_def Let_def using assms
  by (auto intro!: wp_intros wp_GetRoomByCode wp_IsUserInRoom wp_Close simp: close_conn_def)

section \<open>The ready flag\<close>

text \<open>
  Where no statement fails, the tables after a session differ from those before in the ready
  flag of the user alone, and that is off.
\<close>

definition only_ready :: "database \<Rightarrow> int \<Rightarrow> int \<Rightarrow> 'z dbworld_scheme \<Rightarrow> bool" where
  "only_ready d rid uid w \<longleftrightarrow> w_faults w = [] \<and> (w_db w = d \<or> (\<exists>b. w_db w = set_ready rid uid b d))"

lemma set_ready_twice [simp]: "set_ready r u a (set_ready r u b d) = set_ready r u a d"
  by (simp add: set_ready_def)

lemma room_by_code_set_ready [simp]: "room_by_code code (set_ready r u b d) = room_by_code code d"
  by (simp add: room_by_code_def set_ready_def)

lemma stable_sql_bind:
  assumes "\<And>w. P w \<Longrightarrow> w_faults w = []"
    and "\<And>w r d. P w \<Longrightarrow> q (w_db w) = (r, d) \<Longrightarrow>
      P (w\<lparr>w_db := d, w_faults := []\<rparr>) \<and> stable P (h r)"
  shows "stable P (bindp (sql q) h)"
  using assms by (auto simp: sql_def atomic_def split: prod.split)

lemma stable_sql_nofault:
  assumes "\<And>w. P w \<Longrightarrow> w_faults w = []"
    and "\<And>w r d. P w \<Longrightarrow> q (w_db w) = (r, d) \<Longrightarrow> P (w\<lparr>w_db := d, w_faults := []\<rparr>)"
  shows "stable P (sql q)"
  using stable_sql_bind [of P q Ret] assms by simp

lemma only_ready_broadcast: "stable (only_ready d rid uid) (broadcastRoomStatus code)"
proof -
  have drop: "w_faults (drop_conns code cs w) = w_faults w" for cs and w :: "'b networld_scheme"
    by (induction cs arbitrary: w) (simp_all add: close_conn_def)
  have wr: "stable (only_ready d rid uid) (WriteJSON c m)" for c m
    unfolding WriteJSON_def by (rule stable_atomic) (auto simp: only_ready_def)
  have send: "stable (only_ready d rid uid) (send_status code m b h items cs)" for m b h items cs
    by (induction items arbitrary: cs) (auto simp: split_paired_all intro!: stable_intros wr)
  have "stable (only_ready d rid uid) (drop_failed code cs)" for cs
    unfolding drop_failed_def
    by (intro stable_intros stable_atomic) (auto simp: only_ready_def drop)
  with send show ?thesis
    unfolding broadcastRoomStatus_def GetRoomByCode_def GetUsersInRoom_def
    by (auto intro!: stable_intros stable_sql_bind stable_atomic
        simp: snapshot_room_def only_ready_def split: prod.splits)
qed

lemma only_ready_message:
  assumes "room_by_code code d = Inr room"
  shows "stable (only_ready d (rm_id room) uid) (ready_message code uid raw)"
proof -
  have "stable (only_ready d (rm_id room) uid) (UpdateUserReady (rm_id room) uid b)" for b
    unfolding UpdateUserReady_def by (rule stable_sql_nofault) (auto simp: only_ready_def)
  with assms show ?thesis
    unfolding ready_message_def GetRoomByCode_def Let_def
    by (auto intro!: stable_intros stable_sql_bind only_ready_broadcast simp: only_ready_def)
qed

lemma only_ready_loop:
  assumes "room_by_code code d = Inr room"
  shows "stable (only_ready d (rm_id room) uid) (receive_loop code uid frames)"
proof (induction frames)
  case (Cons f fs)
  with assms show ?case by (cases f) (auto intro!: stable_intros only_ready_message)
qed simp

lemma only_ready_off:
  assumes "only_ready d rid uid w"
  shows "only_ready (set_ready rid uid False d) rid uid (snd (run (UpdateUserReady rid uid False) w)) \<and>
    w_db (snd (run (UpdateUserReady rid uid False) w)) = set_ready rid uid False d"
  using assms by (auto simp: UpdateUserReady_def run_sql only_ready_def)

lemma wp_stable:
  assumes "stable P p" "P w" "\<And>a w'. P w' \<Longrightarrow> Q a w'"
  shows "wp p Q w"
  using stable_run [OF assms(1,2)] assms(3) by (simp add: wp_run)

lemma session_ready_off:
  assumes "w_faults w = []" "room_by_code (value_of (rq_vars r) ''room_code'') (w_db w) = Inr room"
    and "GetUserID r \<in> set (members (rm_id room) (w_db w))" "GetUserID r \<noteq> 0"
  shows "w_db (snd (run (GameRoomWebSocketHandler True c frames r) w)) =
    set_ready (rm_id room) (GetUserID r) False (w_db w)"
proof -
  let ?code = "value_of (rq_vars r) ''room_code''" and ?uid = "GetUserID r" and ?rid = "rm_id room"
  let ?P = "only_ready (w_db w) ?rid ?uid"
  let ?Q = "\<lambda>_ v. w_db v = set_ready ?rid ?uid False (w_db w)"
  have close: "wp (Close c) ?Q v" if "?Q () v" for v :: "'a networld_scheme"
    using that by (intro wp_Close) (simp add: close_conn_def)
  have unreg: "wp (bindp (unregister_conn ?code c) (\<lambda>_. broadcastRoomStatus ?code)) ?Q v"
    if "?Q () v" for v :: "'a networld_scheme"
    using that by (intro wp_intros wp_unregister wp_broadcast)
      simp_all
  have disc: "wp (disconnect ?code c ?rid ?uid) ?Q v" if "?P v" for v :: "'a networld_scheme"
    using only_ready_off [OF that] unreg unfolding disconnect_def
    by (intro wp_bindp) (auto simp: wp_run [of "UpdateUserReady ?rid ?uid False"] wp_bindp)
  have reg: "stable ?P (register_conn ?code c ?uid)"
    unfolding register_conn_def by (rule stable_atomic) (auto simp: only_ready_def)
  have "wp (bindp (register_conn ?code c ?uid) (\<lambda>_. bindp (broadcastRoomStatus ?code) (\<lambda>_.
      bindp (receive_loop ?code ?uid frames) (\<lambda>_. bindp (disconnect ?code c ?rid ?uid) (\<lambda>_. Close c))))) ?Q v"
    if "?P v" for v :: "'a networld_scheme"
    by (intro wp_bindp wp_stable [OF reg that] wp_stable [OF only_ready_broadcast]
        wp_stable [OF only_ready_loop [OF assms(2)]] wp_mono [OF disc] close) simp_all
  then have "wp (GameRoomWebSocketHandler True c frames r) ?Q w"
    unfolding GameRoomWebSocketHandler_def Let_def
    using assms by (auto simp: wp_run run_simps GetRoomByCode_def run_IsUserInRoom only_ready_def)
  then show ?thesis by (simp add: wp_run)
qed

end
