(* ===== verification/Blackjack.thy ===== *)
theory Blackjack
  imports Room_Ws
begin

text \<open>
  The Blackjack table of a room: the bets (game_tip.go), the choice of the dealer
  (game_dealer.go), the order of the players (player_order.go) and the connection handler
  (game_websocket.go). \<open>bj_states\<close> is \<open>bjRoomStates\<close>, \<open>bj_conns\<close> is \<open>bjRoomConns\<close>. Chips and bets
  are Go \<open>int\<close>, words of 64 bits whose subtraction wraps around. A section under \<open>bjMu\<close> is one
  step. The broadcast of the bets ranges over the live connection map after it has released
  the mutex: an entry that goes away meanwhile is not visited any more.
\<close>

section \<open>State\<close>

record BJRoomState =
  bj_Players :: "(int, BJBetPlayerState) gomap"
  bj_DealerID :: int

record bjworld = networld +
  bj_states :: "(string, BJRoomState) gomap"
  bj_conns :: "(string, (conn, int) gomap) gomap"

section \<open>game_dealer.go\<close>

text \<open>\<open>raw\<close> is the draw of the random generator; \<open>range\<close> visits the keys in the order of the list.\<close>

definition EnsureDealerAssigned :: "nat \<Rightarrow> BJRoomState \<Rightarrow> int \<times> BJRoomState" where
  "EnsureDealerAssigned raw state =
     (if bj_DealerID state \<noteq> 0 then (bj_DealerID state, state) else
      let ids = map fst (bj_Players state) in
      if length ids = 0 then (0, state) else
      let dealerID = ids ! Intn raw (length ids);
          state1 = state\<lparr>bj_DealerID := dealerID\<rparr> in
      case gm_get (bj_Players state1) dealerID of
        None \<Rightarrow> (dealerID, state1)
      | Some p \<Rightarrow> (dealerID, state1\<lparr>bj_Players :=
          gm_put dealerID (p\<lparr>bp_Bet := 0, bp_Confirmed := True\<rparr>) (bj_Players state1)\<rparr>))"

section \<open>The bets\<close>

record BetCommand =
  bc_Type :: string
  bc_Bet :: int
  bc_Confirm :: bool

definition bet_fields :: "BetCommand fields" where
  "bet_fields =
     [(''type'', dec_string (\<lambda>s r. r\<lparr>bc_Type := s\<rparr>)),
      (''bet'', dec_int (\<lambda>n r. r\<lparr>bc_Bet := n\<rparr>)),
      (''confirm'', dec_bool (\<lambda>b r. r\<lparr>bc_Confirm := b\<rparr>))]"

definition zero_bet :: BetCommand where
  "zero_bet = \<lparr>bc_Type = [], bc_Bet = 0, bc_Confirm = False\<rparr>"

text \<open>
  The update of the player: \<open>None\<close> when it is ignored (a negative bet, or not enough chips
  for the difference).
\<close>

definition update_bet :: "i64 \<Rightarrow> bool \<Rightarrow> BJBetPlayerState \<Rightarrow> BJBetPlayerState option" where
  "update_bet bet confirm p =
     (if sint bet < 0 then None else
      let oldBet = bp_Bet p; newBet = bet; delta = newBet - oldBet in
      if 0 < sint delta then
        if sint (bp_TotalChips p) < sint delta then None
        else Some (p\<lparr>bp_TotalChips := bp_TotalChips p - delta, bp_Bet := bet, bp_Confirmed := confirm\<rparr>)
      else if sint delta < 0 then
        Some (p\<lparr>bp_TotalChips := bp_TotalChips p - delta, bp_Bet := bet, bp_Confirmed := confirm\<rparr>)
      else Some (p\<lparr>bp_Bet := bet, bp_Confirmed := confirm\<rparr>))"

text \<open>The locked section of a \<open>bet_update\<close>: the table after it, \<open>None\<close> when it is ignored.\<close>

definition place_bet :: "int \<Rightarrow> i64 \<Rightarrow> bool \<Rightarrow> BJRoomState \<Rightarrow> BJRoomState option" where
  "place_bet userID bet confirm st =
     (case gm_get (bj_Players st) userID of
        None \<Rightarrow> None
      | Some p \<Rightarrow>
          if bj_DealerID st = userID then None else
          (case update_bet bet confirm p of
             None \<Rightarrow> None
           | Some p' \<Rightarrow> Some (st\<lparr>bj_Players := gm_put userID p' (bj_Players st)\<rparr>)))"

section \<open>broadcastBetState\<close>

fun scan_players :: "int \<Rightarrow> (int \<times> BJBetPlayerState) list \<Rightarrow> BJBetPlayerState list \<times> bool \<Rightarrow>
    BJBetPlayerState list \<times> bool" where
  "scan_players dealerID [] acc = acc"
| "scan_players dealerID ((uid, p) # ps) (players, allConfirmed) =
     scan_players dealerID ps (players @ [p],
       (if bp_UserID p = dealerID then allConfirmed
        else if \<not> bp_Confirmed p then False else allConfirmed))"

definition bet_state_msg :: "string \<Rightarrow> BJRoomState \<Rightarrow> ws_msg" where
  "bet_state_msg roomCode state =
     (case scan_players (bj_DealerID state) (bj_Players state) ([], True) of (players, allConfirmed) \<Rightarrow>
      BetState \<lparr>bs_Type = ''bet_state'', bs_RoomCode = roomCode, bs_Players = players,
        bs_AllConfirmed = allConfirmed\<rparr>)"

definition still_there :: "string \<Rightarrow> conn \<Rightarrow> ('z bjworld_scheme, bool) prog" where
  "still_there roomCode c = atomic (\<lambda>w. (gm_get (gm_sub (bj_conns w) roomCode) c \<noteq> None, w))"

fun send_bets :: "string \<Rightarrow> ws_msg \<Rightarrow> (conn \<times> int) list \<Rightarrow> conn list \<Rightarrow>
    ('z bjworld_scheme, conn list) prog" where
  "send_bets roomCode res [] toDelete = Ret toDelete"
| "send_bets roomCode res ((c, uid) # items) toDelete =
     bindp (still_there roomCode c) (\<lambda>there.
       if \<not> there then send_bets roomCode res items toDelete
       else bindp (WriteJSON c res) (\<lambda>ok.
         send_bets roomCode res items (if ok then toDelete else toDelete @ [c])))"

fun drop_bj_conns :: "string \<Rightarrow> conn list \<Rightarrow> 'z bjworld_scheme \<Rightarrow> 'z bjworld_scheme" where
  "drop_bj_conns roomCode [] w = w"
| "drop_bj_conns roomCode (c # cs) w =
     drop_bj_conns roomCode cs (close_conn c (w\<lparr>bj_conns := gm_sub_del roomCode c (bj_conns w)\<rparr>))"

definition broadcastBetState :: "string \<Rightarrow> ('z bjworld_scheme, unit) prog" where
  "broadcastBetState roomCode =
     bindp (atomic (\<lambda>w. (map_option (bet_state_msg roomCode) (gm_get (bj_states w) roomCode), w)))
       (\<lambda>locked. case locked of None \<Rightarrow> Ret () | Some res \<Rightarrow>
     bindp (atomic (\<lambda>w. (gm_sub (bj_conns w) roomCode, w))) (\<lambda>conns.
     bindp (send_bets roomCode res conns []) (\<lambda>toDelete.
       if toDelete = [] then Ret ()
       else atomic (\<lambda>w. ((), drop_bj_conns roomCode toDelete w)))))"

section \<open>The connection handler\<close>

text \<open>The player's entry at the table, added on the first connection that finds the user in the room.\<close>

definition new_player :: "RoomUser \<Rightarrow> BJBetPlayerState" where
  "new_player u = \<lparr>bp_UserID = us_UserID u, bp_Name = us_UserName u, bp_Bet = 0,
     bp_Confirmed = False, bp_TotalChips = 1000\<rparr>"

fun add_players :: "RoomUser list \<Rightarrow> BJRoomState \<Rightarrow> BJRoomState" where
  "add_players [] state = state"
| "add_players (u # us) state = add_players us
     (case gm_get (bj_Players state) (us_UserID u) of
        Some _ \<Rightarrow> state
      | None \<Rightarrow> state\<lparr>bj_Players := gm_put (us_UserID u) (new_player u) (bj_Players state)\<rparr>)"

definition init_state :: "nat \<Rightarrow> RoomUser list \<Rightarrow> BJRoomState option \<Rightarrow> int \<times> BJRoomState" where
  "init_state raw users st =
     (let state = (case st of Some s \<Rightarrow> s | None \<Rightarrow> \<lparr>bj_Players = [], bj_DealerID = 0\<rparr>)
      in EnsureDealerAssigned raw (add_players users state))"

definition enter_table :: "nat \<Rightarrow> string \<Rightarrow> conn \<Rightarrow> int \<Rightarrow> RoomUser list \<Rightarrow> ('z bjworld_scheme, int) prog" where
  "enter_table raw roomCode c userID users = atomic (\<lambda>w.
     case init_state raw users (gm_get (bj_states w) roomCode) of (dealerID, state) \<Rightarrow>
       (dealerID, w\<lparr>bj_states := gm_put roomCode state (bj_states w),
          bj_conns := gm_put roomCode (gm_put c userID (gm_sub (bj_conns w) roomCode)) (bj_conns w)\<rparr>))"

definition order_info :: "int \<Rightarrow> RoomUser \<Rightarrow> PlayerInfo" where
  "order_info dealerID u = (player_info u)\<lparr>pi_IsDealer := (us_UserID u = dealerID)\<rparr>"

definition SendPlayerOrder :: "conn \<Rightarrow> PlayerInfo list \<Rightarrow> ('z networld_scheme, bool) prog" where
  "SendPlayerOrder c players =
     WriteJSON c (PlayerOrder \<lparr>po_Type = ''player_order'', po_Players = players\<rparr>)"

text \<open>One received message of the loop.\<close>

definition bet_message :: "string \<Rightarrow> int \<Rightarrow> json option \<Rightarrow> ('z bjworld_scheme, unit) prog" where
  "bet_message roomCode userID raw =
     (case decode_body bet_fields zero_bet raw of
        None \<Rightarrow> Ret ()
      | Some cmd \<Rightarrow>
      if bc_Type cmd \<noteq> ''bet_update'' then Ret () else
      bindp (atomic (\<lambda>w. case gm_get (bj_states w) roomCode of
          None \<Rightarrow> (False, w)
        | Some st \<Rightarrow> (case place_bet userID (word_of_int (bc_Bet cmd)) (bc_Confirm cmd) st of
              None \<Rightarrow> (False, w)
            | Some st' \<Rightarrow> (True, w\<lparr>bj_states := gm_put roomCode st' (bj_states w)\<rparr>))))
        (\<lambda>updated. if updated then broadcastBetState roomCode else Ret ()))"

fun bet_loop :: "string \<Rightarrow> int \<Rightarrow> json option list \<Rightarrow> ('z bjworld_scheme, unit) prog" where
  "bet_loop roomCode userID [] = Ret ()"
| "bet_loop roomCode userID (raw # fs) =
     bindp (bet_message roomCode userID raw) (\<lambda>_. bet_loop roomCode userID fs)"

definition leave_table :: "string \<Rightarrow> conn \<Rightarrow> ('z bjworld_scheme, unit) prog" where
  "leave_table roomCode c = atomic (\<lambda>w.
     case gm_get (bj_conns w) roomCode of
       None \<Rightarrow> ((), w)
     | Some m \<Rightarrow>
         (let m' = gm_del c m in
          ((), w\<lparr>bj_conns := (if m' = [] then gm_del roomCode (gm_put roomCode m' (bj_conns w))
                             else gm_put roomCode m' (bj_conns w))\<rparr>)))"

text \<open>
  The handler from the memory state on. \<open>startActionTimer\<close> starts a goroutine of its own, which
  is the program \<open>startActionTimer\<close> of theory \<open>Timer\<close>; the handler only passes this point.
\<close>

definition play_table :: "nat \<Rightarrow> string \<Rightarrow> conn \<Rightarrow> int \<Rightarrow> RoomUser list \<Rightarrow> json option list \<Rightarrow>
    ('z bjworld_scheme, unit) prog" where
  "play_table raw roomCode c userID users frames =
     bindp (enter_table raw roomCode c userID users) (\<lambda>dealerID.
     bindp (SendPlayerOrder c (map (order_info dealerID) users)) (\<lambda>_.
     bindp (broadcastBetState roomCode) (\<lambda>_.
     bindp (bet_loop roomCode userID frames) (\<lambda>_.
     bindp (leave_table roomCode c) (\<lambda>_.
     Close c)))))"

definition BlackjackWebSocketHandle ::
    "bool \<Rightarrow> nat \<Rightarrow> conn \<Rightarrow> json option list \<Rightarrow> request \<Rightarrow> ('z bjworld_scheme, unit) prog" where
  "BlackjackWebSocketHandle upgraded raw c frames r =
     (if \<not> upgraded then Ret () else
      let roomCode = value_of (rq_vars r) ''room_code''; userID = GetUserID r in
      if userID = 0 then Close c else
      bindp (GetRoomByCode roomCode) (\<lambda>res. case res of
        Inl e \<Rightarrow> Close c | Inr room \<Rightarrow>
      bindp (GetUsersInRoom (rm_id room)) (\<lambda>res. case res of
        Inl e \<Rightarrow> Close c | Inr users \<Rightarrow>
      if length users = 0 then Close c else
      play_table raw roomCode c userID users frames)))"

end
