(* ===== verification/Blackjack_Inv.thy ===== *)
theory Blackjack_Inv
  imports Blackjack
begin

text \<open>
  The chips of a Blackjack table. Bets and purse of every player add up to the 1000 chips
  handed out, with no overflow of the words; the dealer is chosen once and never bets.
  \<open>betting_table\<close> is the abstract contract (a ledger in which a bet is any amount up to the
  capital); the model of the code refines it. The invariant is kept by every single step of
  the handlers, so it holds under every interleaving of connections.
\<close>

section \<open>The contract of a table\<close>

locale betting_table =
  fixes stake :: "'t \<Rightarrow> int \<Rightarrow> int option"
    and purse :: "'t \<Rightarrow> int \<Rightarrow> int option"
    and place :: "int \<Rightarrow> int \<Rightarrow> 't \<Rightarrow> 't"
    and banker :: "'t \<Rightarrow> int"
    and capital :: int
    and ok :: "'t \<Rightarrow> bool"
  assumes ok_place: "ok t \<Longrightarrow> ok (place k n t)"
    and conserved: "ok t \<Longrightarrow> stake t k = Some b \<Longrightarrow> 0 \<le> b \<and> (\<exists>p. purse t k = Some p \<and> 0 \<le> p \<and> b + p = capital)"
    and banker_place: "ok t \<Longrightarrow> banker (place k n t) = banker t"
    and stake_place: "ok t \<Longrightarrow> - (2 ^ 63) \<le> n \<Longrightarrow> n < 2 ^ 63 \<Longrightarrow> stake (place k n t) j =
      (if j = k \<and> k \<noteq> banker t \<and> 0 \<le> n \<and> n \<le> capital \<and> stake t k \<noteq> None then Some n else stake t j)"
begin

fun places :: "(int \<times> int) list \<Rightarrow> 't \<Rightarrow> 't" where
  "places [] t = t"
| "places ((k, n) # bs) t = places bs (place k n t)"

lemma ok_places: "ok t \<Longrightarrow> ok (places bs t)"
  by (induction bs t rule: places.induct) (auto intro: ok_place)

lemma banker_places: "ok t \<Longrightarrow> banker (places bs t) = banker t"
  by (induction bs t rule: places.induct) (auto simp: banker_place ok_place)

lemma stake_bounds: "ok t \<Longrightarrow> stake (places bs t) k = Some b \<Longrightarrow> 0 \<le> b \<and> b \<le> capital"
  using conserved [OF ok_places, of t bs k b] by force

text \<open>The banker's stake never changes, and a player's stake is the last one that was allowed.\<close>

lemma banker_stake:
  "ok t \<Longrightarrow> \<forall>(k, n) \<in> set bs. - (2 ^ 63) \<le> n \<and> n < 2 ^ 63 \<Longrightarrow>
   stake (places bs t) (banker t) = stake t (banker t)"
proof (induction bs t rule: places.induct)
  case (2 k n bs t)
  then show ?case using stake_place [of t n k "banker t"] banker_place [of t k n] ok_place [of t k n]
    by auto
qed simp

lemma last_stake:
  assumes "ok t" "k \<noteq> banker t" "stake t k \<noteq> None" "0 \<le> n" "n \<le> capital" "capital < 2 ^ 63"
  shows "stake (place k n t) k = Some n"
  using assms by (simp add: stake_place)

end

section \<open>The invariant of the model\<close>

definition player_ok :: "int \<Rightarrow> BJBetPlayerState \<Rightarrow> bool" where
  "player_ok k p \<longleftrightarrow> bp_UserID p = k \<and> 0 \<le> sint (bp_Bet p) \<and> 0 \<le> sint (bp_TotalChips p) \<and>
     sint (bp_Bet p) + sint (bp_TotalChips p) = 1000"

definition pre_ok :: "BJRoomState \<Rightarrow> bool" where
  "pre_ok st \<longleftrightarrow> gm_ok (bj_Players st) \<and>
     (\<forall>k p. gm_get (bj_Players st) k = Some p \<longrightarrow> player_ok k p) \<and>
     (bj_DealerID st = 0 \<longrightarrow> (\<forall>k p. gm_get (bj_Players st) k = Some p \<longrightarrow> bp_Bet p = 0 \<and> k \<noteq> 0)) \<and>
     (bj_DealerID st \<noteq> 0 \<longrightarrow> (\<exists>p. gm_get (bj_Players st) (bj_DealerID st) = Some p \<and>
        bp_Bet p = 0 \<and> bp_Confirmed p))"

definition table_ok :: "BJRoomState \<Rightarrow> bool" where
  "table_ok st \<longleftrightarrow> pre_ok st \<and> bj_DealerID st \<noteq> 0"

text \<open>When a bet is allowed, and what it does, in terms of the signed values.\<close>

lemma update_bet_spec:
  assumes "player_ok k p"
  shows "update_bet bet confirm p =
     (if 0 \<le> sint bet \<and> sint bet \<le> 1000
      then Some (p\<lparr>bp_TotalChips := bp_TotalChips p - (bet - bp_Bet p), bp_Bet := bet, bp_Confirmed := confirm\<rparr>)
      else None)"
proof (cases "0 \<le> sint bet")
  case True
  with assms sint_i64_bounds [of bet] have d: "sint (bet - bp_Bet p) = sint bet - sint (bp_Bet p)"
    by (intro sint_i64_minus) (auto simp: player_ok_def)
  from assms have p: "0 \<le> sint (bp_Bet p)" "sint (bp_TotalChips p) = 1000 - sint (bp_Bet p)"
    by (auto simp: player_ok_def)
  have "bet = bp_Bet p" if "sint bet = sint (bp_Bet p)"
    using that by (rule signed_word_eqI)
  then consider (more) "sint (bp_Bet p) < sint bet" | (less) "sint bet < sint (bp_Bet p)"
    | (same) "bet = bp_Bet p"
    by linarith
  then show ?thesis
  proof cases
    case more
    with True p show ?thesis by (simp add: update_bet_def Let_def d)
  next
    case less
    with True p assms show ?thesis by (simp add: update_bet_def Let_def d player_ok_def)
  next
    case same
    with True p assms show ?thesis by (simp add: update_bet_def player_ok_def)
  qed
qed (simp add: update_bet_def)

lemma update_bet_ok:
  assumes "player_ok k p" "update_bet bet confirm p = Some p'"
  shows "player_ok k p'" "sint (bp_Bet p') = sint bet" "bp_Confirmed p' = confirm"
proof -
  from assms have b: "0 \<le> sint bet" "sint bet \<le> 1000" and p': "p' = p\<lparr>bp_TotalChips :=
      bp_TotalChips p - (bet - bp_Bet p), bp_Bet := bet, bp_Confirmed := confirm\<rparr>"
    by (auto simp: update_bet_spec split: if_splits)
  from assms b have d: "sint (bet - bp_Bet p) = sint bet - sint (bp_Bet p)"
    by (intro sint_i64_minus) (auto simp: player_ok_def)
  with assms b have "sint (bp_TotalChips p - (bet - bp_Bet p)) = sint (bp_TotalChips p) - (sint bet - sint (bp_Bet p))"
    by (subst sint_i64_minus) (auto simp: player_ok_def)
  with assms b p' show "player_ok k p'" "sint (bp_Bet p') = sint bet" "bp_Confirmed p' = confirm"
    by (auto simp: player_ok_def)
qed

lemma place_bet_ok:
  assumes "table_ok st" "place_bet uid bet confirm st = Some st'"
  shows "table_ok st'" "bj_DealerID st' = bj_DealerID st"
proof -
  from assms(2) obtain p p' where p: "gm_get (bj_Players st) uid = Some p" "bj_DealerID st \<noteq> uid"
    "update_bet bet confirm p = Some p'" "st' = st\<lparr>bj_Players := gm_put uid p' (bj_Players st)\<rparr>"
    by (auto simp: place_bet_def split: option.splits if_splits)
  from assms(1) p(1) have "player_ok uid p" by (auto simp: table_ok_def pre_ok_def)
  then have "player_ok uid p'" using p(3) by (rule update_bet_ok)
  with assms(1) p show "table_ok st'" "bj_DealerID st' = bj_DealerID st"
    by (auto simp: table_ok_def pre_ok_def)
qed

section \<open>The model refines the contract\<close>

definition stake_of :: "BJRoomState \<Rightarrow> int \<Rightarrow> int option" where
  "stake_of st k = map_option (\<lambda>p. sint (bp_Bet p)) (gm_get (bj_Players st) k)"

definition purse_of :: "BJRoomState \<Rightarrow> int \<Rightarrow> int option" where
  "purse_of st k = map_option (\<lambda>p. sint (bp_TotalChips p)) (gm_get (bj_Players st) k)"

text \<open>A bet of \<open>n\<close> chips as the handler does it: an ignored one leaves the table as it is.\<close>

definition do_bet :: "bool \<Rightarrow> int \<Rightarrow> int \<Rightarrow> BJRoomState \<Rightarrow> BJRoomState" where
  "do_bet confirm k n st = (case place_bet k (word_of_int n) confirm st of None \<Rightarrow> st | Some st' \<Rightarrow> st')"

lemma table_ok_player: "table_ok st \<Longrightarrow> gm_get (bj_Players st) k = Some p \<Longrightarrow> player_ok k p"
  by (simp add: table_ok_def pre_ok_def)

interpretation bj: betting_table stake_of purse_of "do_bet confirm" bj_DealerID 1000 table_ok
proof unfold_locales
  fix t k n
  show "table_ok t \<Longrightarrow> table_ok (do_bet confirm k n t)"
    by (auto simp: do_bet_def split: option.split dest: place_bet_ok)
  show "table_ok t \<Longrightarrow> bj_DealerID (do_bet confirm k n t) = bj_DealerID t"
    by (auto simp: do_bet_def split: option.split dest: place_bet_ok)
next
  fix t k b
  show "table_ok t \<Longrightarrow> stake_of t k = Some b \<Longrightarrow>
      0 \<le> b \<and> (\<exists>p. purse_of t k = Some p \<and> 0 \<le> p \<and> b + p = 1000)"
    using table_ok_player [of t k] by (auto simp: stake_of_def purse_of_def player_ok_def)
next
  fix t k j and n :: int
  assume t: "table_ok t" and n: "- (2 ^ 63) \<le> n" "n < 2 ^ 63"
  note s = sint_i64_of_int [OF n]
  show "stake_of (do_bet confirm k n t) j =
      (if j = k \<and> k \<noteq> bj_DealerID t \<and> 0 \<le> n \<and> n \<le> 1000 \<and> stake_of t k \<noteq> None then Some n else stake_of t j)"
  proof (cases "gm_get (bj_Players t) k")
    case None
    then show ?thesis by (auto simp: do_bet_def place_bet_def stake_of_def)
  next
    case (Some p)
    with t have "player_ok k p" by (rule table_ok_player)
    note u = update_bet_spec [OF this, of "word_of_int n" confirm, unfolded s]
    show ?thesis
    proof (cases "k \<noteq> bj_DealerID t \<and> 0 \<le> n \<and> n \<le> 1000")
      case True
      with Some s u show ?thesis by (auto simp: do_bet_def place_bet_def stake_of_def)
    next
      case False
      then have "place_bet k (word_of_int n) confirm t = None"
        using Some by (auto simp: place_bet_def u)
      with False show ?thesis by (auto simp: do_bet_def)
    qed
  qed
qed

lemma scan_players_eq:
  "scan_players dealer ps (acc, a) =
     (acc @ map snd ps, a \<and> (\<forall>p \<in> snd ` set ps. bp_UserID p = dealer \<or> bp_Confirmed p))"
  by (induction ps arbitrary: acc a) auto

lemma bet_state_eq:
  assumes "table_ok st"
  shows "bet_state_msg code st = BetState \<lparr>bs_Type = ''bet_state'', bs_RoomCode = code,
    bs_Players = map snd (bj_Players st),
    bs_AllConfirmed = (\<forall>k p. gm_get (bj_Players st) k = Some p \<longrightarrow> k \<noteq> bj_DealerID st \<longrightarrow> bp_Confirmed p)\<rparr>"
proof -
  have "gm_ok (bj_Players st)" using assms by (simp add: table_ok_def pre_ok_def)
  then have "(\<forall>p \<in> snd ` set (bj_Players st). bp_UserID p = bj_DealerID st \<or> bp_Confirmed p) \<longleftrightarrow>
      (\<forall>k p. gm_get (bj_Players st) k = Some p \<longrightarrow> bp_UserID p = bj_DealerID st \<or> bp_Confirmed p)"
    by (force simp: gm_ok_def)
  moreover have "bp_UserID p = k" if "gm_get (bj_Players st) k = Some p" for k p
    using table_ok_player [OF assms that] by (simp add: player_ok_def)
  ultimately show ?thesis by (auto simp: bet_state_msg_def scan_players_eq)
qed

text \<open>Who has confirmed after bets.\<close>

definition has_confirmed :: "BJRoomState \<Rightarrow> int \<Rightarrow> bool" where
  "has_confirmed st k \<longleftrightarrow> (\<exists>p. gm_get (bj_Players st) k = Some p \<and> bp_Confirmed p)"

lemma bet_seats: "dom (gm_get (bj_Players (do_bet b k n st))) = dom (gm_get (bj_Players st))"
  by (auto simp: do_bet_def place_bet_def split: option.splits if_splits)

lemma bet_confirms:
  assumes "table_ok st" "0 \<le> n" "n \<le> 1000"
  shows "has_confirmed (do_bet True k n st) j \<longleftrightarrow>
    has_confirmed st j \<or> (j = k \<and> k \<noteq> bj_DealerID st \<and> k \<in> dom (gm_get (bj_Players st)))"
proof (cases "gm_get (bj_Players st) k")
  case None
  then show ?thesis by (auto simp: do_bet_def place_bet_def has_confirmed_def)
next
  case (Some p)
  with assms(1) have "player_ok k p" by (rule table_ok_player)
  moreover have "sint (word_of_int n :: i64) = n" using assms(2,3) by (intro sint_i64_of_int) auto
  ultimately have "\<exists>p'. update_bet (word_of_int n) True p = Some p' \<and> bp_Confirmed p'"
    using assms(2,3) by (simp add: update_bet_spec)
  with Some show ?thesis by (auto simp: do_bet_def place_bet_def has_confirmed_def)
qed

section \<open>The dealer and the entry of players\<close>

lemma new_player_ok: "player_ok (us_UserID u) (new_player u)"
  by (simp add: player_ok_def new_player_def)

lemma pre_ok_put_new:
  assumes "pre_ok st" "us_UserID u \<noteq> 0" "gm_get (bj_Players st) (us_UserID u) = None"
  shows "pre_ok (st\<lparr>bj_Players := gm_put (us_UserID u) (new_player u) (bj_Players st)\<rparr>)"
proof -
  have "bp_Bet (new_player u) = 0" by (simp add: new_player_def)
  moreover have "bj_DealerID st \<noteq> 0 \<longrightarrow> bj_DealerID st \<noteq> us_UserID u"
    using assms by (auto simp: pre_ok_def)
  ultimately show ?thesis using assms new_player_ok [of u] by (simp add: pre_ok_def)
qed

lemma pre_ok_add:
  assumes "pre_ok st" "\<forall>u \<in> set us. us_UserID u \<noteq> 0"
  shows "pre_ok (add_players us st)"
  using assms
proof (induction us arbitrary: st)
  case (Cons u us)
  have "pre_ok (case gm_get (bj_Players st) (us_UserID u) of Some _ \<Rightarrow> st
      | None \<Rightarrow> st\<lparr>bj_Players := gm_put (us_UserID u) (new_player u) (bj_Players st)\<rparr>)"
    using Cons.prems by (simp add: pre_ok_put_new split: option.split)
  with Cons show ?case by simp
qed simp

lemma add_players_dealer [simp]: "bj_DealerID (add_players us st) = bj_DealerID st"
  by (induction us arbitrary: st) (auto split: option.split)

lemma add_players_keeps:
  "gm_get (bj_Players st) k = Some p \<Longrightarrow> gm_get (bj_Players (add_players us st)) k = Some p"
proof (induction us arbitrary: st)
  case (Cons u us)
  have "gm_get (bj_Players (case gm_get (bj_Players st) (us_UserID u) of Some _ \<Rightarrow> st
      | None \<Rightarrow> st\<lparr>bj_Players := gm_put (us_UserID u) (new_player u) (bj_Players st)\<rparr>)) k = Some p"
    using Cons.prems by (auto split: option.split)
  then show ?case by (simp add: Cons.IH)
qed simp

lemma add_players_has:
  "u \<in> set us \<Longrightarrow> \<exists>p. gm_get (bj_Players (add_players us st)) (us_UserID u) = Some p"
proof (induction us arbitrary: st)
  case (Cons v us)
  let ?st = "case gm_get (bj_Players st) (us_UserID v) of Some _ \<Rightarrow> st
      | None \<Rightarrow> st\<lparr>bj_Players := gm_put (us_UserID v) (new_player v) (bj_Players st)\<rparr>"
  show ?case
  proof (cases "u = v")
    case True
    have "\<exists>p. gm_get (bj_Players ?st) (us_UserID v) = Some p" by (auto split: option.split)
    with True show ?thesis by (auto dest: add_players_keeps)
  next
    case False
    with Cons show ?thesis by simp
  qed
qed simp

lemma ensure_dealer:
  assumes "pre_ok st" "bj_Players st \<noteq> []" "EnsureDealerAssigned raw st = (dealer, st')"
  shows "table_ok st'" "bj_DealerID st' = dealer" "bj_DealerID st \<noteq> 0 \<longrightarrow> st' = st"
    "dom (gm_get (bj_Players st')) = dom (gm_get (bj_Players st))"
proof -
  let ?ids = "map fst (bj_Players st)"
  let ?d = "?ids ! Intn raw (length ?ids)"
  have all: "table_ok st' \<and> bj_DealerID st' = dealer \<and> (bj_DealerID st \<noteq> 0 \<longrightarrow> st' = st) \<and>
      dom (gm_get (bj_Players st')) = dom (gm_get (bj_Players st))"
  proof (cases "bj_DealerID st = 0")
    case True
    have "?d \<in> set ?ids" using assms(2) by (intro nth_mem) (simp add: Intn_def)
    then obtain p where p: "gm_get (bj_Players st) ?d = Some p" by (metis map_of_eq_None_iff not_Some_eq set_map)
    with True assms(1) have "?d \<noteq> 0" "bp_Bet p = 0" "player_ok ?d p" by (auto simp: pre_ok_def)
    moreover from True p assms(2,3) have "dealer = ?d" "st' = st\<lparr>bj_DealerID := ?d,
        bj_Players := gm_put ?d (p\<lparr>bp_Bet := 0, bp_Confirmed := True\<rparr>) (bj_Players st)\<rparr>"
      by (auto simp: EnsureDealerAssigned_def Let_def)
    moreover have "dom (gm_get (gm_put ?d q (bj_Players st))) = dom (gm_get (bj_Players st))" for q
      using p by (auto simp: dom_def)
    ultimately show ?thesis using assms(1) p True
      by (auto simp: table_ok_def pre_ok_def player_ok_def)
  next
    case False
    with assms show ?thesis by (auto simp: EnsureDealerAssigned_def table_ok_def)
  qed
  then show "table_ok st'" "bj_DealerID st' = dealer" "bj_DealerID st \<noteq> 0 \<longrightarrow> st' = st"
    "dom (gm_get (bj_Players st')) = dom (gm_get (bj_Players st))" by auto
qed

lemma init_state_ok:
  assumes "\<And>s. st = Some s \<Longrightarrow> table_ok s" "users \<noteq> []" "\<forall>u \<in> set users. us_UserID u \<noteq> 0"
    "init_state raw users st = (dealer, st')"
  shows "table_ok st'" "bj_DealerID st' = dealer"
    "st = Some s \<Longrightarrow> dealer = bj_DealerID s"
    "st = Some s \<Longrightarrow> gm_get (bj_Players s) k = Some p \<Longrightarrow> gm_get (bj_Players st') k = Some p"
    "u \<in> set users \<Longrightarrow> us_UserID u \<in> dom (gm_get (bj_Players st'))"
proof -
  let ?s = "case st of Some s \<Rightarrow> s | None \<Rightarrow> \<lparr>bj_Players = [], bj_DealerID = 0\<rparr>"
  let ?t = "add_players users ?s"
  have "pre_ok ?s" using assms(1) by (cases st) (auto simp: table_ok_def pre_ok_def)
  then have pre: "pre_ok ?t" using assms(3) by (rule pre_ok_add)
  have has: "us_UserID u \<in> dom (gm_get (bj_Players ?t))" if "u \<in> set users" for u
    using add_players_has [OF that] by auto
  have ne: "bj_Players ?t \<noteq> []" using assms(2) has [of "hd users"] by force
  from assms(4) have e: "EnsureDealerAssigned raw ?t = (dealer, st')" by (simp add: init_state_def Let_def)
  note ed = ensure_dealer [OF pre ne e]
  from ed show "table_ok st'" "bj_DealerID st' = dealer" by blast+
  have same: "st' = ?t" "bj_DealerID s \<noteq> 0" if "st = Some s" for s
    using that ed(3) assms(1) by (auto simp: table_ok_def)
  then show "st = Some s \<Longrightarrow> dealer = bj_DealerID s" using ed(2) by auto
  show "st = Some s \<Longrightarrow> gm_get (bj_Players s) k = Some p \<Longrightarrow> gm_get (bj_Players st') k = Some p"
    using same(1) by (auto dest: add_players_keeps)
  show "u \<in> set users \<Longrightarrow> us_UserID u \<in> dom (gm_get (bj_Players st'))" using has ed(4) by blast
qed

end
