(* ===== verification/Timer.thy ===== *)
theory Timer
  imports Broadcasts
begin

text \<open>
  The action timer (game_timer.go): a goroutine that sends the remaining seconds, subtracts
  0.1 and waits for the ticker, until the remaining time is no longer positive or the client
  cannot be reached. The loop need not end for every start value (subtracting 0.1 from a large
  \<open>float64\<close> may change nothing), so it takes fuel: one unit for each message. The server starts
  it with 15.0, for which 152 units are enough.
\<close>

datatype timer_end = TimerFinished | TimerSendError | TimerRunning

definition tenth :: f64 where
  "tenth = f64_of_dec 1 (-1)"

definition timer_msg :: "f64 \<Rightarrow> ws_msg" where
  "timer_msg remaining = TimerMsg \<lparr>tm_Type = ''timer'', tm_Remaining = remaining\<rparr>"

fun timer_loop :: "nat \<Rightarrow> conn \<Rightarrow> f64 \<Rightarrow> ('z networld_scheme, timer_end) prog" where
  "timer_loop 0 c remaining = Ret TimerRunning"
| "timer_loop (Suc n) c remaining =
     bindp (WriteJSON c (timer_msg remaining)) (\<lambda>ok.
       if \<not> ok then Ret TimerSendError
       else if f64_le0 remaining then Ret TimerFinished
       else timer_loop n c (f64_sub remaining tenth))"

definition startActionTimer :: "nat \<Rightarrow> conn \<Rightarrow> f64 \<Rightarrow> ('z networld_scheme, timer_end) prog" where
  "startActionTimer fuel c totalSec = timer_loop fuel c totalSec"

text \<open>The values of \<open>remaining\<close> that are sent, and whether the loop stopped by itself.\<close>

fun countdown :: "nat \<Rightarrow> f64 \<Rightarrow> f64 list \<times> bool" where
  "countdown n r =
     (if n = 0 then ([], False)
      else if f64_le0 r then ([r], True)
      else case countdown (n - 1) (f64_sub r tenth) of (rs, b) \<Rightarrow> (r # rs, b))"

declare countdown.simps [simp del]

lemma run_timer_loop:
  assumes "alive w c"
  shows "run (timer_loop n c r) w =
    ((if snd (countdown n r) then TimerFinished else TimerRunning),
     w\<lparr>w_sent := w_sent w @ map (\<lambda>r. (c, timer_msg r)) (fst (countdown n r))\<rparr>)"
  using assms
proof (induction n arbitrary: r w)
  case 0
  then show ?case by (simp add: countdown.simps [of 0])
next
  case (Suc n)
  then show ?case
    by (auto simp: run_simps countdown.simps [of "Suc n"] split: prod.split)
qed

lemma run_timer_dead: "\<not> alive w c \<Longrightarrow> run (timer_loop (Suc n) c r) w = (TimerSendError, w)"
  by (simp add: run_simps)

section \<open>Fifteen seconds\<close>

lemma tenth_eq: "tenth = Fin 7205759403792794 (-56)"
  by (simp add: tenth_def f64_eval)

lemma fifteen_eq: "f64_of_int 15 = Fin 8444249301319680 (-49)"
  by (simp add: f64_eval)

lemma countdown_0: "countdown 0 r = ([], False)"
  by (subst countdown.simps) simp

lemma countdown_Suc: "countdown (Suc n) r =
    (if f64_le0 r then ([r], True)
     else case countdown n (f64_sub r tenth) of (rs, b) \<Rightarrow> (r # rs, b))"
  by (subst countdown.simps) simp

lemma countdown_mono: "snd (countdown n r) \<Longrightarrow> n \<le> m \<Longrightarrow> countdown m r = countdown n r"
proof (induction n arbitrary: r m)
  case 0
  then show ?case by (simp add: countdown_0)
next
  case (Suc n)
  from Suc.prems(2) obtain k where m: "m = Suc k" "n \<le> k" by (cases m) auto
  show ?case
  proof (cases "f64_le0 r")
    case True
    with m show ?thesis by (simp add: countdown_Suc)
  next
    case False
    with Suc.prems(1) have "snd (countdown n (f64_sub r tenth))"
      by (simp add: countdown_Suc split: prod.splits)
    then have "countdown k (f64_sub r tenth) = countdown n (f64_sub r tenth)" using m(2) by (rule Suc.IH)
    with False m show ?thesis by (simp add: countdown_Suc)
  qed
qed

text \<open>The last two values are 3.6e-14 and -0.0999..., in place of 0: the sums of 0.1 are not exact.\<close>

lemma countdown_fifteen:
  "case countdown 152 (f64_of_int 15) of (rs, stopped) \<Rightarrow>
     stopped \<and> length rs = 152 \<and>
     drop 150 rs = [Fin 5792227255123968 (-97), Fin (- 7205759403790160) (-56)]"
  unfolding fifteen_eq by (simp add: countdown.simps tenth_eq f64_eval)

lemma countdown_fifteen_enough:
  "n \<ge> 152 \<Longrightarrow> countdown n (f64_of_int 15) = countdown 152 (f64_of_int 15)"
  using countdown_fifteen by (intro countdown_mono) (auto split: prod.splits)

end
