(* ===== verification/Server.thy ===== *)
theory Server
  imports Blackjack_Inv Timer
begin

text \<open>
  The requests of the lobby and the tables, interleaved step by step. \<open>serve\<close> gives the program
  of each request; the pool of \<open>Go_Runtime\<close> runs any number of them in any order of steps.
  \<open>server_inv\<close> is what no interleaving breaks: the ids and the unique key of the tables, and
  the chips and the dealer of every Blackjack table.
\<close>

datatype server_op =
    CreateRoom "nat \<Rightarrow> nat" request
  | JoinRoom request
  | LeaveRoom request
  | StartRoom request
  | BroadcastStart string int
  | RoomSession bool conn "ws_frame list" request
  | TableSession bool nat conn "json option list" request
  | ActionTimer nat conn

definition forget :: "('w, 'r) prog \<Rightarrow> ('w, unit) prog" where
  "forget p = bindp p (\<lambda>_. Ret ())"

fun serve :: "server_op \<Rightarrow> (bjworld, unit) prog" where
  "serve (CreateRoom raw r) = forget (CreateRoomHandler raw r)"
| "serve (JoinRoom r) = forget (JoinRoomHandler r)"
| "serve (LeaveRoom r) = forget (LeaveRoomHandler r)"
| "serve (StartRoom r) = forget (StartRoomHandler r)"
| "serve (BroadcastStart code gid) = broadcastStartGame code gid"
| "serve (RoomSession up c frames r) = GameRoomWebSocketHandler up c frames r"
| "serve (TableSession up raw c frames r) = BlackjackWebSocketHandle up raw c frames r"
| "serve (ActionTimer fuel c) = forget (startActionTimer fuel c (f64_of_int 15))"

section \<open>The invariant\<close>

definition counters_le :: "database \<Rightarrow> database \<Rightarrow> bool" where
  "counters_le d e \<longleftrightarrow> d_next_user d \<le> d_next_user e \<and> d_next_room d \<le> d_next_room e \<and>
     d_next_ru d \<le> d_next_ru e \<and> d_next_game d \<le> d_next_game e"

text \<open>User ids are given out in order, from 1 on.\<close>

definition user_ids_ok :: "database \<Rightarrow> bool" where
  "user_ids_ok d \<longleftrightarrow> 0 < d_next_user d \<and> distinct (map u_id (d_users d)) \<and>
     (\<forall>u \<in> set (d_users d). 0 < u_id u \<and> u_id u < d_next_user d)"

definition db_inv :: "database \<Rightarrow> bool" where
  "db_inv d \<longleftrightarrow> ids_ok d \<and> user_ids_ok d"

definition tables_inv :: "'z bjworld_scheme \<Rightarrow> bool" where
  "tables_inv w \<longleftrightarrow> (\<forall>code st. gm_get (bj_states w) code = Some st \<longrightarrow> table_ok st)"

text \<open>Tables stay, with their dealer and their players.\<close>

definition tables_kept :: "'y bjworld_scheme \<Rightarrow> 'z bjworld_scheme \<Rightarrow> bool" where
  "tables_kept w0 w \<longleftrightarrow> (\<forall>code s0. gm_get (bj_states w0) code = Some s0 \<longrightarrow>
     (\<exists>s. gm_get (bj_states w) code = Some s \<and> bj_DealerID s = bj_DealerID s0 \<and>
        dom (gm_get (bj_Players s0)) \<subseteq> dom (gm_get (bj_Players s))))"

text \<open>\<open>sound w\<close> is the invariant of the world; \<open>onward w w'\<close> what every step guarantees.\<close>

definition sound :: "'z bjworld_scheme \<Rightarrow> bool" where
  "sound w \<longleftrightarrow> db_inv (w_db w) \<and> tables_inv w"

definition onward :: "'z bjworld_scheme \<Rightarrow> 'z bjworld_scheme \<Rightarrow> bool" where
  "onward w0 w \<longleftrightarrow> counters_le (w_db w0) (w_db w) \<and> tables_kept w0 w"

lemma tables_kept_refl [simp]: "tables_kept w w"
  by (auto simp: tables_kept_def)

lemma counters_le_refl [simp]: "counters_le d d"
  by (simp add: counters_le_def)

lemma counters_le_trans: "counters_le d e \<Longrightarrow> counters_le e f \<Longrightarrow> counters_le d f"
  by (auto simp: counters_le_def)

lemma tables_inv_frame [simp]:
  "tables_inv (w\<lparr>w_db := d\<rparr>) = tables_inv w" "tables_inv (w\<lparr>w_faults := fs\<rparr>) = tables_inv w"
  "tables_inv (w\<lparr>w_roomConns := rc\<rparr>) = tables_inv w" "tables_inv (w\<lparr>w_sent := ms\<rparr>) = tables_inv w"
  "tables_inv (w\<lparr>w_closed := cs\<rparr>) = tables_inv w" "tables_inv (w\<lparr>bj_conns := bc\<rparr>) = tables_inv w"
  by (simp_all add: tables_inv_def)

lemma tables_kept_trans:
  assumes "tables_kept u v" "tables_kept v w"
  shows "tables_kept u w"
  unfolding tables_kept_def
proof (intro allI impI)
  fix code s0
  assume "gm_get (bj_states u) code = Some s0"
  with assms(1) obtain s1 where s1: "gm_get (bj_states v) code = Some s1" "bj_DealerID s1 = bj_DealerID s0"
    "dom (gm_get (bj_Players s0)) \<subseteq> dom (gm_get (bj_Players s1))"
    by (fastforce simp: tables_kept_def)
  with assms(2) obtain s2 where "gm_get (bj_states w) code = Some s2" "bj_DealerID s2 = bj_DealerID s1"
    "dom (gm_get (bj_Players s1)) \<subseteq> dom (gm_get (bj_Players s2))"
    by (fastforce simp: tables_kept_def)
  with s1 show "\<exists>s. gm_get (bj_states w) code = Some s \<and> bj_DealerID s = bj_DealerID s0 \<and>
      dom (gm_get (bj_Players s0)) \<subseteq> dom (gm_get (bj_Players s))"
    by (intro exI [of _ s2]) auto
qed

lemma onward_refl: "reflp onward"
  by (simp add: reflp_def onward_def)

lemma onward_trans: "transp onward"
  unfolding transp_def onward_def
proof (intro allI impI)
  fix u v w :: "'a bjworld_scheme"
  assume "counters_le (w_db u) (w_db v) \<and> tables_kept u v" "counters_le (w_db v) (w_db w) \<and> tables_kept v w"
  then show "counters_le (w_db u) (w_db w) \<and> tables_kept u w"
    by (blast intro: counters_le_trans tables_kept_trans)
qed

text \<open>Steps that touch neither the tables of the database nor the Blackjack tables.\<close>

lemma kept_same: "bj_states v = bj_states w \<Longrightarrow> tables_kept w v"
  by (auto simp: tables_kept_def)

lemma frame_step:
  assumes "sound w" "w_db v = w_db w" "bj_states v = bj_states w"
  shows "sound v \<and> onward w v"
  using assms by (simp add: sound_def onward_def kept_same tables_inv_def)

named_theorems srv \<open>statements and sections that keep the invariant of the server\<close>

lemma srv_sql:
  assumes "\<And>d. db_inv d \<Longrightarrow> db_inv (snd (q d)) \<and> counters_le d (snd (q d))"
  shows "keeps (sound :: 'a bjworld_scheme \<Rightarrow> bool) onward (sql q)"
  unfolding sql_def
proof (rule keeps_atomic)
  fix w :: "'a bjworld_scheme"
  assume w: "sound w"
  with assms [of "w_db w"] have "db_inv (snd (q (w_db w)))" "counters_le (w_db w) (snd (q (w_db w)))"
    by (simp_all add: sound_def)
  with w show "sound (snd (case w_faults w of Some e # fs \<Rightarrow> (Inl (DbFault e), w\<lparr>w_faults := fs\<rparr>)
      | fs \<Rightarrow> (case q (w_db w) of (r, d) \<Rightarrow> (r, w\<lparr>w_db := d, w_faults := tl fs\<rparr>)))) \<and>
     onward w (snd (case w_faults w of Some e # fs \<Rightarrow> (Inl (DbFault e), w\<lparr>w_faults := fs\<rparr>)
      | fs \<Rightarrow> (case q (w_db w) of (r, d) \<Rightarrow> (r, w\<lparr>w_db := d, w_faults := tl fs\<rparr>))))"
    by (auto simp: sound_def onward_def tables_inv_def kept_same split: prod.splits list.splits option.splits)
qed

lemma srv_query [srv]: "keeps sound onward (sql (\<lambda>d. (q d, d)))"
  by (rule srv_sql) simp

text \<open>A transaction: its body keeps the invariant, so a rollback finds the counters moved up.\<close>

lemma srv_transaction:
  assumes "keeps sound onward body"
  shows "keeps (sound :: 'a bjworld_scheme \<Rightarrow> bool) onward (transaction body)"
  unfolding transaction_def
proof (rule keeps_atomic)
  fix w :: "'a bjworld_scheme"
  assume w: "sound w"
  from keeps_run [OF onward_refl onward_trans assms w] w
  show "sound (snd (case run body w of ((committed, a), w') \<Rightarrow>
     (a, if committed then w' else w'\<lparr>w_db := rollback_db (w_db w) (w_db w')\<rparr>))) \<and>
    onward w (snd (case run body w of ((committed, a), w') \<Rightarrow>
     (a, if committed then w' else w'\<lparr>w_db := rollback_db (w_db w) (w_db w')\<rparr>)))"
    by (auto simp: sound_def onward_def db_inv_def user_ids_ok_def ids_ok_def rollback_db_def counters_le_def
        tables_inv_def tables_kept_def split: prod.splits)
qed

section \<open>The statements of the models\<close>

lemma users_frame [db_simps]:
  "d_users (add_member r u b d) = d_users d" "d_users (set_ready r u b d) = d_users d"
  "d_users (remove_member r u d) = d_users d" "d_users (set_room_status r s d) = d_users d"
  "d_users (set_room_owner r u d) = d_users d" "d_users (insert_room c g m u s n d) = d_users d"
  "d_users (insert_game gm t d) = d_users d"
  by (simp_all add: add_member_def set_ready_def remove_member_def set_room_status_def
      set_room_owner_def insert_room_def insert_game_def)

lemma ids_ok_insert_room: "ids_ok d \<Longrightarrow> ids_ok (insert_room c g m u s n d)"
  by (force simp: ids_ok_def insert_room_def)

lemma ids_ok_insert_game: "ids_ok d \<Longrightarrow> ids_ok (insert_game m t d)"
  by (simp add: ids_ok_def insert_game_def)

lemmas ids_ok_writes = ids_ok_add ids_ok_remove ids_ok_set_ready ids_ok_status ids_ok_owner
  ids_ok_insert_room ids_ok_insert_game

lemmas srv_write_simps = db_inv_def user_ids_ok_def counters_le_def db_simps ids_ok_writes

lemma srv_models [srv]:
  "keeps sound onward (GetRoomByCode code)"
  "keeps sound onward (UpdateRoomStatusTx rid s)"
  "keeps sound onward (SetRoomOwnerTx rid u)"
  "keeps sound onward (GetUsersInRoom rid)"
  "keeps sound onward (AddUserToRoom rid u)"
  "keeps sound onward (AddUserToRoomAsHost rid u b)"
  "keeps sound onward (CountUsersInRoom rid)"
  "keeps sound onward (CountUsersInRoomTx rid)"
  "keeps sound onward (UpdateUserReady rid u b)"
  "keeps sound onward (CountReadyUsers rid)"
  "keeps sound onward (IsUserInRoom rid u)"
  "keeps sound onward (PickNextOwnerTx rid)"
  "keeps sound onward (RemoveUserFromRoomTx rid u)"
  "keeps sound onward tx_begin"
  "keeps sound onward tx_commit"
  unfolding GetRoomByCode_def UpdateRoomStatusTx_def SetRoomOwnerTx_def GetUsersInRoom_def
    AddUserToRoom_def AddUserToRoomAsHost_def CountUsersInRoom_def CountUsersInRoomTx_def
    UpdateUserReady_def CountReadyUsers_def IsUserInRoom_def PickNextOwnerTx_def
    RemoveUserFromRoomTx_def tx_begin_def tx_commit_def
  by (auto intro!: stable_intros srv_sql simp: srv_write_simps)

section \<open>Connections and broadcasts\<close>

lemma srv_frame:
  assumes "\<And>w. w_db (snd (f w)) = w_db w \<and> bj_states (snd (f w)) = bj_states w"
  shows "keeps sound onward (atomic f)"
  using assms by (intro keeps_atomic frame_step) auto

lemma srv_write_json [srv]: "keeps sound onward (WriteJSON c m)"
  unfolding WriteJSON_def by (rule srv_frame) simp

lemma frame_drop_conns [simp]: "bj_states (drop_conns code cs w) = bj_states w"
  by (induction cs arbitrary: w) (simp_all add: close_conn_def)

lemma srv_drop [srv]: "keeps sound onward (drop_failed code cs)"
  unfolding drop_failed_def by (intro stable_intros srv_frame) simp

lemma srv_send_status [srv]: "keeps sound onward (send_status code m b h items cs)"
  by (induction items arbitrary: cs) (auto simp: split_paired_all intro!: stable_intros srv)

lemma srv_send_start [srv]: "keeps sound onward (send_start m items cs)"
  by (induction items arbitrary: cs) (auto simp: split_paired_all intro!: stable_intros srv)

lemma srv_snapshot [srv]: "keeps sound onward (snapshot_room code)"
  unfolding snapshot_room_def by (rule srv_frame) simp

lemma srv_broadcast [srv]: "keeps sound onward (broadcastRoomStatus code)"
  unfolding broadcastRoomStatus_def by (intro stable_intros srv)

lemma srv_start_broadcast [srv]: "keeps sound onward (broadcastStartGame code gid)"
  unfolding broadcastStartGame_def by (intro stable_intros srv)

lemma srv_close_user [srv]: "keeps sound onward (closeUserConnections code u)"
  unfolding closeUserConnections_def
  by (rule srv_frame) (auto split: option.splits prod.splits)

lemma srv_conn [srv]:
  "keeps sound onward (register_conn code c u)" "keeps sound onward (unregister_conn code c)"
  "keeps sound onward (Close c)"
  unfolding register_conn_def unregister_conn_def Close_def
  by (auto intro!: srv_frame simp: close_conn_def)

lemma srv_time [srv]: "keeps sound onward time_now"
  unfolding time_now_def by (rule srv_frame) simp

section \<open>The handlers of the lobby\<close>

lemma srv_models_create: "keeps sound onward (models_CreateRoom own made code g m)"
  unfolding models_CreateRoom_def
proof (rule srv_sql)
  fix d
  assume "db_inv d"
  then have "ids_ok (insert_room code g m own ''waiting'' made d)" by (simp add: db_inv_def ids_ok_insert_room)
  with \<open>db_inv d\<close> show "db_inv (snd (Inr (d_next_room d), insert_room code g m own ''waiting'' made d)) \<and>
      counters_le d (snd (Inr (d_next_room d), insert_room code g m own ''waiting'' made d))"
    by (simp add: db_inv_def user_ids_ok_def insert_room_def counters_le_def)
qed

lemma srv_create: "keeps sound onward (CreateRoomHandler raw r)"
proof -
  have "keeps sound onward (create_room_tx code req u now)" for code req u now
    unfolding create_room_tx_def
    by (intro stable_intros srv srv_sql) (auto simp: srv_write_simps)
  then show ?thesis
    unfolding CreateRoomHandler_def reply_error_def Let_def
    by (intro stable_intros srv srv_transaction)
qed

lemma srv_join: "keeps sound onward (JoinRoomHandler r)"
  unfolding JoinRoomHandler_def reply_error_def Let_def by (intro stable_intros srv)

lemma srv_leave: "keeps sound onward (LeaveRoomHandler r)"
proof -
  have "keeps sound onward (leave_tx room u)" for room u
    unfolding leave_tx_def Let_def by (intro stable_intros srv)
  then show ?thesis
    unfolding LeaveRoomHandler_def reply_error_def Let_def
    by (intro stable_intros srv srv_transaction)
qed

lemma srv_start: "keeps sound onward (StartRoomHandler r)"
proof -
  have "keeps sound onward (start_tx room)" for room
    unfolding start_tx_def by (intro stable_intros srv srv_sql) (auto simp: srv_write_simps)
  then show ?thesis
    unfolding StartRoomHandler_def Let_def by (intro stable_intros srv srv_transaction)
qed

lemma srv_ready_message [srv]: "keeps sound onward (ready_message code u raw)"
  unfolding ready_message_def Let_def by (intro stable_intros srv)

lemma srv_receive_loop [srv]: "keeps sound onward (receive_loop code u frames)"
  by (induction code u frames rule: receive_loop.induct) (auto intro!: stable_intros srv)

lemma srv_room_session: "keeps sound onward (GameRoomWebSocketHandler up c frames r)"
  unfolding GameRoomWebSocketHandler_def disconnect_def Let_def by (intro stable_intros srv)

section \<open>The handler of the table\<close>

lemma room_user_ids: "u \<in> set (room_user_rows rid d) \<Longrightarrow> us_UserID u \<in> u_id ` set (d_users d)"
  by (force simp: room_user_rows_def)

lemma frame_drop_bj [simp]:
  "w_db (drop_bj_conns code cs w) = w_db w" "bj_states (drop_bj_conns code cs w) = bj_states w"
  by (induction cs arbitrary: w) (simp_all add: close_conn_def)

lemma srv_send_bets [srv]: "keeps sound onward (send_bets code m items cs)"
proof -
  have "keeps sound onward (still_there code c)" for c
    unfolding still_there_def by (rule srv_frame) simp
  then show ?thesis
    by (induction items arbitrary: cs) (auto simp: split_paired_all intro!: stable_intros srv)
qed

lemma srv_bet_broadcast [srv]: "keeps sound onward (broadcastBetState code)"
  unfolding broadcastBetState_def by (intro stable_intros srv srv_frame) (auto split: option.splits)

lemma tables_put:
  assumes "sound w" "table_ok s"
    and "\<And>s0. gm_get (bj_states w) code = Some s0 \<Longrightarrow>
      bj_DealerID s = bj_DealerID s0 \<and> dom (gm_get (bj_Players s0)) \<subseteq> dom (gm_get (bj_Players s))"
  shows "sound (w\<lparr>bj_states := gm_put code s (bj_states w)\<rparr>) \<and>
    onward w (w\<lparr>bj_states := gm_put code s (bj_states w)\<rparr>)"
  using assms by (auto simp: sound_def onward_def tables_inv_def tables_kept_def)

lemma srv_place:
  assumes "sound w" "gm_get (bj_states w) code = Some st" "place_bet u n b st = Some st'"
  shows "sound (w\<lparr>bj_states := gm_put code st' (bj_states w)\<rparr>) \<and>
    onward w (w\<lparr>bj_states := gm_put code st' (bj_states w)\<rparr>)"
proof (rule tables_put [OF assms(1)])
  from assms have "table_ok st" by (simp add: sound_def tables_inv_def)
  note st' = place_bet_ok [OF this assms(3)]
  then show "table_ok st'" by simp
  have "dom (gm_get (bj_Players st)) \<subseteq> dom (gm_get (bj_Players st'))"
    using assms(3) by (auto simp: place_bet_def split: option.splits if_splits)
  with st'(2) assms(2) show "bj_DealerID st' = bj_DealerID s0 \<and>
      dom (gm_get (bj_Players s0)) \<subseteq> dom (gm_get (bj_Players st'))"
    if "gm_get (bj_states w) code = Some s0" for s0
    using that by simp
qed

lemma srv_bet_message [srv]: "keeps sound onward (bet_message code u raw)"
  unfolding bet_message_def
  by (intro stable_intros srv keeps_atomic)
    (auto simp: frame_step split: option.split dest: srv_place)

lemma srv_bet_loop [srv]: "keeps sound onward (bet_loop code u frames)"
  by (induction code u frames rule: bet_loop.induct) (auto intro!: stable_intros srv)

lemma srv_enter [srv]:
  assumes "users \<noteq> []" "\<forall>u \<in> set users. us_UserID u \<noteq> 0"
  shows "keeps sound onward (enter_table raw code c uid users)"
  unfolding enter_table_def
proof (rule keeps_atomic)
  fix w :: "'a bjworld_scheme"
  assume w: "sound w"
  obtain dealer st where i: "init_state raw users (gm_get (bj_states w) code) = (dealer, st)" by force
  note init = init_state_ok [OF _ assms i]
  have ok: "\<And>s. gm_get (bj_states w) code = Some s \<Longrightarrow> table_ok s"
    using w by (simp add: sound_def tables_inv_def)
  let ?v = "w\<lparr>bj_states := gm_put code st (bj_states w)\<rparr>"
  have "sound ?v \<and> onward w ?v"
  proof (rule tables_put [OF w])
    show "table_ok st" using ok by (rule init(1))
    show "bj_DealerID st = bj_DealerID s0 \<and> dom (gm_get (bj_Players s0)) \<subseteq> dom (gm_get (bj_Players st))"
      if "gm_get (bj_states w) code = Some s0" for s0
      using init(2) [OF ok] init(3) [OF ok that] init(4) [OF ok that] by auto
  qed
  with i show "sound (snd (case init_state raw users (gm_get (bj_states w) code) of (dealerID, state) \<Rightarrow>
       (dealerID, w\<lparr>bj_states := gm_put code state (bj_states w),
          bj_conns := gm_put code (gm_put c uid (gm_sub (bj_conns w) code)) (bj_conns w)\<rparr>))) \<and>
     onward w (snd (case init_state raw users (gm_get (bj_states w) code) of (dealerID, state) \<Rightarrow>
       (dealerID, w\<lparr>bj_states := gm_put code state (bj_states w),
          bj_conns := gm_put code (gm_put c uid (gm_sub (bj_conns w) code)) (bj_conns w)\<rparr>)))"
    by (simp add: sound_def onward_def tables_inv_def tables_kept_def)
qed

lemma srv_leave_table [srv]: "keeps sound onward (leave_table code c)"
  unfolding leave_table_def by (rule srv_frame) (auto simp: Let_def split: option.split)

lemma keeps_sql_value:
  assumes "\<And>w fs. I w \<Longrightarrow> I (w\<lparr>w_faults := fs\<rparr>) \<and> G w (w\<lparr>w_faults := fs\<rparr>)" "\<And>e. keeps I G (h (Inl e))"
    and "\<And>w. I w \<Longrightarrow> keeps I G (h (q (w_db w)))"
  shows "keeps I G (bindp (sql (\<lambda>d. (q d, d))) h)"
  using assms by (auto simp: sql_def atomic_def split: list.split option.split)

lemma srv_table_session:
  "keeps (sound :: 'z bjworld_scheme \<Rightarrow> bool) onward (BlackjackWebSocketHandle up raw c frames r)"
proof -
  have play: "keeps (sound :: 'z bjworld_scheme \<Rightarrow> bool) onward (if length users = 0 then Close c else play_table raw code c u users frames)"
    if "\<forall>u \<in> set users. us_UserID u \<noteq> 0" for code u users
    unfolding play_table_def SendPlayerOrder_def using that by (intro stable_intros srv) auto
  have "keeps (sound :: 'z bjworld_scheme \<Rightarrow> bool) onward (bindp (GetUsersInRoom rid) (\<lambda>res. case res of Inl e \<Rightarrow> Close c
      | Inr users \<Rightarrow> if length users = 0 then Close c else play_table raw code c u users frames))" for rid code u
    unfolding GetUsersInRoom_def
  proof (rule keeps_sql_value)
    fix w :: "'z bjworld_scheme"
    assume "sound w"
    then have "\<forall>u \<in> set (order_users (room_user_rows rid (w_db w))). us_UserID u \<noteq> 0"
      by (fastforce simp: sound_def db_inv_def user_ids_ok_def dest: room_user_ids)
    then show "keeps (sound :: 'z bjworld_scheme \<Rightarrow> bool) onward
      (case Inr (order_users (room_user_rows rid (w_db w))) :: RoomUser list sqlres of
        Inl e \<Rightarrow> Close c
      | Inr users \<Rightarrow> if length users = 0 then Close c else play_table raw code c u users frames)"
      unfolding sum.case by (rule play)
  qed (auto simp: srv_conn frame_step)
  then show ?thesis
    unfolding BlackjackWebSocketHandle_def Let_def
    by (intro keeps_if keeps_Ret srv_conn keeps_bindp [OF srv_models(1)] keeps_sum)
qed

lemma srv_forget: "keeps I G p \<Longrightarrow> keeps I G (forget p)"
  unfolding forget_def by (intro stable_intros)

lemma srv_timer: "keeps sound onward (startActionTimer n c t)"
proof -
  have "keeps sound onward (timer_loop n c r)" for r
    by (induction n arbitrary: r) (auto intro!: stable_intros srv)
  then show ?thesis by (simp add: startActionTimer_def)
qed

lemma srv_serve: "keeps sound onward (serve op)"
  by (cases op)
    (simp_all add: srv_forget srv_create srv_join srv_leave srv_start srv_start_broadcast
      srv_room_session srv_table_session srv_timer)

section \<open>The server from its start\<close>

text \<open>
  A process that has just started: no connection and no table in memory. The tables, the
  statements that will fail and the clients that cannot be reached are its environment.
\<close>

definition boot :: "database \<Rightarrow> string option list \<Rightarrow> conn list \<Rightarrow> int \<Rightarrow> bjworld" where
  "boot d faults broken now = \<lparr>w_db = d, w_faults = faults, w_clock = now, w_roomConns = [],
     w_sent = [], w_closed = [], w_broken = broken, bj_states = [], bj_conns = []\<rparr>"

lemma boot_sound: "db_inv d \<Longrightarrow> sound (boot d faults broken now)"
  by (simp add: sound_def boot_def tables_inv_def)

interpretation srv: world_invariant sound onward serve
  by unfold_locales (rule srv_serve onward_refl onward_trans)+

text \<open>The Blackjack tables that any interleaving of requests leaves.\<close>

lemma reachable_table:
  assumes "pool_steps (map serve ops, boot d faults broken now) (ps, w)" "db_inv d"
    "gm_get (bj_states w) code = Some st"
  shows "table_ok st"
  using srv.interleaved(1) [OF assms(1) boot_sound [OF assms(2)]] assms(3)
  by (simp add: sound_def tables_inv_def)

end
