(* ===== verification/Races.thy ===== *)
theory Races
  imports Server Lobby_Handlers
begin

text \<open>
  Interleavings that break what each handler keeps alone: the handlers of the lobby check and
  write in separate statements, with no transaction around them.
\<close>

section \<open>Two requests for the last seat\<close>

text \<open>A room for two players, with its host in it; users 20 and 30 ask for the other seat.\<close>

definition race_db :: database where
  "race_db = empty_db\<lparr>
     d_users := [\<lparr>u_id = 10, u_name = ''ann'', u_password = [], u_created = 0, u_last_login = 0\<rparr>,
       \<lparr>u_id = 20, u_name = ''bob'', u_password = [], u_created = 0, u_last_login = 0\<rparr>,
       \<lparr>u_id = 30, u_name = ''eve'', u_password = [], u_created = 0, u_last_login = 0\<rparr>],
     d_game_types := [\<lparr>gt_id = 7, gt_code = ''bj'', gt_name = ''blackjack''\<rparr>],
     d_rooms := [\<lparr>rm_id = 1, rm_code = ''123456'', rm_game_type = 7, rm_status = ''waiting'',
       rm_max = 2, rm_created = 0, rm_owner = 10\<rparr>],
     d_room_users := [\<lparr>ru_id = 1, ru_room = 1, ru_user = 10, ru_ready = False\<rparr>],
     d_next_user := 31, d_next_room := 2, d_next_ru := 2\<rparr>"

definition join_req :: "int \<Rightarrow> string \<Rightarrow> request" where
  "join_req uid code = blank_request\<lparr>rq_ctx := Some uid, rq_json := Some (JObj [(''room_code'', JStr code)])\<rparr>"

definition leave_req :: "int \<Rightarrow> string \<Rightarrow> request" where
  "leave_req = join_req"

definition after_turns :: "server_op list \<Rightarrow> nat list \<Rightarrow> bjworld \<Rightarrow> bjworld" where
  "after_turns ops turns w = snd (run_schedule turns (map serve ops, w))"

lemma after_turns_reachable: "\<exists>qs. pool_steps (map serve ops, w) (qs, after_turns ops turns w)"
  unfolding after_turns_def by (metis prod.collapse schedule_reachable)

lemma race_db_ok: "lobby_ok race_db" "db_inv race_db"
  by (simp_all add: lobby_ok_def room_ok_def race_db_def ids_ok_def members_def empty_db_def db_inv_def user_ids_ok_def)

lemma both_seated:
  "members 1 (w_db (after_turns [JoinRoom (join_req 20 ''123456''), JoinRoom (join_req 30 ''123456'')]
     [0, 0, 0, 1, 1, 1, 0, 1] (boot race_db [] [] 0))) = [10, 20, 30]"
  by code_simp

text \<open>One after the other, the second request is refused.\<close>

lemma second_refused:
  "members 1 (w_db (after_turns [JoinRoom (join_req 20 ''123456''), JoinRoom (join_req 30 ''123456'')]
     [0, 0, 0, 0, 0, 0, 0, 0, 0, 0, 1, 1, 1, 1, 1, 1, 1, 1, 1, 1] (boot race_db [] [] 0))) = [10, 20]"
  by code_simp

section \<open>A join beside the last departure\<close>

lemma joined_closed:
  "(let d = w_db (after_turns [JoinRoom (join_req 20 ''123456''), LeaveRoom (leave_req 10 ''123456'')]
     [0, 0, 0, 1, 1, 1, 1, 1, 0, 0, 0, 0] (boot race_db [] [] 0))
   in (members 1 d, map rm_status (d_rooms d))) = ([20], [''closed''])"
  by code_simp

end
