(* ===== verification/Sequential.thy ===== *)
theory Sequential
  imports Server Lobby_Handlers
begin

text \<open>
  The requests one after the other, none begun before the last has ended. Then every request,
  also a whole connection, keeps the invariant of the lobby, which interleavings can break
  (theory \<open>Races\<close>).
\<close>

definition run_all :: "server_op list \<Rightarrow> bjworld \<Rightarrow> bjworld" where
  "run_all ops w = fold (\<lambda>op w. snd (run (serve op) w)) ops w"

definition rooms_ok :: "'z bjworld_scheme \<Rightarrow> bool" where
  "rooms_ok w \<longleftrightarrow> lobby_ok (w_db w)"

named_theorems quiet \<open>steps that keep the invariant of the lobby\<close>

lemma quiet_atomic:
  assumes "\<And>w. w_db (snd (f w)) = w_db w"
  shows "stable rooms_ok (atomic f)"
  using assms by (intro stable_atomic) (simp add: rooms_ok_def)

lemma quiet_sql:
  assumes "\<And>d. lobby_ok d \<Longrightarrow> lobby_ok (snd (q d))"
  shows "stable (rooms_ok :: 'a bjworld_scheme \<Rightarrow> bool) (sql q)"
proof (rule stable_sql)
  fix w :: "'a bjworld_scheme" and r d fs
  assume "rooms_ok w" "q (w_db w) = (r, d)"
  with assms [of "w_db w"] show "rooms_ok (w\<lparr>w_db := d, w_faults := fs\<rparr>)" by (simp add: rooms_ok_def)
qed (simp add: rooms_ok_def)

lemma quiet_models [quiet]:
  "stable rooms_ok (GetRoomByCode code)" "stable rooms_ok (GetUsersInRoom rid)"
  "stable rooms_ok (IsUserInRoom rid u)" "stable rooms_ok (UpdateUserReady rid u b)"
  unfolding GetRoomByCode_def GetUsersInRoom_def IsUserInRoom_def UpdateUserReady_def
  by (auto intro!: stable_intros quiet_sql simp: lobby_ok_set_ready)

lemma quiet_conns [quiet]:
  "stable rooms_ok (WriteJSON c m)" "stable rooms_ok (snapshot_room code)"
  "stable rooms_ok (register_conn code c u)" "stable rooms_ok (unregister_conn code c)"
  "stable rooms_ok (Close c)"
  unfolding WriteJSON_def snapshot_room_def register_conn_def unregister_conn_def Close_def
  by (auto intro!: quiet_atomic simp: close_conn_def)

lemma quiet_drop [quiet]: "stable rooms_ok (drop_failed code cs)"
  unfolding drop_failed_def by (intro stable_intros quiet_atomic) simp

lemma quiet_send [quiet]:
  "stable rooms_ok (send_status code m b h items cs)" "stable rooms_ok (send_start m items cs)"
  by (induction items arbitrary: cs) (auto simp: split_paired_all intro!: stable_intros quiet)

lemma quiet_broadcast [quiet]:
  "stable rooms_ok (broadcastRoomStatus code)" "stable rooms_ok (broadcastStartGame code gid)"
  unfolding broadcastRoomStatus_def broadcastStartGame_def by (intro stable_intros quiet)+

lemma quiet_ready [quiet]: "stable rooms_ok (ready_message code u raw)"
  unfolding ready_message_def Let_def by (intro stable_intros quiet)

lemma quiet_receive [quiet]: "stable rooms_ok (receive_loop code u frames)"
  by (induction code u frames rule: receive_loop.induct) (auto intro!: stable_intros quiet)

lemma quiet_session: "stable rooms_ok (GameRoomWebSocketHandler up c frames r)"
  unfolding GameRoomWebSocketHandler_def disconnect_def Let_def by (intro stable_intros quiet)

lemma quiet_bets [quiet]: "stable rooms_ok (send_bets code m items cs)"
proof -
  have "stable rooms_ok (still_there code c)" for c
    unfolding still_there_def by (rule quiet_atomic) simp
  then show ?thesis
    by (induction items arbitrary: cs) (auto simp: split_paired_all intro!: stable_intros quiet)
qed

lemma quiet_bet_broadcast [quiet]: "stable rooms_ok (broadcastBetState code)"
  unfolding broadcastBetState_def by (intro stable_intros quiet quiet_atomic) (auto split: option.splits)

lemma quiet_bet [quiet]: "stable rooms_ok (bet_message code u raw)"
  unfolding bet_message_def by (intro stable_intros quiet quiet_atomic) (auto split: option.splits)

lemma quiet_bet_loop [quiet]: "stable rooms_ok (bet_loop code u frames)"
  by (induction code u frames rule: bet_loop.induct) (auto intro!: stable_intros quiet)

lemma quiet_table [quiet]:
  "stable rooms_ok (enter_table raw code c u users)" "stable rooms_ok (leave_table code c)"
  unfolding enter_table_def leave_table_def
  by (auto intro!: quiet_atomic simp: Let_def split: option.split prod.split)

lemma quiet_table_session: "stable rooms_ok (BlackjackWebSocketHandle up raw c frames r)"
  unfolding BlackjackWebSocketHandle_def play_table_def SendPlayerOrder_def Let_def
  by (intro stable_intros quiet)

lemma quiet_timer: "stable rooms_ok (startActionTimer n c t)"
proof -
  have "stable rooms_ok (timer_loop n c r)" for r
    by (induction n arbitrary: r) (auto intro!: stable_intros quiet)
  then show ?thesis by (simp add: startActionTimer_def)
qed

lemma run_forget: "snd (run (forget p) w) = snd (run p w)"
  by (simp add: forget_def run_simps split: prod.split)

lemma serve_rooms_ok:
  assumes "rooms_ok w"
  shows "rooms_ok (snd (run (serve op) w))"
proof (cases op)
  case (CreateRoom raw r)
  with assms create_keeps [of w raw r] show ?thesis by (simp add: run_forget rooms_ok_def wp_run)
next
  case (JoinRoom r)
  with assms join_keeps [of w r] show ?thesis by (simp add: run_forget rooms_ok_def wp_run)
next
  case (LeaveRoom r)
  with assms leave_keeps [of w r] show ?thesis by (simp add: run_forget rooms_ok_def wp_run)
next
  case (StartRoom r)
  with assms start_keeps [of w r] show ?thesis by (simp add: run_forget rooms_ok_def wp_run)
next
  case (BroadcastStart code gid)
  with stable_run [OF quiet_broadcast(2) assms] show ?thesis by simp
next
  case (RoomSession up c frames r)
  with stable_run [OF quiet_session assms] show ?thesis by simp
next
  case (TableSession up raw c frames r)
  with stable_run [OF quiet_table_session assms] show ?thesis by simp
next
  case (ActionTimer n c)
  with stable_run [OF quiet_timer assms] show ?thesis by (simp add: run_forget)
qed

lemma run_all_rooms_ok: "rooms_ok w \<Longrightarrow> rooms_ok (run_all ops w)"
  unfolding run_all_def by (induction ops arbitrary: w) (auto intro: serve_rooms_ok)

end
