(* ===== verification/Examples.thy ===== *)
theory Examples
  imports Races Sequential
begin

text \<open>
  Concrete worlds on which the properties are applied: the room of theory \<open>Races\<close> with both
  seats taken, two connections at its Blackjack table whose steps are mixed, and a lobby with
  its two connections open.
\<close>

definition seated_db :: database where
  "seated_db = add_member 1 20 False race_db"

definition bet_json :: "int \<Rightarrow> bool \<Rightarrow> json option" where
  "bet_json n confirm =
     Some (JObj [(''type'', JStr ''bet_update''), (''bet'', JInt n), (''confirm'', JBool confirm)])"

definition table_req :: "int \<Rightarrow> request" where
  "table_req uid = blank_request\<lparr>rq_ctx := Some uid, rq_vars := [(''room_code'', ''123456'')]\<rparr>"

definition table_ops :: "server_op list" where
  "table_ops = [TableSession True 0 5 [bet_json 300 True] (table_req 10),
     TableSession True 0 6 [bet_json 300 False, bet_json 1001 True, bet_json 250 True] (table_req 20)]"

text \<open>The first player is drawn as the dealer, so only the bets of the second count.\<close>

definition half_turns :: "nat list" where
  "half_turns = concat (replicate 8 [0, 1])"

definition half_pool :: "(bjworld, unit) prog list \<times> bjworld" where
  "half_pool = run_schedule half_turns (map serve table_ops, boot seated_db [] [] 0)"

definition played_pool :: "(bjworld, unit) prog list \<times> bjworld" where
  "played_pool = run_schedule (concat (replicate 16 [0, 1])) half_pool"

lemma half_reachable: "pool_steps (map serve table_ops, boot seated_db [] [] 0) half_pool"
  unfolding half_pool_def by (rule schedule_reachable)

lemma played_from_half: "pool_steps half_pool played_pool"
  unfolding played_pool_def by (rule schedule_reachable)

lemma played_reachable: "pool_steps (map serve table_ops, boot seated_db [] [] 0) played_pool"
  unfolding played_pool_def using half_reachable by (rule schedule_steps)

lemma seated_db_ok: "lobby_ok seated_db" "db_inv seated_db"
  by (simp_all add: lobby_ok_def room_ok_def db_inv_def user_ids_ok_def seated_db_def race_db_def ids_ok_def
      add_member_def members_def empty_db_def)

definition table_now :: "i64 \<Rightarrow> bool \<Rightarrow> i64 \<Rightarrow> BJRoomState" where
  "table_now bet confirmed chips = \<lparr>bj_Players =
     [(10, \<lparr>bp_UserID = 10, bp_Name = ''ann'', bp_Bet = 0, bp_Confirmed = True, bp_TotalChips = 1000\<rparr>),
      (20, \<lparr>bp_UserID = 20, bp_Name = ''bob'', bp_Bet = bet, bp_Confirmed = confirmed, bp_TotalChips = chips\<rparr>)],
     bj_DealerID = 10\<rparr>"

lemma half_table: "gm_get (bj_states (snd half_pool)) ''123456'' = Some (table_now 0 False 1000)"
  by code_simp

lemma played_table: "gm_get (bj_states (snd played_pool)) ''123456'' = Some (table_now 250 True 750)"
  by code_simp

lemma table_now_ok: "table_ok (table_now 0 False 1000)"
  by (simp add: table_ok_def pre_ok_def player_ok_def table_now_def gm_ok_def)

text \<open>A lobby with the two members connected, on connections 5 and 6.\<close>

definition lobby_world :: "database \<Rightarrow> bjworld" where
  "lobby_world d = (boot d [] [] 0)\<lparr>w_roomConns := [(''123456'', [(5, 10), (6, 20)])]\<rparr>"

definition ready_db :: database where
  "ready_db = set_ready 1 10 True (set_ready 1 20 True seated_db)"

definition ready_frame :: "bool \<Rightarrow> ws_frame" where
  "ready_frame b = TextMessage (Some (JObj [(''is_ready'', JBool b)]))"

definition create_body :: "int \<Rightarrow> int \<Rightarrow> json option" where
  "create_body g n = Some (JObj [(''game_type_id'', JInt g), (''max_players'', JInt n)])"

lemma race_room: "room_by_code ''123456'' race_db = Inr (hd (d_rooms race_db))"
  "room_by_code ''123456'' seated_db = Inr (hd (d_rooms race_db))"
  "room_by_code ''123456'' ready_db = Inr (hd (d_rooms race_db))"
  by (simp_all add: room_by_code_def race_db_def seated_db_def ready_db_def add_member_def set_ready_def first_row_def empty_db_def)

lemma race_room_fields:
  "rm_id (hd (d_rooms race_db)) = 1" "rm_owner (hd (d_rooms race_db)) = 10" "rm_max (hd (d_rooms race_db)) = 2"
  "rm_status (hd (d_rooms race_db)) = ''waiting''" "rm_code (hd (d_rooms race_db)) = ''123456''"
  by (simp_all add: race_db_def)

lemma example_members:
  "members 1 race_db = [10]" "members 1 seated_db = [10, 20]" "members 1 ready_db = [10, 20]"
  by (simp_all add: members_def race_db_def seated_db_def ready_db_def add_member_def set_ready_def empty_db_def)

lemma ready_db_ok: "lobby_ok ready_db" "users_ok ready_db" "users_ok seated_db" "all_ready 1 ready_db"
  "hd (d_rooms race_db) \<in> set (d_rooms ready_db)" "hd (d_rooms race_db) \<in> set (d_rooms seated_db)"
  by (simp_all add: ready_db_def lobby_ok_set_ready seated_db_ok)
    (simp_all add: users_ok_def all_ready_def set_ready_def seated_db_def race_db_def add_member_def empty_db_def)

lemma world_fields [simp]:
  "w_db (boot d fs bs t) = d" "w_faults (boot d fs bs t) = fs" "w_sent (boot d fs bs t) = []"
  "w_closed (boot d fs bs t) = []" "w_broken (boot d fs bs t) = bs" "w_roomConns (boot d fs bs t) = []"
  "w_clock (boot d fs bs t) = t"
  "w_db (lobby_world d) = d" "w_faults (lobby_world d) = []" "w_sent (lobby_world d) = []"
  "w_closed (lobby_world d) = []" "w_broken (lobby_world d) = []"
  "w_roomConns (lobby_world d) = [(''123456'', [(5, 10), (6, 20)])]"
  by (simp_all add: boot_def lobby_world_def)

end
