(* ===== verification/Json_Text.thy ===== *)
theory Json_Text
  imports Json
begin

text \<open>
  The text of JSON documents, as \<open>encoding/json\<close> reads and writes it: UTF-8 with bytes that are
  not UTF-8 replaced by U+FFFD, the escapes of strings, numbers as literals, nesting up to
  10000. The printer covers what the server puts into its tokens, objects of strings and
  integers. Reading back what was printed gives the object with its strings made valid UTF-8.
\<close>

section \<open>UTF-8\<close>

definition byte_of :: "char \<Rightarrow> nat" where
  "byte_of c = of_char c"

lemma byte_of_less: "byte_of c < 256"
  by (simp add: byte_of_def)

lemma bit_byte_of: "bit (byte_of c) n \<Longrightarrow> n < 8"
proof (rule ccontr)
  assume "bit (byte_of c) n" "\<not> n < 8"
  moreover have "take_bit 8 (byte_of c) = byte_of c"
    by (simp add: byte_of_def take_bit_nat_eq_self)
  ultimately show False by (metis bit_take_bit_iff)
qed

text \<open>Numbers as bytes, the most significant first, and back.\<close>

definition SetBytes :: "string \<Rightarrow> nat" where
  "SetBytes bs = foldl (\<lambda>n b. n * 256 + byte_of b) 0 bs"

fun low_bytes :: "nat \<Rightarrow> nat \<Rightarrow> string" where
  "low_bytes 0 n = []"
| "low_bytes (Suc k) n = low_bytes k (n div 256) @ [char_of (n mod 256)]"

lemma low_bytes_length [simp]: "length (low_bytes k n) = k"
  by (induction k arbitrary: n) auto

lemma SetBytes_snoc: "SetBytes (bs @ [b]) = SetBytes bs * 256 + byte_of b"
  by (simp add: SetBytes_def)

lemma SetBytes_low: "n < 256 ^ k \<Longrightarrow> SetBytes (low_bytes k n) = n"
proof (induction k arbitrary: n)
  case 0
  then show ?case by (simp add: SetBytes_def)
next
  case (Suc k)
  then have "n div 256 < 256 ^ k" by (simp add: div_less_iff_less_mult mult.commute)
  with Suc.IH show ?case by (simp add: SetBytes_snoc byte_of_def)
qed

definition in_range :: "nat \<Rightarrow> nat \<Rightarrow> char \<Rightarrow> bool" where
  "in_range lo hi c \<longleftrightarrow> lo \<le> byte_of c \<and> byte_of c \<le> hi"

abbreviation cont :: "char \<Rightarrow> bool" where
  "cont \<equiv> in_range 128 191"

text \<open>The size of the encoding that starts with a byte, and the range of its second byte.\<close>

definition rune_head :: "char \<Rightarrow> (nat \<times> nat \<times> nat) option" where
  "rune_head a =
     (if in_range 194 223 a then Some (2, 128, 191)
      else if in_range 224 239 a then
        Some (3, (if byte_of a = 224 then 160 else 128), (if byte_of a = 237 then 159 else 191))
      else if in_range 240 244 a then
        Some (4, (if byte_of a = 240 then 144 else 128), (if byte_of a = 244 then 143 else 191))
      else None)"

text \<open>The length of the encoded rune at the front, \<open>0\<close> when it is not valid UTF-8.\<close>

fun utf8_size :: "string \<Rightarrow> nat" where
  "utf8_size [] = 0"
| "utf8_size (a # s) =
     (if byte_of a < 128 then 1
      else case rune_head a of None \<Rightarrow> 0
      | Some (n, lo, hi) \<Rightarrow>
          if n \<le> Suc (length s) \<and> in_range lo hi (hd s) \<and> list_all cont (take (n - 2) (tl s)) then n else 0)"

lemma rune_head_size: "rune_head a = Some (n, lo, hi) \<Longrightarrow> 2 \<le> n \<and> n \<le> 4"
  by (auto simp: rune_head_def split: if_splits)

lemma utf8_size_le: "utf8_size s \<le> length s"
  by (cases s) (auto split: option.split)

lemma utf8_size_prefix:
  assumes "utf8_size s = n" "0 < n"
  shows "utf8_size (take n s @ t) = n"
proof (cases s)
  case (Cons a r)
  show ?thesis
  proof (cases "byte_of a < 128")
    case True
    with assms Cons show ?thesis by auto
  next
    case False
    with assms Cons obtain lo hi where h: "rune_head a = Some (n, lo, hi)" "n \<le> Suc (length r)"
      "in_range lo hi (hd r)" "list_all cont (take (n - 2) (tl r))"
      by (auto split: option.splits if_splits)
    obtain m where m: "n = Suc (Suc m)" using rune_head_size [OF h(1)] by (metis Suc_le_D numeral_2_eq_2 Suc_le_mono)
    with h(2) obtain b r' where r: "r = b # r'" by (cases r) auto
    from False h m show ?thesis by (simp add: Cons r)
  qed
qed (use assms in simp)

declare utf8_size.simps(2) [simp del]

definition utf8_enc :: "nat \<Rightarrow> string" where
  "utf8_enc r = map char_of
     (if r < 128 then [r]
      else if r < 2048 then [192 + r div 64, 128 + r mod 64]
      else if (55296 \<le> r \<and> r \<le> 57343) \<or> 1114111 < r then [239, 191, 189]
      else if r < 65536 then [224 + r div 4096, 128 + r div 64 mod 64, 128 + r mod 64]
      else [240 + r div 262144, 128 + r div 4096 mod 64, 128 + r div 64 mod 64, 128 + r mod 64])"

definition replacement :: string where
  "replacement = utf8_enc 65533"

function valid_utf8_text :: "string \<Rightarrow> string" where
  "valid_utf8_text [] = []"
| "valid_utf8_text (a # s) =
     (let n = utf8_size (a # s) in
      if n = 0 then replacement @ valid_utf8_text s
      else a # take (n - 1) s @ valid_utf8_text (drop (n - 1) s))"
  by pat_completeness auto
termination
  by (relation "measure length") auto

declare valid_utf8_text.simps(2) [simp del]

definition is_utf8 :: "string \<Rightarrow> bool" where
  "is_utf8 s \<longleftrightarrow> valid_utf8_text s = s"

section \<open>Strings\<close>

definition hex_digit :: "nat \<Rightarrow> char" where
  "hex_digit n = ''0123456789abcdef'' ! n"

fun hex_val :: "char \<Rightarrow> nat option" where
  "hex_val c = (if in_range 48 57 c then Some (byte_of c - 48)
     else if in_range 97 102 c then Some (byte_of c - 87)
     else if in_range 65 70 c then Some (byte_of c - 55) else None)"

text \<open>Characters that are written as they are: ASCII without controls, quote, backslash and \<open><>&\<close>.\<close>

definition html_safe :: "char \<Rightarrow> bool" where
  "html_safe c \<longleftrightarrow> 32 \<le> byte_of c \<and> byte_of c < 128 \<and> c \<notin> set ''\"&<>'' \<and> byte_of c \<noteq> 92"

abbreviation backslash :: char where
  "backslash \<equiv> CHR 0x5C"

definition escape :: "char \<Rightarrow> string" where
  "escape c = backslash #
     (if c = backslash \<or> c = CHR 0x22 then [c]
      else if byte_of c = 8 then ''b'' else if byte_of c = 12 then ''f'' else if byte_of c = 10 then ''n''
      else if byte_of c = 13 then ''r'' else if byte_of c = 9 then ''t''
      else ''u00'' @ [hex_digit (byte_of c div 16), hex_digit (byte_of c mod 16)])"

function quote_body :: "string \<Rightarrow> string" where
  "quote_body [] = []"
| "quote_body (a # s) =
     (if byte_of a < 128 then (if html_safe a then [a] else escape a) @ quote_body s
      else let n = utf8_size (a # s) in
        if n = 0 then backslash # ''ufffd'' @ quote_body s
        else if take n (a # s) = utf8_enc 8232 then backslash # ''u2028'' @ quote_body (drop (n - 1) s)
        else if take n (a # s) = utf8_enc 8233 then backslash # ''u2029'' @ quote_body (drop (n - 1) s)
        else a # take (n - 1) s @ quote_body (drop (n - 1) s))"
  by pat_completeness auto
termination
  by (relation "measure length") auto

declare quote_body.simps(2) [simp del]

definition quote :: "string \<Rightarrow> string" where
  "quote s = CHR 0x22 # quote_body s @ [CHR 0x22]"

text \<open>Four hexadecimal digits, and the second half of a surrogate pair.\<close>

fun hex4 :: "string \<Rightarrow> (nat \<times> string) option" where
  "hex4 (a # b # c # d # s) =
     (case (hex_val a, hex_val b, hex_val c, hex_val d) of
        (Some w, Some x, Some y, Some z) \<Rightarrow> Some (((w * 16 + x) * 16 + y) * 16 + z, s)
      | _ \<Rightarrow> None)"
| "hex4 _ = None"

definition surrogate :: "nat \<Rightarrow> bool" where
  "surrogate r \<longleftrightarrow> 55296 \<le> r \<and> r \<le> 57343"

text \<open>The rune of a \<open>\u\<close> escape whose digits come next, and what follows it.\<close>

definition u_escape :: "string \<Rightarrow> (nat \<times> string) option" where
  "u_escape s = (case hex4 s of None \<Rightarrow> None | Some (r, t) \<Rightarrow>
     if \<not> surrogate r then Some (r, t) else
     (case t of p # q # t' \<Rightarrow>
        if p = backslash \<and> q = CHR ''u'' then
          (case hex4 t' of
             Some (r', t'') \<Rightarrow>
               if r < 56320 \<and> 56320 \<le> r' \<and> r' \<le> 57343
               then Some ((r - 55296) * 1024 + (r' - 56320) + 65536, t'') else Some (65533, t)
           | None \<Rightarrow> Some (65533, t))
        else Some (65533, t)
      | _ \<Rightarrow> Some (65533, t)))"

lemma hex4_length: "hex4 s = Some (r, t) \<Longrightarrow> length t < length s"
  by (cases s rule: hex4.cases) (auto split: option.splits)

lemma u_escape_length: "u_escape s = Some (r, t) \<Longrightarrow> length t < length s"
  by (auto simp: u_escape_def dest!: hex4_length split: option.splits prod.splits if_splits list.splits)

definition simple_escape :: "char \<Rightarrow> char option" where
  "simple_escape e = map_of [(CHR 0x22, CHR 0x22), (backslash, backslash), (CHR ''/'', CHR ''/''),
     (CHR ''b'', CHR 0x08), (CHR ''f'', CHR 0x0C), (CHR ''n'', CHR 0x0A), (CHR ''r'', CHR 0x0D),
     (CHR ''t'', CHR 0x09)] e"

text \<open>The rest of a string after its opening quote: its bytes, and what follows the closing quote.\<close>

function str_body :: "string \<Rightarrow> (string \<times> string) option" where
  "str_body [] = None"
| "str_body (a # s) =
     (if a = CHR 0x22 then Some ([], s)
      else if a = backslash then
        (case s of
           [] \<Rightarrow> None
         | e # s' \<Rightarrow>
             if e = CHR ''u'' then
               (case u_escape s' of None \<Rightarrow> None
                | Some (r, t) \<Rightarrow> map_option (\<lambda>(x, y). (utf8_enc r @ x, y)) (str_body t))
             else (case simple_escape e of None \<Rightarrow> None
                | Some c \<Rightarrow> map_option (\<lambda>(x, y). (c # x, y)) (str_body s')))
      else if byte_of a < 32 then None
      else let n = utf8_size (a # s) in
        if n = 0 then map_option (\<lambda>(x, y). (replacement @ x, y)) (str_body s)
        else map_option (\<lambda>(x, y). (a # take (n - 1) s @ x, y)) (str_body (drop (n - 1) s)))"
  by pat_completeness auto
termination
  by (relation "measure length") (auto dest: u_escape_length)

declare str_body.simps(2) [simp del]

subsection \<open>Reading back a printed string\<close>

lemma char_eq_byte_of: "a = b \<longleftrightarrow> byte_of a = byte_of b"
  by (simp add: byte_of_def)

lemma hex_val_digit: "k < 16 \<Longrightarrow> hex_val (hex_digit k) = Some k"
proof -
  assume "k < 16"
  moreover have "\<forall>k \<in> set [0..<16]. hex_val (hex_digit k) = Some k" by code_simp
  ultimately show ?thesis by simp
qed

lemma hex_val_zero: "hex_val (CHR ''0'') = Some 0"
  by code_simp

lemma str_body_u:
  assumes "u_escape X = Some (r, t)"
  shows "str_body (backslash # CHR ''u'' # X) = map_option (\<lambda>(x, y). (utf8_enc r @ x, y)) (str_body t)"
  using assms by (simp add: str_body.simps(2))

lemma str_body_escape:
  assumes "byte_of a < 128" "\<not> html_safe a"
  shows "str_body (escape a @ X) = map_option (\<lambda>(x, y). (a # x, y)) (str_body X)"
proof (cases "a = backslash \<or> a = CHR 0x22 \<or> byte_of a \<in> {8, 12, 10, 13, 9}")
  case True
  then have "a = backslash \<or> a = CHR 0x22 \<or> a = CHR 0x08 \<or> a = CHR 0x0C \<or> a = CHR 0x0A \<or> a = CHR 0x0D \<or> a = CHR 0x09"
    by (auto simp: char_eq_byte_of byte_of_def)
  then show ?thesis by (auto simp: escape_def str_body.simps(2) simple_escape_def byte_of_def)
next
  case False
  then have e: "escape a = backslash # CHR ''u'' # ''00'' @ [hex_digit (byte_of a div 16), hex_digit (byte_of a mod 16)]"
    by (simp add: escape_def)
  have "byte_of a div 16 < 16" "byte_of a mod 16 < 16" using assms(1) by simp_all
  then have "hex4 (''00'' @ [hex_digit (byte_of a div 16), hex_digit (byte_of a mod 16)] @ X) = Some (byte_of a, X)"
    by (simp add: hex_val_digit hex_val_zero del: hex_val.simps)
  with assms(1) have "u_escape (''00'' @ [hex_digit (byte_of a div 16), hex_digit (byte_of a mod 16)] @ X) = Some (byte_of a, X)"
    by (simp add: u_escape_def surrogate_def)
  moreover have "utf8_enc (byte_of a) = [a]" using assms(1) by (simp add: utf8_enc_def byte_of_def)
  ultimately show ?thesis unfolding e using str_body_u by simp
qed

lemma u_escape_literals:
  "u_escape (''fffd'' @ X) = Some (65533, X)" "u_escape (''2028'' @ X) = Some (8232, X)"
  "u_escape (''2029'' @ X) = Some (8233, X)"
proof -
  have "hex_val (CHR ''f'') = Some 15" "hex_val (CHR ''d'') = Some 13" "hex_val (CHR ''2'') = Some 2"
    "hex_val (CHR ''8'') = Some 8" "hex_val (CHR ''9'') = Some 9"
    by code_simp+
  then show "u_escape (''fffd'' @ X) = Some (65533, X)" "u_escape (''2028'' @ X) = Some (8232, X)"
    "u_escape (''2029'' @ X) = Some (8233, X)"
    by (simp_all add: u_escape_def surrogate_def hex_val_zero del: hex_val.simps)
qed

lemma str_body_rune:
  assumes "\<not> byte_of a < 128" "utf8_size (a # s) = n" "0 < n"
  shows "str_body (a # take (n - 1) s @ X) = map_option (\<lambda>(x, y). (a # take (n - 1) s @ x, y)) (str_body X)"
proof -
  have t: "take n (a # s) = a # take (n - 1) s" using assms(3) by (cases n) auto
  have "length (take (n - 1) s) = n - 1" using utf8_size_le [of "a # s"] assms(2) by auto
  moreover have "utf8_size (a # take (n - 1) s @ X) = n"
    using utf8_size_prefix [OF assms(2,3), of X] by (simp add: t)
  moreover have "a \<noteq> CHR 0x22" "a \<noteq> backslash" "\<not> byte_of a < 32" using assms(1) by (auto simp: byte_of_def)
  ultimately show ?thesis using assms(3) by (simp add: str_body.simps(2))
qed

lemma str_body_safe:
  assumes "byte_of a < 128" "html_safe a"
  shows "str_body (a # X) = map_option (\<lambda>(x, y). (a # x, y)) (str_body X)"
proof -
  have "a \<noteq> CHR 0x22" "a \<noteq> backslash" "\<not> byte_of a < 32" using assms(2) by (auto simp: html_safe_def byte_of_def)
  moreover have "utf8_size (a # X) = 1" using assms(1) by (simp add: utf8_size.simps(2))
  ultimately show ?thesis by (simp add: str_body.simps(2))
qed

lemma str_body_quote: "str_body (quote_body s @ CHR 0x22 # t) = Some (valid_utf8_text s, t)"
proof (induction s rule: quote_body.induct)
  case 1
  then show ?case by (simp add: str_body.simps(2))
next
  case (2 a s)
  let ?n = "utf8_size (a # s)"
  show ?case
  proof (cases "byte_of a < 128")
    case True
    then have n: "?n = 1" by (simp add: utf8_size.simps(2))
    have "valid_utf8_text (a # s) = a # valid_utf8_text s"
      by (simp add: valid_utf8_text.simps(2) n)
    moreover have "quote_body (a # s) = (if html_safe a then [a] else escape a) @ quote_body s"
      using True by (simp add: quote_body.simps(2))
    ultimately show ?thesis
      using True 2(1) by (simp add: str_body_safe str_body_escape)
  next
    case False
    show ?thesis
    proof (cases "?n = 0")
      case True
      have "quote_body (a # s) = backslash # CHR ''u'' # ''fffd'' @ quote_body s"
        using False True by (simp add: quote_body.simps(2))
      moreover have "valid_utf8_text (a # s) = replacement @ valid_utf8_text s"
        by (simp add: valid_utf8_text.simps(2) True)
      ultimately show ?thesis
        using str_body_u [OF u_escape_literals(1)] 2(2) [OF False refl True] by (simp add: replacement_def)
    next
      case nz: False
      have t: "take ?n (a # s) = a # take (?n - 1) s" using nz by (cases ?n) auto
      have v: "valid_utf8_text (a # s) = take ?n (a # s) @ valid_utf8_text (drop (?n - 1) s)"
        using nz by (simp add: valid_utf8_text.simps(2) t Let_def)
      consider (ls) "take ?n (a # s) = utf8_enc 8232" | (ps) "take ?n (a # s) \<noteq> utf8_enc 8232" "take ?n (a # s) = utf8_enc 8233"
        | (other) "take ?n (a # s) \<noteq> utf8_enc 8232" "take ?n (a # s) \<noteq> utf8_enc 8233"
        by blast
      then show ?thesis
      proof cases
        case ls
        then have "quote_body (a # s) = backslash # CHR ''u'' # ''2028'' @ quote_body (drop (?n - 1) s)"
          using False nz by (simp add: quote_body.simps(2) Let_def)
        then show ?thesis
          using str_body_u [OF u_escape_literals(2)] 2(3) [OF False refl nz ls] by (simp add: v ls)
      next
        case ps
        then have "quote_body (a # s) = backslash # CHR ''u'' # ''2029'' @ quote_body (drop (?n - 1) s)"
          using False nz by (simp add: quote_body.simps(2) Let_def)
        then show ?thesis
          using str_body_u [OF u_escape_literals(3)] 2(4) [OF False refl nz ps] by (simp add: v ps)
      next
        case other
        then have "quote_body (a # s) = a # take (?n - 1) s @ quote_body (drop (?n - 1) s)"
          using False nz by (simp add: quote_body.simps(2) Let_def)
        then show ?thesis
          using str_body_rune [OF False refl] nz 2(5) [OF False refl nz other] by (simp add: v t)
      qed
    qed
  qed
qed

section \<open>Numbers\<close>

definition is_digit :: "char \<Rightarrow> bool" where
  "is_digit c \<longleftrightarrow> in_range 48 57 c"

definition digits_val :: "string \<Rightarrow> int" where
  "digits_val ds = foldl (\<lambda>v c. 10 * v + (int (byte_of c) - 48)) 0 ds"

text \<open>A number literal: sign, integer part without leading zeros, fraction, exponent.\<close>

definition int_part :: "string \<Rightarrow> string" where
  "int_part s = (if s \<noteq> [] \<and> hd s = CHR ''0'' then ''0'' else takeWhile is_digit s)"

definition frac_part :: "string \<Rightarrow> (string option \<times> string) option" where
  "frac_part s =
     (if s \<noteq> [] \<and> hd s = CHR ''.'' then
        let fp = takeWhile is_digit (tl s) in
        if fp = [] then None else Some (Some fp, drop (length fp) (tl s))
      else Some (None, s))"

definition exp_part :: "string \<Rightarrow> (int option \<times> string) option" where
  "exp_part s =
     (if s \<noteq> [] \<and> (hd s = CHR ''e'' \<or> hd s = CHR ''E'') then
        let t = tl s; signed = t \<noteq> [] \<and> (hd t = CHR ''+'' \<or> hd t = CHR ''-'');
            u = (if signed then tl t else t); ep = takeWhile is_digit u in
        if ep = [] then None
        else Some (Some (if signed \<and> hd t = CHR ''-'' then - digits_val ep else digits_val ep),
                   drop (length ep) u)
      else Some (None, s))"

definition unsigned_number :: "string \<Rightarrow> (json \<times> string) option" where
  "unsigned_number s =
     (if int_part s = [] then None else
      case frac_part (drop (length (int_part s)) s) of None \<Rightarrow> None | Some (fp, t) \<Rightarrow>
      (case exp_part t of None \<Rightarrow> None | Some (ep, u) \<Rightarrow>
         Some (case (fp, ep) of
             (None, None) \<Rightarrow> JInt (digits_val (int_part s))
           | (None, Some e) \<Rightarrow> JDec (digits_val (int_part s)) e
           | (Some f, None) \<Rightarrow> JDec (digits_val (int_part s @ f)) (- int (length f))
           | (Some f, Some e) \<Rightarrow> JDec (digits_val (int_part s @ f)) (e - int (length f)), u)))"

fun negate :: "json \<Rightarrow> json" where
  "negate (JInt n) = JInt (- n)"
| "negate (JDec n e) = JDec (- n) e"
| "negate v = v"

definition number_text :: "string \<Rightarrow> (json \<times> string) option" where
  "number_text s =
     (if s \<noteq> [] \<and> hd s = CHR ''-'' then map_option (\<lambda>(v, t). (negate v, t)) (unsigned_number (tl s))
      else unsigned_number s)"

fun show_nat :: "nat \<Rightarrow> string" where
  "show_nat n = (if n < 10 then [char_of (48 + n)] else show_nat (n div 10) @ [char_of (48 + n mod 10)])"

declare show_nat.simps [simp del]

definition show_int :: "int \<Rightarrow> string" where
  "show_int n = (if n < 0 then CHR ''-'' # show_nat (nat (- n)) else show_nat (nat n))"

lemma digit_char: "k < 10 \<Longrightarrow> is_digit (char_of (48 + k)) \<and> byte_of (char_of (48 + k)) = 48 + k"
  by (simp add: is_digit_def in_range_def byte_of_def)

lemma digits_val_snoc: "digits_val (ds @ [c]) = 10 * digits_val ds + (int (byte_of c) - 48)"
  by (simp add: digits_val_def)

lemma show_nat_digits: "\<forall>c \<in> set (show_nat n). is_digit c"
proof (induction n rule: show_nat.induct)
  case (1 n)
  then show ?case by (subst show_nat.simps) (simp add: digit_char)
qed

lemma show_nat_val: "digits_val (show_nat n) = int n"
proof (induction n rule: show_nat.induct)
  case (1 n)
  show ?case
  proof (cases "n < 10")
    case True
    then show ?thesis by (subst show_nat.simps) (simp add: digits_val_def digit_char)
  next
    case False
    with 1 have "digits_val (show_nat n) = 10 * int (n div 10) + int (n mod 10)"
      by (subst show_nat.simps) (simp add: digits_val_snoc digit_char)
    then show ?thesis by presburger
  qed
qed

lemma show_nat_zero: "show_nat n \<noteq> [] \<and> (hd (show_nat n) = CHR ''0'' \<longrightarrow> n = 0 \<and> show_nat n = ''0'')"
proof (induction n rule: show_nat.induct)
  case (1 n)
  show ?case
  proof (cases "n < 10")
    case True
    then have "n \<in> set [0..<10]" by simp
    moreover have "\<forall>n \<in> set [0..<10]. char_of (48 + n) = CHR ''0'' \<longrightarrow> n = 0" by code_simp
    ultimately have "char_of (48 + n) = CHR ''0'' \<longrightarrow> n = 0" by blast
    with True show ?thesis by (auto simp: show_nat.simps [of n])
  next
    case False
    then have s: "show_nat n = show_nat (n div 10) @ [char_of (48 + n mod 10)]" by (simp add: show_nat.simps [of n])
    have "0 < n div 10" using False by simp
    with 1 False show ?thesis by (auto simp: s)
  qed
qed

lemma takeWhile_digits:
  assumes "\<forall>c \<in> set ds. is_digit c" "t \<noteq> [] \<longrightarrow> \<not> is_digit (hd t)"
  shows "takeWhile is_digit (ds @ t) = ds"
  using assms by (cases t) (auto simp: takeWhile_append2)

text \<open>A printed integer is read back where nothing that continues a number follows it.\<close>

definition ends_number :: "string \<Rightarrow> bool" where
  "ends_number t \<longleftrightarrow> (case t of [] \<Rightarrow> True | c # _ \<Rightarrow> \<not> is_digit c \<and> c \<notin> set ''.eE'')"

lemma number_show_nat:
  assumes "ends_number t"
  shows "unsigned_number (show_nat n @ t) = Some (JInt (int n), t)"
proof -
  have t: "t \<noteq> [] \<longrightarrow> \<not> is_digit (hd t) \<and> hd t \<notin> set ''.eE''"
    using assms by (cases t) (auto simp: ends_number_def)
  then have "takeWhile is_digit (show_nat n @ t) = show_nat n"
    by (intro takeWhile_digits show_nat_digits) simp
  with show_nat_zero [of n] have "int_part (show_nat n @ t) = show_nat n"
    by (auto simp: int_part_def)
  moreover have "frac_part t = Some (None, t)" "exp_part t = Some (None, t)"
    using t by (auto simp: frac_part_def exp_part_def)
  ultimately show ?thesis
    using show_nat_zero [of n] show_nat_val [of n] by (simp add: unsigned_number_def)
qed

lemma number_show_int:
  assumes "ends_number t"
  shows "number_text (show_int n @ t) = Some (JInt n, t)"
proof (cases "n < 0")
  case True
  with number_show_nat [OF assms, of "nat (- n)"] show ?thesis by (simp add: show_int_def number_text_def)
next
  case False
  have "hd (show_nat (nat n)) \<noteq> CHR ''-''"
  proof
    assume "hd (show_nat (nat n)) = CHR ''-''"
    moreover have "is_digit (hd (show_nat (nat n)))"
      using show_nat_digits [of "nat n"] show_nat_zero [of "nat n"] by (cases "show_nat (nat n)") auto
    ultimately show False by (simp add: is_digit_def in_range_def byte_of_def)
  qed
  with False show_nat_zero [of "nat n"] number_show_nat [OF assms, of "nat n"]
  show ?thesis by (simp add: show_int_def number_text_def)
qed

text \<open>\<open>strconv.ParseInt(s, 10, 64)\<close> and \<open>strconv.Atoi\<close>: an optional sign and decimal digits.\<close>

definition all_digits :: "string \<Rightarrow> int option" where
  "all_digits s = (if s \<noteq> [] \<and> list_all is_digit s then Some (digits_val s) else None)"

definition ParseInt :: "string \<Rightarrow> int option" where
  "ParseInt s =
     (case (if s \<noteq> [] \<and> hd s = CHR ''-'' then map_option uminus (all_digits (tl s))
            else if s \<noteq> [] \<and> hd s = CHR ''+'' then all_digits (tl s) else all_digits s) of
        Some n \<Rightarrow> if - (2 ^ 63) \<le> n \<and> n < 2 ^ 63 then Some n else None
      | None \<Rightarrow> None)"

section \<open>Documents\<close>

definition is_space :: "char \<Rightarrow> bool" where
  "is_space c \<longleftrightarrow> c = CHR 0x20 \<or> c = CHR 0x09 \<or> c = CHR 0x0D \<or> c = CHR 0x0A"

abbreviation skip_ws :: "string \<Rightarrow> string" where
  "skip_ws \<equiv> dropWhile is_space"

definition max_nesting :: nat where
  "max_nesting = 10000"

text \<open>The literals, each with its value.\<close>

fun literal :: "(string \<times> json) list \<Rightarrow> string \<Rightarrow> (json \<times> string) option" where
  "literal [] s = None"
| "literal ((w, v) # ws) s = (if take (length w) s = w then Some (v, drop (length w) s) else literal ws s)"

definition literals :: "(string \<times> json) list" where
  "literals = [(''true'', JBool True), (''false'', JBool False), (''null'', JNull)]"

text \<open>
  A value at the front of a text from which leading space is gone, with what follows it. The
  first number is fuel, of which every recursive call takes one; the second is how deep arrays
  and objects may still nest. \<open>parse_fuel\<close> below shows that twice the length of the text is enough.
\<close>

fun pvalue :: "nat \<Rightarrow> nat \<Rightarrow> string \<Rightarrow> (json \<times> string) option"
  and pelems :: "nat \<Rightarrow> nat \<Rightarrow> string \<Rightarrow> (json list \<times> string) option"
  and pmembers :: "nat \<Rightarrow> nat \<Rightarrow> string \<Rightarrow> ((string \<times> json) list \<times> string) option"
where
  "pvalue 0 d s = None"
| "pvalue (Suc n) d [] = None"
| "pvalue (Suc n) d (c # s) =
     (if c = CHR 0x22 then map_option (\<lambda>(x, t). (JStr x, t)) (str_body s)
      else if c = CHR ''{'' then
        (if d = 0 then None
         else if skip_ws s \<noteq> [] \<and> hd (skip_ws s) = CHR ''}'' then Some (JObj [], tl (skip_ws s))
         else map_option (\<lambda>(x, t). (JObj x, t)) (pmembers n (d - 1) (skip_ws s)))
      else if c = CHR ''['' then
        (if d = 0 then None
         else if skip_ws s \<noteq> [] \<and> hd (skip_ws s) = CHR '']'' then Some (JArr [], tl (skip_ws s))
         else map_option (\<lambda>(x, t). (JArr x, t)) (pelems n (d - 1) (skip_ws s)))
      else if c = CHR ''-'' \<or> is_digit c then number_text (c # s)
      else literal literals (c # s))"
| "pelems 0 d s = None"
| "pelems (Suc n) d s =
     (case pvalue n d s of None \<Rightarrow> None
      | Some (x, t) \<Rightarrow>
          (case skip_ws t of [] \<Rightarrow> None
           | c # u \<Rightarrow> if c = CHR '']'' then Some ([x], u)
               else if c = CHR '','' then map_option (\<lambda>(xs, v). (x # xs, v)) (pelems n d (skip_ws u))
               else None))"
| "pmembers 0 d s = None"
| "pmembers (Suc n) d s =
     (if s \<noteq> [] \<and> hd s = CHR 0x22 then
        (case str_body (tl s) of None \<Rightarrow> None
         | Some (k, t) \<Rightarrow>
             if skip_ws t \<noteq> [] \<and> hd (skip_ws t) = CHR '':'' then
               (case pvalue n d (skip_ws (tl (skip_ws t))) of None \<Rightarrow> None
                | Some (x, u) \<Rightarrow>
                    (case skip_ws u of [] \<Rightarrow> None
                     | c # v \<Rightarrow> if c = CHR ''}'' then Some ([(k, x)], v)
                         else if c = CHR '','' then map_option (\<lambda>(ms, w). ((k, x) # ms, w)) (pmembers n d (skip_ws v))
                         else None))
             else None)
      else None)"

text \<open>
  \<open>json.Decoder.Decode\<close> reads one value and leaves the rest of the input; \<open>json.Unmarshal\<close> wants
  nothing but space after it.
\<close>

definition parse_first :: "string \<Rightarrow> json option" where
  "parse_first s = map_option fst (pvalue (Suc (2 * length s)) max_nesting (skip_ws s))"

definition parse_all :: "string \<Rightarrow> json option" where
  "parse_all s = (case pvalue (Suc (2 * length s)) max_nesting (skip_ws s) of
     Some (v, t) \<Rightarrow> if skip_ws t = [] then Some v else None | None \<Rightarrow> None)"

subsection \<open>The fuel is enough\<close>

lemma skip_ws_length: "length (skip_ws s) \<le> length s"
  by (rule length_dropWhile_le)

lemma str_body_length: "str_body s = Some (x, t) \<Longrightarrow> length t < length s"
proof (induction s arbitrary: x t rule: str_body.induct)
  case (2 a s)
  show ?case
  proof (cases "a = CHR 0x22")
    case True
    with 2(5) show ?thesis by (simp add: str_body.simps(2))
  next
    case a: False
    show ?thesis
    proof (cases "a = backslash")
      case True
      then obtain e s' where s: "s = e # s'" using 2(5) by (cases s) (auto simp: str_body.simps(2))
      show ?thesis
      proof (cases "e = CHR ''u''")
        case e: True
        with 2(5) True s obtain r u y where u: "u_escape s' = Some (r, u)" "str_body u = Some (y, t)"
          by (auto simp: str_body.simps(2) split: option.splits)
        with 2(1) [OF a True s e u(1) refl u(2)] u_escape_length [OF u(1)] s show ?thesis by simp
      next
        case e: False
        with 2(5) True s obtain c y where u: "simple_escape e = Some c" "str_body s' = Some (y, t)"
          by (auto simp: str_body.simps(2) split: option.splits)
        with 2(2) [OF a True s e u] s show ?thesis by simp
      qed
    next
      case b: False
      let ?n = "utf8_size (a # s)"
      have c: "\<not> byte_of a < 32" using 2(5) a b by (auto simp: str_body.simps(2))
      show ?thesis
      proof (cases "?n = 0")
        case True
        with 2(5) a b c obtain y where y: "str_body s = Some (y, t)" by (auto simp: str_body.simps(2))
        with 2(3) [OF a b c refl True y] show ?thesis by simp
      next
        case False
        with 2(5) a b c obtain y where y: "str_body (drop (?n - 1) s) = Some (y, t)"
          by (auto simp: str_body.simps(2) Let_def)
        with 2(4) [OF a b c refl False y] show ?thesis by simp
      qed
    qed
  qed
qed simp

lemma str_body_tl: "str_body (tl s) = Some (x, t) \<Longrightarrow> length t < length s"
  by (cases s) (auto dest: str_body_length)

lemma frac_part_length: "frac_part s = Some (f, t) \<Longrightarrow> length t \<le> length s"
  by (cases s) (auto simp: frac_part_def Let_def split: if_splits)

lemma exp_part_length: "exp_part s = Some (f, t) \<Longrightarrow> length t \<le> length s"
  by (cases s) (auto simp: exp_part_def Let_def split: if_splits)

lemma unsigned_number_length: "unsigned_number s = Some (v, t) \<Longrightarrow> length t < length s"
  by (cases s) (auto simp: unsigned_number_def int_part_def split: if_splits option.splits
      dest!: frac_part_length exp_part_length)

lemma number_text_length: "number_text s = Some (v, t) \<Longrightarrow> length t < length s"
  by (cases s) (auto simp: number_text_def split: if_splits dest!: unsigned_number_length)

lemma literal_length:
  "\<forall>(w, v) \<in> set ws. w \<noteq> [] \<Longrightarrow> literal ws (c # s) = Some (v, t) \<Longrightarrow> length t < length (c # s)"
  by (induction ws "c # s" rule: literal.induct) (auto split: if_splits)

lemma literals_length: "literal literals (c # s) = Some (v, t) \<Longrightarrow> length t \<le> length s"
  using literal_length [of literals c s v t] by (simp add: literals_def)

lemma skip_ws_shorter: "skip_ws s = c # t \<Longrightarrow> length t < length s"
  using skip_ws_length [of s] by simp

lemma skip_ws_tl: "length (tl (skip_ws s)) \<le> length s"
  using skip_ws_length [of s] by simp

lemma parse_length:
  "pvalue n d s = Some (v, t) \<Longrightarrow> length t < length s"
  "pelems n d s = Some (vs, t) \<Longrightarrow> length t < length s"
  "pmembers n d s = Some (ms, t) \<Longrightarrow> length t < length s"
proof (induction n d s and n d s and n d s arbitrary: v t and vs t and ms t rule: pvalue_pelems_pmembers.induct)
  case (3 n d c s)
  have m: "pmembers n (d - 1) (skip_ws s) = Some (x, t) \<Longrightarrow> length t < Suc (length s)"
    if "c = CHR ''{''" "d \<noteq> 0" "\<not> (skip_ws s \<noteq> [] \<and> hd (skip_ws s) = CHR ''}'')" for x
    using 3(1) [OF _ that, of x t] that(1) skip_ws_length [of s] by fastforce
  have e: "pelems n (d - 1) (skip_ws s) = Some (x, t) \<Longrightarrow> length t < Suc (length s)"
    if "c = CHR ''[''" "d \<noteq> 0" "\<not> (skip_ws s \<noteq> [] \<and> hd (skip_ws s) = CHR '']'')" for x
    using 3(2) [OF _ _ that, of x t] that(1) skip_ws_length [of s] by fastforce
  from 3(3) m e show ?case
    using skip_ws_tl [of s]
    by (auto split: if_splits dest: str_body_length number_text_length literals_length
        intro: le_less_trans [OF _ lessI])
next
  case (5 n d s)
  from 5(3) obtain x u c w where x: "pvalue n d s = Some (x, u)" "skip_ws u = c # w"
    by (auto split: option.splits list.splits)
  have l: "length w < length s" using 5(1) [OF x(1)] skip_ws_shorter [OF x(2)] by simp
  show ?case
  proof (cases "c = CHR '']''")
    case True
    with 5(3) x l show ?thesis by simp
  next
    case False
    with 5(3) x obtain xs where c: "c = CHR '',''" and "pelems n d (skip_ws w) = Some (xs, t)"
      by (auto split: if_splits)
    with 5(2) [OF x(1) refl x(2) False c] l skip_ws_length [of w] show ?thesis by fastforce
  qed
next
  case (7 n d s)
  have q: "s \<noteq> [] \<and> hd s = CHR 0x22" using 7(3) by (auto split: if_splits)
  with 7(3) obtain k u where k: "str_body (tl s) = Some (k, u)" by (auto split: option.splits)
  have col: "skip_ws u \<noteq> [] \<and> hd (skip_ws u) = CHR '':''" using 7(3) q k by (auto split: if_splits)
  with 7(3) q k obtain x y c w where x: "pvalue n d (skip_ws (tl (skip_ws u))) = Some (x, y)" "skip_ws y = c # w"
    by (auto split: option.splits list.splits)
  have "length u < length s" using str_body_length [OF k] by simp
  moreover have "length y < length (skip_ws (tl (skip_ws u)))" using 7(1) [OF q k refl col x(1)] .
  moreover note skip_ws_length [of "tl (skip_ws u)"] skip_ws_tl [of u] skip_ws_shorter [OF x(2)]
  ultimately have l: "length w < length s" by linarith
  show ?case
  proof (cases "c = CHR ''}''")
    case True
    with 7(3) q k col x l show ?thesis by simp
  next
    case False
    with 7(3) q k col x obtain xs where c: "c = CHR '',''" and "pmembers n d (skip_ws w) = Some (xs, t)"
      by (auto split: if_splits)
    with 7(2) [OF q k refl col x(1) refl x(2) False c] l skip_ws_length [of w] show ?thesis by fastforce
  qed
qed simp_all

lemma parse_fuel:
  "2 * length s < n \<Longrightarrow> pvalue (Suc n) d s = pvalue n d s"
  "2 * length s + 1 < n \<Longrightarrow> pelems (Suc n) d s = pelems n d s"
  "2 * length s + 1 < n \<Longrightarrow> pmembers (Suc n) d s = pmembers n d s"
proof (induction n arbitrary: d s)
  case (Suc n)
  {
    case 1
    show ?case
    proof (cases s)
      case (Cons c r)
      have "2 * length (skip_ws r) + 1 < n" using 1 Cons skip_ws_length [of r] by simp
      with Suc(2,3) Cons show ?thesis by (simp only: pvalue.simps)
    qed simp
  next
    case 2
    have v: "pvalue (Suc n) d s = pvalue n d s" using Suc(1) 2 by simp
    have t: "pelems (Suc n) d (skip_ws u) = pelems n d (skip_ws u)"
      if "pvalue n d s = Some (x, t)" "skip_ws t = c # u" for x t c u
      using parse_length(1) [OF that(1)] skip_ws_shorter [OF that(2)] skip_ws_length [of u] 2
      by (intro Suc(2)) linarith
    show ?case unfolding pelems.simps(2) [of "Suc n" d s] pelems.simps(2) [of n d s] v
      by (auto split: option.split list.split simp: t simp del: pelems.simps dropWhile_eq_Nil_conv)
  next
    case 3
    have v: "pvalue (Suc n) d (skip_ws (tl (skip_ws t))) = pvalue n d (skip_ws (tl (skip_ws t)))"
      if "str_body (tl s) = Some (k, t)" for k t
      using str_body_tl [OF that] skip_ws_tl [of t] skip_ws_length [of "tl (skip_ws t)"] 3
      by (intro Suc(1)) linarith
    have t: "pmembers (Suc n) d (skip_ws v) = pmembers n d (skip_ws v)"
      if "str_body (tl s) = Some (k, t)" "pvalue n d (skip_ws (tl (skip_ws t))) = Some (x, u)" "skip_ws u = c # v" for k t x u c v
      using str_body_tl [OF that(1)] skip_ws_tl [of t] skip_ws_length [of "tl (skip_ws t)"]
        parse_length(1) [OF that(2)] skip_ws_shorter [OF that(3)] skip_ws_length [of v] 3
      by (intro Suc(3)) linarith
    show ?case unfolding pmembers.simps(2) [of "Suc n" d s] pmembers.simps(2) [of n d s]
      by (auto split: option.split list.split simp: v t simp del: pmembers.simps dropWhile_eq_Nil_conv)
  }
qed simp_all

lemma pvalue_fuel: "2 * length s < n \<Longrightarrow> n \<le> m \<Longrightarrow> pvalue m d s = pvalue n d s"
proof (induction m)
  case (Suc m)
  then show ?case using parse_fuel(1) [of s m d] by (cases "n = Suc m") auto
qed simp

section \<open>Printing objects\<close>

text \<open>What the server marshals into a token: strings, integers and lists of strings.\<close>

datatype scalar = SStr string | SInt int | SStrs "string list"

fun commas :: "string list \<Rightarrow> string" where
  "commas [] = []"
| "commas [x] = x"
| "commas (x # xs) = x @ CHR '','' # commas xs"

fun print_scalar :: "scalar \<Rightarrow> string" where
  "print_scalar (SStr s) = quote s"
| "print_scalar (SInt n) = show_int n"
| "print_scalar (SStrs xs) = CHR ''['' # commas (map quote xs) @ '']''"

definition print_member :: "string \<times> scalar \<Rightarrow> string" where
  "print_member m = quote (fst m) @ CHR '':'' # print_scalar (snd m)"

definition print_obj :: "(string \<times> scalar) list \<Rightarrow> string" where
  "print_obj ms = CHR ''{'' # commas (map print_member ms) @ ''}''"

fun json_of :: "scalar \<Rightarrow> json" where
  "json_of (SStr s) = JStr (valid_utf8_text s)"
| "json_of (SInt n) = JInt n"
| "json_of (SStrs xs) = JArr (map (\<lambda>s. JStr (valid_utf8_text s)) xs)"

definition obj_of :: "(string \<times> scalar) list \<Rightarrow> (string \<times> json) list" where
  "obj_of = map (\<lambda>(k, v). (valid_utf8_text k, json_of v))"

lemma skip_ws_stay: "\<not> is_space c \<Longrightarrow> skip_ws (c # s) = c # s"
  by simp

lemma no_space: "\<not> is_space (CHR 0x22)" "\<not> is_space (CHR '','')" "\<not> is_space (CHR '':'')"
  "\<not> is_space (CHR ''{'')" "\<not> is_space (CHR ''}'')" "\<not> is_space (CHR ''['')" "\<not> is_space (CHR '']'')"
  "is_digit c \<Longrightarrow> \<not> is_space c" "\<not> is_space (CHR ''-'')"
  by (auto simp: is_space_def is_digit_def in_range_def byte_of_def)

lemma pvalue_quote: "pvalue (Suc n) d (quote s @ t) = Some (JStr (valid_utf8_text s), t)"
  by (simp add: quote_def str_body_quote)

lemma show_int_head: "\<exists>c r. show_int n = c # r \<and> (c = CHR ''-'' \<or> is_digit c)"
  using show_nat_digits [of "nat n"] show_nat_zero [of "nat n"]
  by (cases "show_nat (nat n)") (auto simp: show_int_def)

lemma pvalue_show_int:
  assumes "ends_number t"
  shows "pvalue (Suc n) d (show_int k @ t) = Some (JInt k, t)"
proof -
  obtain c r where c: "show_int k = c # r" "c = CHR ''-'' \<or> is_digit c" using show_int_head by blast
  then have "c \<noteq> CHR 0x22" "c \<noteq> CHR ''{''" "c \<noteq> CHR ''[''"
    by (auto simp: is_digit_def in_range_def byte_of_def)
  with c number_show_int [OF assms, of k] show ?thesis by simp
qed

lemma commas_Cons: "xs \<noteq> [] \<Longrightarrow> commas (x # xs) = x @ CHR '','' # commas xs"
  by (cases xs) simp_all

lemma pelems_quotes:
  "xs \<noteq> [] \<Longrightarrow> length xs < n \<Longrightarrow>
   pelems n d (commas (map quote xs) @ CHR '']'' # t) = Some (map (\<lambda>s. JStr (valid_utf8_text s)) xs, t)"
proof (induction xs arbitrary: n)
  case (Cons x xs)
  then obtain m where n: "n = Suc (Suc m)" by (metis Suc_less_eq2 length_Cons less_nat_zero_code not0_implies_Suc)
  show ?case
  proof (cases "xs = []")
    case True
    then show ?thesis by (simp add: n pvalue_quote skip_ws_stay no_space del: pvalue.simps)
  next
    case False
    then obtain r where r: "commas (map quote xs) = CHR 0x22 # r" by (cases xs rule: commas.cases) (auto simp: quote_def)
    from Cons False have "pelems (Suc m) d (commas (map quote xs) @ CHR '']'' # t) = Some (map (\<lambda>s. JStr (valid_utf8_text s)) xs, t)"
      by (simp add: n del: pelems.simps)
    with False show ?thesis
      by (simp add: n pvalue_quote skip_ws_stay no_space commas_Cons r del: pvalue.simps pelems.simps(2) add: pelems.simps(2) [of "Suc m"])
  qed
qed simp

text \<open>The fuel a printed value needs.\<close>

fun need :: "scalar \<Rightarrow> nat" where
  "need (SStrs xs) = length xs + 2"
| "need _ = 1"

lemma pvalue_scalar:
  assumes "ends_number t" "need v \<le> n" "0 < d"
  shows "pvalue n d (print_scalar v @ t) = Some (json_of v, t)"
proof -
  obtain m where n: "n = Suc m" using assms(2) by (cases n; cases v) auto
  show ?thesis
  proof (cases v)
    case (SStrs xs)
    show ?thesis
    proof (cases "xs = []")
      case True
      with SStrs assms(3) show ?thesis by (simp add: n skip_ws_stay no_space)
    next
      case False
      then obtain r where r: "commas (map quote xs) = CHR 0x22 # r" by (cases xs rule: commas.cases) (auto simp: quote_def)
      have "pelems m (d - 1) (commas (map quote xs) @ CHR '']'' # t) = Some (map (\<lambda>s. JStr (valid_utf8_text s)) xs, t)"
        using SStrs assms(2) False by (intro pelems_quotes) (auto simp: n)
      with SStrs assms(3) show ?thesis by (simp add: n r skip_ws_stay no_space)
    qed
  qed (simp_all only: n print_scalar.simps json_of.simps pvalue_quote pvalue_show_int [OF assms(1)])
qed

lemma print_members_head: "ms \<noteq> [] \<Longrightarrow> \<exists>r. commas (map print_member ms) = CHR 0x22 # r"
  by (cases "map print_member ms" rule: commas.cases) (auto simp: print_member_def quote_def)

lemma pmembers_print:
  assumes "ms \<noteq> []" "0 < d"
  shows "(\<Sum>m\<leftarrow>ms. Suc (need (snd m))) \<le> n \<Longrightarrow>
    pmembers n d (commas (map print_member ms) @ CHR ''}'' # t) = Some (obj_of ms, t)"
  using assms(1)
proof (induction ms arbitrary: n)
  case (Cons m ms)
  obtain k v where m: "m = (k, v)" by force
  obtain j where n: "n = Suc j" "need v \<le> j" using Cons.prems by (cases n) (auto simp: m)
  have q: "str_body (quote_body k @ CHR 0x22 # CHR '':'' # u) = Some (valid_utf8_text k, CHR '':'' # u)" for u
    by (rule str_body_quote)
  obtain c r where c: "print_scalar v = c # r" "\<not> is_space c"
    using show_int_head by (cases v) (fastforce simp: quote_def no_space)+
  have pm: "print_member (k, v) = CHR 0x22 # quote_body k @ CHR 0x22 # CHR '':'' # print_scalar v"
    by (simp add: print_member_def quote_def)
  show ?case
  proof (cases "ms = []")
    case True
    have "pvalue j d (print_scalar v @ CHR ''}'' # t) = Some (json_of v, CHR ''}'' # t)"
      by (rule pvalue_scalar [OF _ n(2) assms(2)]) (simp add: ends_number_def is_digit_def in_range_def byte_of_def)
    with True c show ?thesis
      by (simp add: m n pm q skip_ws_stay no_space obj_of_def)
  next
    case False
    then obtain r' where r': "commas (map print_member ms) = CHR 0x22 # r'"
      using print_members_head by blast
    have "pmembers j d (commas (map print_member ms) @ CHR ''}'' # t) = Some (obj_of ms, t)"
      using Cons.prems by (intro Cons.IH False) (simp add: m n)
    moreover have "pvalue j d (print_scalar v @ CHR '','' # u) = Some (json_of v, CHR '','' # u)" for u
      by (rule pvalue_scalar [OF _ n(2) assms(2)]) (simp add: ends_number_def is_digit_def in_range_def byte_of_def)
    ultimately show ?thesis using False c
      by (simp add: m n pm q skip_ws_stay no_space obj_of_def commas_Cons r')
  qed
qed simp

lemma pvalue_print_obj:
  assumes "0 < d" "1 + (\<Sum>m\<leftarrow>ms. Suc (need (snd m))) \<le> n"
  shows "pvalue n (Suc d) (print_obj ms @ t) = Some (JObj (obj_of ms), t)"
proof (cases "ms = []")
  case True
  with assms show ?thesis by (cases n) (simp_all add: print_obj_def skip_ws_stay no_space obj_of_def)
next
  case False
  then obtain r where r: "commas (map print_member ms) = CHR 0x22 # r"
    using print_members_head by blast
  obtain j where n: "n = Suc j" using assms by (cases n) auto
  have "pmembers j d (commas (map print_member ms) @ CHR ''}'' # t) = Some (obj_of ms, t)"
    using assms n by (intro pmembers_print False) auto
  then show ?thesis by (simp add: n print_obj_def r skip_ws_stay no_space)
qed

text \<open>Reading what was printed, alone in its input or with more text after it.\<close>

lemma pvalue_print_fuel:
  "pvalue (Suc (2 * length (print_obj ms @ t))) max_nesting (print_obj ms @ t) = Some (JObj (obj_of ms), t)"
proof -
  let ?s = "print_obj ms @ t"
  define n where "n = max (Suc (2 * length ?s)) (1 + (\<Sum>m\<leftarrow>ms. Suc (need (snd m))))"
  have "pvalue (Suc (2 * length ?s)) max_nesting ?s = pvalue n max_nesting ?s"
    by (rule sym, rule pvalue_fuel) (simp_all add: n_def)
  also have "\<dots> = Some (JObj (obj_of ms), t)"
    using pvalue_print_obj [of 9999 ms n t] by (simp add: n_def max_nesting_def)
  finally show ?thesis .
qed

lemma print_obj_start: "skip_ws (print_obj ms @ t) = print_obj ms @ t"
  by (simp add: print_obj_def no_space)

theorem parse_first_print: "parse_first (print_obj ms @ t) = Some (JObj (obj_of ms))"
  using pvalue_print_fuel [of ms t] by (simp add: parse_first_def print_obj_start del: pvalue.simps)

theorem parse_all_print: "parse_all (print_obj ms) = Some (JObj (obj_of ms))"
  using pvalue_print_fuel [of ms "[]"] print_obj_start [of ms "[]"]
  by (simp add: parse_all_def del: pvalue.simps)

end
