(* ===== verification/Jwt_Claims.thy ===== *)
theory Jwt_Claims
  imports Json_Text
begin

text \<open>
  The claims of package \<open>github.com/golang-jwt/jwt/v4\<close>: its errors, the values a claim may have
  in a \<open>MapClaims\<close>, numeric dates, and the validation of \<open>MapClaims\<close>, \<open>RegisteredClaims\<close> and
  \<open>StandardClaims\<close>. The time of a claim is a count of seconds in 64 bits from the year 1, as in
  \<open>time.Time\<close>. What a conversion of a float outside \<open>int64\<close> gives is left open by Go: the
  argument \<open>oor\<close>.
\<close>

section \<open>Errors\<close>

datatype sentinel =
    ErrInvalidKey
  | ErrInvalidKeyType
  | ErrHashUnavailable
  | ErrTokenMalformed
  | ErrTokenUnverifiable
  | ErrTokenSignatureInvalid
  | ErrTokenInvalidAudience
  | ErrTokenExpired
  | ErrTokenUsedBeforeIssued
  | ErrTokenInvalidIssuer
  | ErrTokenNotValidYet
  | ErrTokenInvalidId
  | ErrTokenInvalidClaims
  | ErrSignatureInvalid

fun sentinel_text :: "sentinel \<Rightarrow> string" where
  "sentinel_text ErrInvalidKey = ''key is invalid''"
| "sentinel_text ErrInvalidKeyType = ''key is of invalid type''"
| "sentinel_text ErrHashUnavailable = ''the requested hash function is unavailable''"
| "sentinel_text ErrTokenMalformed = ''token is malformed''"
| "sentinel_text ErrTokenUnverifiable = ''token is unverifiable''"
| "sentinel_text ErrTokenSignatureInvalid = ''token signature is invalid''"
| "sentinel_text ErrTokenInvalidAudience = ''token has invalid audience''"
| "sentinel_text ErrTokenExpired = ''token is expired''"
| "sentinel_text ErrTokenUsedBeforeIssued = ''token used before issued''"
| "sentinel_text ErrTokenInvalidIssuer = ''token has invalid issuer''"
| "sentinel_text ErrTokenNotValidYet = ''token is not valid yet''"
| "sentinel_text ErrTokenInvalidId = ''token has invalid id''"
| "sentinel_text ErrTokenInvalidClaims = ''token has invalid claims''"
| "sentinel_text ErrSignatureInvalid = ''signature is invalid''"

text \<open>The bits of \<open>ValidationError.Errors\<close>.\<close>

type_synonym flags = "32 word"

definition ValidationErrorMalformed :: flags where
  "ValidationErrorMalformed = 1"

definition ValidationErrorUnverifiable :: flags where
  "ValidationErrorUnverifiable = 2"

definition ValidationErrorSignatureInvalid :: flags where
  "ValidationErrorSignatureInvalid = 4"

definition ValidationErrorAudience :: flags where
  "ValidationErrorAudience = 8"

definition ValidationErrorExpired :: flags where
  "ValidationErrorExpired = 16"

definition ValidationErrorIssuedAt :: flags where
  "ValidationErrorIssuedAt = 32"

definition ValidationErrorIssuer :: flags where
  "ValidationErrorIssuer = 64"

definition ValidationErrorNotValidYet :: flags where
  "ValidationErrorNotValidYet = 128"

definition ValidationErrorId :: flags where
  "ValidationErrorId = 256"

definition ValidationErrorClaimsInvalid :: flags where
  "ValidationErrorClaimsInvalid = 512"


lemmas error_flags = ValidationErrorMalformed_def ValidationErrorUnverifiable_def
  ValidationErrorSignatureInvalid_def ValidationErrorAudience_def ValidationErrorExpired_def
  ValidationErrorIssuedAt_def ValidationErrorIssuer_def ValidationErrorNotValidYet_def
  ValidationErrorId_def ValidationErrorClaimsInvalid_def

text \<open>
  \<open>ValidationError\<close> with its inner error, flags and text; the package's error variables; errors
  made on the spot, by their message; errors of the standard library, by the package they come
  from. \<open>ExpiredBy\<close> is the message with the delay in it, a \<open>time.Duration\<close>. \<open>GoPanic\<close> is a
  panic instead of a returned error.
\<close>

datatype err = Sent sentinel | Plain string | LibError string | ExpiredBy i64
  | ValidationError "err option" flags string | GoPanic string

definition NewValidationError :: "string \<Rightarrow> flags \<Rightarrow> err" where
  "NewValidationError t fl = ValidationError None fl t"

fun flag_of :: "sentinel \<Rightarrow> flags" where
  "flag_of ErrTokenMalformed = ValidationErrorMalformed"
| "flag_of ErrTokenUnverifiable = ValidationErrorUnverifiable"
| "flag_of ErrTokenSignatureInvalid = ValidationErrorSignatureInvalid"
| "flag_of ErrTokenInvalidAudience = ValidationErrorAudience"
| "flag_of ErrTokenExpired = ValidationErrorExpired"
| "flag_of ErrTokenUsedBeforeIssued = ValidationErrorIssuedAt"
| "flag_of ErrTokenInvalidIssuer = ValidationErrorIssuer"
| "flag_of ErrTokenNotValidYet = ValidationErrorNotValidYet"
| "flag_of ErrTokenInvalidId = ValidationErrorId"
| "flag_of ErrTokenInvalidClaims = ValidationErrorClaimsInvalid"
| "flag_of _ = 0"

text \<open>\<open>errors.Is(e, target)\<close> for the package's error variables.\<close>

fun err_is :: "err \<Rightarrow> sentinel \<Rightarrow> bool" where
  "err_is (Sent s) t = (s = t)"
| "err_is (ValidationError inner fl text) t =
     ((case inner of None \<Rightarrow> False | Some e \<Rightarrow> err_is e t) \<or> and fl (flag_of t) \<noteq> 0)"
| "err_is _ t = False"

text \<open>\<open>Error()\<close>, the message; \<open>shown\<close> gives what the standard library writes: its own messages, durations.\<close>

fun err_text :: "(err \<Rightarrow> string) \<Rightarrow> err \<Rightarrow> string" where
  "err_text shown (Sent s) = sentinel_text s"
| "err_text shown (Plain t) = t"
| "err_text shown (ExpiredBy d) = sentinel_text ErrTokenExpired @ '' by '' @ shown (ExpiredBy d)"
| "err_text shown (LibError p) = shown (LibError p)"
| "err_text shown (GoPanic t) = t"
| "err_text shown (ValidationError inner fl text) =
     (case inner of Some e \<Rightarrow> err_text shown e
      | None \<Rightarrow> if text \<noteq> [] then text else ''token is invalid'')"

section \<open>Values of claims\<close>

text \<open>
  Values of type \<open>interface{}\<close>. Decoding gives all but \<open>GInt\<close>, the integers that the program puts
  into claims itself. \<open>GNum\<close> is a \<open>json.Number\<close>, by its literal.
\<close>

datatype gov = GNil | GBool bool | GInt int | GFloat f64 | GNum json | GStr string | GList "gov list"
  | GMap "(string \<times> gov) list"

fun f64_of_json :: "json \<Rightarrow> f64" where
  "f64_of_json (JInt n) = f64_of_int n"
| "f64_of_json (JDec m x) = f64_of_dec m x"
| "f64_of_json _ = NaN"

definition finite_f64 :: "f64 \<Rightarrow> bool" where
  "finite_f64 x \<longleftrightarrow> (case x of Fin m e \<Rightarrow> True | _ \<Rightarrow> False)"

text \<open>
  A number that no \<open>float64\<close> reaches is an error (\<open>None\<close>); a repeated member overwrites the
  earlier one. The first argument is \<open>UseNumber\<close>.
\<close>

fun to_interface :: "bool \<Rightarrow> json \<Rightarrow> gov option"
  and to_interfaces :: "bool \<Rightarrow> json list \<Rightarrow> gov list option"
  and to_map :: "bool \<Rightarrow> (string \<times> json) list \<Rightarrow> (string, gov) gomap \<Rightarrow> (string, gov) gomap option"
where
  "to_interface num JNull = Some GNil"
| "to_interface num (JBool b) = Some (GBool b)"
| "to_interface num (JInt n) = (if num then Some (GNum (JInt n))
     else if finite_f64 (f64_of_int n) then Some (GFloat (f64_of_int n)) else None)"
| "to_interface num (JDec m x) = (if num then Some (GNum (JDec m x))
     else if finite_f64 (f64_of_dec m x) then Some (GFloat (f64_of_dec m x)) else None)"
| "to_interface num (JStr s) = Some (GStr s)"
| "to_interface num (JArr vs) = map_option GList (to_interfaces num vs)"
| "to_interface num (JObj ms) = map_option GMap (to_map num ms [])"
| "to_interfaces num [] = Some []"
| "to_interfaces num (v # vs) = (case to_interface num v of None \<Rightarrow> None
     | Some g \<Rightarrow> map_option ((#) g) (to_interfaces num vs))"
| "to_map num [] m = Some m"
| "to_map num ((k, v) # ms) m = (case to_interface num v of None \<Rightarrow> None
     | Some g \<Rightarrow> to_map num ms (gm_put k g m))"

section \<open>Times\<close>

datatype gotime = Time (t_sec: i64) (t_nsec: int)

text \<open>Seconds from the year 1 to 1970.\<close>

definition unix_offset :: i64 where
  "unix_offset = 62135596800"

text \<open>\<open>time.Unix\<close>, for any number of nanoseconds.\<close>

definition time_unix :: "i64 \<Rightarrow> i64 \<Rightarrow> gotime" where
  "time_unix s ns =
     (let n = sint ns; q = sgn n * (\<bar>n\<bar> div 1000000000); r = n - q * 1000000000 in
      if r < 0 then Time (s + word_of_int q - 1 + unix_offset) (r + 1000000000)
      else Time (s + word_of_int q + unix_offset) r)"

definition time_Unix :: "gotime \<Rightarrow> i64" where
  "time_Unix t = t_sec t - unix_offset"

definition time_before :: "gotime \<Rightarrow> gotime \<Rightarrow> bool" where
  "time_before t u \<longleftrightarrow> sint (t_sec t) < sint (t_sec u) \<or> (t_sec t = t_sec u \<and> t_nsec t < t_nsec u)"

definition time_after :: "gotime \<Rightarrow> gotime \<Rightarrow> bool" where
  "time_after t u \<longleftrightarrow> sint (t_sec u) < sint (t_sec t) \<or> (t_sec t = t_sec u \<and> t_nsec u < t_nsec t)"

definition time_equal :: "gotime \<Rightarrow> gotime \<Rightarrow> bool" where
  "time_equal t u \<longleftrightarrow> t_sec t = t_sec u \<and> t_nsec t = t_nsec u"

text \<open>\<open>Truncate(time.Second)\<close>\<close>

definition trunc_second :: "gotime \<Rightarrow> gotime" where
  "trunc_second t = Time (t_sec t) 0"

text \<open>\<open>t.Sub(u)\<close> in nanoseconds, saturating.\<close>

definition time_sub :: "gotime \<Rightarrow> gotime \<Rightarrow> i64" where
  "time_sub t u =
     (let d = (sint (t_sec t) - sint (t_sec u)) * 1000000000 + (t_nsec t - t_nsec u) in
      word_of_int (max (- (2 ^ 63)) (min (2 ^ 63 - 1) d)))"

section \<open>Numeric dates\<close>

text \<open>\<open>math.Modf\<close>, and the product of a float with a whole number that is a float.\<close>

fun f64_modf :: "f64 \<Rightarrow> f64 \<times> f64" where
  "f64_modf (Fin m e) =
     (let i = f64_of_int (if 0 \<le> e then m * 2 ^ nat e else sgn m * (\<bar>m\<bar> div 2 ^ nat (- e)))
      in (i, f64_sub (Fin m e) i))"
| "f64_modf x = (x, NaN)"

fun f64_scale :: "int \<Rightarrow> f64 \<Rightarrow> f64" where
  "f64_scale k (Fin m e) = f64_round (k * m) e"
| "f64_scale k x = x"

definition to_i64 :: "(f64 \<Rightarrow> int) \<Rightarrow> f64 \<Rightarrow> i64" where
  "to_i64 oor x = word_of_int (f64_to_int64 (oor x) x)"

type_synonym numeric_date = gotime

definition NewNumericDate :: "gotime \<Rightarrow> numeric_date" where
  "NewNumericDate t = trunc_second t"

definition newNumericDateFromSeconds :: "(f64 \<Rightarrow> int) \<Rightarrow> f64 \<Rightarrow> numeric_date" where
  "newNumericDateFromSeconds oor f =
     (let (round, frac) = f64_modf f in
      NewNumericDate (time_unix (to_i64 oor round) (to_i64 oor (f64_scale 1000000000 frac))))"

text \<open>\<open>MarshalJSON\<close> at the default precision: the seconds, as a whole number.\<close>

definition date_json :: "numeric_date \<Rightarrow> scalar" where
  "date_json d = SInt (sint (time_Unix (trunc_second d)))"

text \<open>\<open>UnmarshalJSON\<close> of a number, or of a string with a number in it, into a pointer; \<open>null\<close> sets it to nil.\<close>

definition date_of_number :: "(f64 \<Rightarrow> int) \<Rightarrow> json \<Rightarrow> numeric_date option" where
  "date_of_number oor v = (let f = f64_of_json v in
     if finite_f64 f then Some (newNumericDateFromSeconds oor f) else None)"

fun dec_date :: "(f64 \<Rightarrow> int) \<Rightarrow> (numeric_date option \<Rightarrow> 'r \<Rightarrow> 'r) \<Rightarrow> json \<Rightarrow> 'r \<Rightarrow> 'r option" where
  "dec_date oor upd JNull r = Some (upd None r)"
| "dec_date oor upd (JInt n) r = map_option (\<lambda>d. upd (Some d) r) (date_of_number oor (JInt n))"
| "dec_date oor upd (JDec m x) r = map_option (\<lambda>d. upd (Some d) r) (date_of_number oor (JDec m x))"
| "dec_date oor upd (JStr s) r =
     (case number_text s of
        Some (v, t) \<Rightarrow> if t = [] then map_option (\<lambda>d. upd (Some d) r) (date_of_number oor v) else None
      | None \<Rightarrow> None)"
| "dec_date oor upd _ r = None"

text \<open>\<open>ClaimStrings\<close>: a string or an array of strings.\<close>

fun all_strings :: "json list \<Rightarrow> string list option" where
  "all_strings [] = Some []"
| "all_strings (JStr s # vs) = map_option ((#) s) (all_strings vs)"
| "all_strings _ = None"

fun dec_strings :: "(string list \<Rightarrow> 'r \<Rightarrow> 'r) \<Rightarrow> json \<Rightarrow> 'r \<Rightarrow> 'r option" where
  "dec_strings upd JNull r = Some r"
| "dec_strings upd (JStr s) r = Some (upd [s] r)"
| "dec_strings upd (JArr vs) r = map_option (\<lambda>ss. upd ss r) (all_strings vs)"
| "dec_strings upd _ r = None"

section \<open>The checks\<close>

definition verifyAud :: "string list \<Rightarrow> string \<Rightarrow> bool \<Rightarrow> bool" where
  "verifyAud aud cmp required =
     (if aud = [] then \<not> required
      else if concat aud = [] then \<not> required
      else \<exists>a \<in> set aud. a = cmp)"

definition verifyExp :: "gotime option \<Rightarrow> gotime \<Rightarrow> bool \<Rightarrow> bool" where
  "verifyExp exp now required = (case exp of None \<Rightarrow> \<not> required | Some e \<Rightarrow> time_before now e)"

definition verifyIat :: "gotime option \<Rightarrow> gotime \<Rightarrow> bool \<Rightarrow> bool" where
  "verifyIat iat now required =
     (case iat of None \<Rightarrow> \<not> required | Some i \<Rightarrow> time_after now i \<or> time_equal now i)"

definition verifyNbf :: "gotime option \<Rightarrow> gotime \<Rightarrow> bool \<Rightarrow> bool" where
  "verifyNbf nbf now required =
     (case nbf of None \<Rightarrow> \<not> required | Some n \<Rightarrow> time_after now n \<or> time_equal now n)"

definition verifyIss :: "string \<Rightarrow> string \<Rightarrow> bool \<Rightarrow> bool" where
  "verifyIss iss cmp required = (if iss = [] then \<not> required else iss = cmp)"

text \<open>
  The \<open>ValidationError\<close> that the three \<open>Valid\<close> methods build: a later failed check replaces
  the inner error and adds its flag.
\<close>

definition add_error :: "bool \<Rightarrow> err \<Rightarrow> flags \<Rightarrow> err option \<times> flags \<Rightarrow> err option \<times> flags" where
  "add_error ok inner fl acc = (if ok then acc else (Some inner, or (snd acc) fl))"

definition valid_result :: "err option \<times> flags \<Rightarrow> err option" where
  "valid_result acc = (if snd acc = 0 then None else Some (ValidationError (fst acc) (snd acc) []))"

lemma valid_result_checks:
  "valid_result (add_error c e3 ValidationErrorNotValidYet (add_error b e2 ValidationErrorIssuedAt
     (add_error a e1 ValidationErrorExpired (None, 0)))) = None \<longleftrightarrow> a \<and> b \<and> c"
  by (auto simp: valid_result_def add_error_def error_flags)

subsection \<open>MapClaims\<close>

type_synonym map_claims = "(string, gov) gomap"

text \<open>The list of audiences of the claim, \<open>None\<close> when it holds something that is no string.\<close>

fun gov_strings :: "gov list \<Rightarrow> string list option" where
  "gov_strings [] = Some []"
| "gov_strings (GStr s # vs) = map_option ((#) s) (gov_strings vs)"
| "gov_strings _ = None"

definition map_VerifyAudience :: "map_claims \<Rightarrow> string \<Rightarrow> bool \<Rightarrow> bool" where
  "map_VerifyAudience m cmp req =
     (case gm_get m ''aud'' of
        Some (GStr s) \<Rightarrow> verifyAud [s] cmp req
      | Some (GList vs) \<Rightarrow> (case gov_strings vs of None \<Rightarrow> False | Some aud \<Rightarrow> verifyAud aud cmp req)
      | _ \<Rightarrow> verifyAud [] cmp req)"

definition f64_is0 :: "f64 \<Rightarrow> bool" where
  "f64_is0 x \<longleftrightarrow> (case x of Fin m e \<Rightarrow> m = 0 | _ \<Rightarrow> False)"

definition map_VerifyExpiresAt :: "(f64 \<Rightarrow> int) \<Rightarrow> map_claims \<Rightarrow> i64 \<Rightarrow> bool \<Rightarrow> bool" where
  "map_VerifyExpiresAt oor m cmp req =
     (let cmpTime = time_unix cmp 0 in
      case gm_get m ''exp'' of
        None \<Rightarrow> \<not> req
      | Some (GFloat exp) \<Rightarrow>
          if f64_is0 exp then verifyExp None cmpTime req
          else verifyExp (Some (newNumericDateFromSeconds oor exp)) cmpTime req
      | Some (GNum exp) \<Rightarrow> verifyExp (Some (newNumericDateFromSeconds oor (f64_of_json exp))) cmpTime req
      | Some _ \<Rightarrow> False)"

definition map_VerifyIssuedAt :: "(f64 \<Rightarrow> int) \<Rightarrow> map_claims \<Rightarrow> i64 \<Rightarrow> bool \<Rightarrow> bool" where
  "map_VerifyIssuedAt oor m cmp req =
     (let cmpTime = time_unix cmp 0 in
      case gm_get m ''iat'' of
        None \<Rightarrow> \<not> req
      | Some (GFloat iat) \<Rightarrow>
          if f64_is0 iat then verifyIat None cmpTime req
          else verifyIat (Some (newNumericDateFromSeconds oor iat)) cmpTime req
      | Some (GNum iat) \<Rightarrow> verifyIat (Some (newNumericDateFromSeconds oor (f64_of_json iat))) cmpTime req
      | Some _ \<Rightarrow> False)"

definition map_VerifyNotBefore :: "(f64 \<Rightarrow> int) \<Rightarrow> map_claims \<Rightarrow> i64 \<Rightarrow> bool \<Rightarrow> bool" where
  "map_VerifyNotBefore oor m cmp req =
     (let cmpTime = time_unix cmp 0 in
      case gm_get m ''nbf'' of
        None \<Rightarrow> \<not> req
      | Some (GFloat nbf) \<Rightarrow>
          if f64_is0 nbf then verifyNbf None cmpTime req
          else verifyNbf (Some (newNumericDateFromSeconds oor nbf)) cmpTime req
      | Some (GNum nbf) \<Rightarrow> verifyNbf (Some (newNumericDateFromSeconds oor (f64_of_json nbf))) cmpTime req
      | Some _ \<Rightarrow> False)"

definition map_VerifyIssuer :: "map_claims \<Rightarrow> string \<Rightarrow> bool \<Rightarrow> bool" where
  "map_VerifyIssuer m cmp req =
     verifyIss (case gm_get m ''iss'' of Some (GStr s) \<Rightarrow> s | _ \<Rightarrow> []) cmp req"

definition map_Valid :: "(f64 \<Rightarrow> int) \<Rightarrow> gotime \<Rightarrow> map_claims \<Rightarrow> err option" where
  "map_Valid oor clock m =
     (let now = time_Unix clock;
          v1 = add_error (map_VerifyExpiresAt oor m now False) (Plain ''Token is expired'') ValidationErrorExpired (None, 0);
          v2 = add_error (map_VerifyIssuedAt oor m now False) (Plain ''Token used before issued'') ValidationErrorIssuedAt v1;
          v3 = add_error (map_VerifyNotBefore oor m now False) (Plain ''Token is not valid yet'') ValidationErrorNotValidYet v2
      in valid_result v3)"

subsection \<open>RegisteredClaims\<close>

record registered_claims =
  rc_Issuer :: string
  rc_Subject :: string
  rc_Audience :: "string list"
  rc_ExpiresAt :: "numeric_date option"
  rc_NotBefore :: "numeric_date option"
  rc_IssuedAt :: "numeric_date option"
  rc_ID :: string

definition zero_registered :: registered_claims where
  "zero_registered = \<lparr>rc_Issuer = [], rc_Subject = [], rc_Audience = [], rc_ExpiresAt = None,
     rc_NotBefore = None, rc_IssuedAt = None, rc_ID = []\<rparr>"

text \<open>Its members, for a struct in which it is embedded by \<open>emb\<close>.\<close>

definition registered_fields ::
  "(f64 \<Rightarrow> int) \<Rightarrow> ((registered_claims \<Rightarrow> registered_claims) \<Rightarrow> 'r \<Rightarrow> 'r) \<Rightarrow> 'r fields" where
  "registered_fields oor emb =
    [(''iss'', dec_string (\<lambda>s. emb (rc_Issuer_update (\<lambda>_. s)))),
     (''sub'', dec_string (\<lambda>s. emb (rc_Subject_update (\<lambda>_. s)))),
     (''aud'', dec_strings (\<lambda>s. emb (rc_Audience_update (\<lambda>_. s)))),
     (''exp'', dec_date oor (\<lambda>d. emb (rc_ExpiresAt_update (\<lambda>_. d)))),
     (''nbf'', dec_date oor (\<lambda>d. emb (rc_NotBefore_update (\<lambda>_. d)))),
     (''iat'', dec_date oor (\<lambda>d. emb (rc_IssuedAt_update (\<lambda>_. d)))),
     (''jti'', dec_string (\<lambda>s. emb (rc_ID_update (\<lambda>_. s))))]"

text \<open>What is written of it, in the order of its fields, empty ones left out.\<close>

definition omit_string :: "string \<Rightarrow> string \<Rightarrow> (string \<times> scalar) list" where
  "omit_string k s = (if s = [] then [] else [(k, SStr s)])"

definition omit_date :: "string \<Rightarrow> numeric_date option \<Rightarrow> (string \<times> scalar) list" where
  "omit_date k d = (case d of None \<Rightarrow> [] | Some d \<Rightarrow> [(k, date_json d)])"

definition registered_members :: "registered_claims \<Rightarrow> (string \<times> scalar) list" where
  "registered_members c =
     omit_string ''iss'' (rc_Issuer c) @ omit_string ''sub'' (rc_Subject c) @
     (if rc_Audience c = [] then [] else [(''aud'', SStrs (rc_Audience c))]) @
     omit_date ''exp'' (rc_ExpiresAt c) @ omit_date ''nbf'' (rc_NotBefore c) @
     omit_date ''iat'' (rc_IssuedAt c) @ omit_string ''jti'' (rc_ID c)"

definition reg_VerifyAudience :: "registered_claims \<Rightarrow> string \<Rightarrow> bool \<Rightarrow> bool" where
  "reg_VerifyAudience c cmp req = verifyAud (rc_Audience c) cmp req"

definition reg_VerifyExpiresAt :: "registered_claims \<Rightarrow> gotime \<Rightarrow> bool \<Rightarrow> bool" where
  "reg_VerifyExpiresAt c cmp req = verifyExp (rc_ExpiresAt c) cmp req"

definition reg_VerifyIssuedAt :: "registered_claims \<Rightarrow> gotime \<Rightarrow> bool \<Rightarrow> bool" where
  "reg_VerifyIssuedAt c cmp req = verifyIat (rc_IssuedAt c) cmp req"

definition reg_VerifyNotBefore :: "registered_claims \<Rightarrow> gotime \<Rightarrow> bool \<Rightarrow> bool" where
  "reg_VerifyNotBefore c cmp req = verifyNbf (rc_NotBefore c) cmp req"

definition reg_VerifyIssuer :: "registered_claims \<Rightarrow> string \<Rightarrow> bool \<Rightarrow> bool" where
  "reg_VerifyIssuer c cmp req = verifyIss (rc_Issuer c) cmp req"

definition reg_Valid :: "gotime \<Rightarrow> registered_claims \<Rightarrow> err option" where
  "reg_Valid now c =
     (let delta = (case rc_ExpiresAt c of None \<Rightarrow> 0 | Some e \<Rightarrow> time_sub now e);
          v1 = add_error (reg_VerifyExpiresAt c now False) (ExpiredBy delta) ValidationErrorExpired (None, 0);
          v2 = add_error (reg_VerifyIssuedAt c now False) (Sent ErrTokenUsedBeforeIssued) ValidationErrorIssuedAt v1;
          v3 = add_error (reg_VerifyNotBefore c now False) (Sent ErrTokenNotValidYet) ValidationErrorNotValidYet v2
      in valid_result v3)"

subsection \<open>StandardClaims\<close>

record standard_claims =
  sc_Audience :: string
  sc_ExpiresAt :: i64
  sc_Id :: string
  sc_IssuedAt :: i64
  sc_Issuer :: string
  sc_NotBefore :: i64
  sc_Subject :: string

text \<open>The time of a claim, unset when it is 0.\<close>

definition unix_claim :: "i64 \<Rightarrow> gotime option" where
  "unix_claim s = (if s = 0 then None else Some (time_unix s 0))"

definition std_VerifyAudience :: "standard_claims \<Rightarrow> string \<Rightarrow> bool \<Rightarrow> bool" where
  "std_VerifyAudience c cmp req = verifyAud [sc_Audience c] cmp req"

definition std_VerifyExpiresAt :: "standard_claims \<Rightarrow> i64 \<Rightarrow> bool \<Rightarrow> bool" where
  "std_VerifyExpiresAt c cmp req = verifyExp (unix_claim (sc_ExpiresAt c)) (time_unix cmp 0) req"

definition std_VerifyIssuedAt :: "standard_claims \<Rightarrow> i64 \<Rightarrow> bool \<Rightarrow> bool" where
  "std_VerifyIssuedAt c cmp req = verifyIat (unix_claim (sc_IssuedAt c)) (time_unix cmp 0) req"

definition std_VerifyNotBefore :: "standard_claims \<Rightarrow> i64 \<Rightarrow> bool \<Rightarrow> bool" where
  "std_VerifyNotBefore c cmp req = verifyNbf (unix_claim (sc_NotBefore c)) (time_unix cmp 0) req"

definition std_VerifyIssuer :: "standard_claims \<Rightarrow> string \<Rightarrow> bool \<Rightarrow> bool" where
  "std_VerifyIssuer c cmp req = verifyIss (sc_Issuer c) cmp req"

definition std_Valid :: "gotime \<Rightarrow> standard_claims \<Rightarrow> err option" where
  "std_Valid clock c =
     (let now = time_Unix clock;
          delta = time_sub (time_unix now 0) (time_unix (sc_ExpiresAt c) 0);
          v1 = add_error (std_VerifyExpiresAt c now False) (ExpiredBy delta) ValidationErrorExpired (None, 0);
          v2 = add_error (std_VerifyIssuedAt c now False) (Sent ErrTokenUsedBeforeIssued) ValidationErrorIssuedAt v1;
          v3 = add_error (std_VerifyNotBefore c now False) (Sent ErrTokenNotValidYet) ValidationErrorNotValidYet v2
      in valid_result v3)"

section \<open>Whole seconds\<close>

lemma f64_sub_self: "f64_sub (Fin m e) (Fin m e) = Fin 0 0"
  by (simp add: f64_round_def f64_pack_def round_half_even_def Let_def)

lemma small_fin:
  assumes "\<bar>n\<bar> < 2 ^ 53" "n \<noteq> 0"
  shows "\<exists>k. f64_of_int n = Fin (n * 2 ^ k) (- int k)"
proof -
  have "nat \<bar>n\<bar> < 2 ^ 53" using assms by (auto simp: nat_less_iff)
  then have "bitlen (nat \<bar>n\<bar>) \<le> 53" by (rule bitlen_le)
  then have "int (bitlen (nat \<bar>n\<bar>)) - 53 = - int (53 - bitlen (nat \<bar>n\<bar>))" by linarith
  with f64_of_int_exact [OF assms] show ?thesis by metis
qed

lemma zero_fin: "f64_of_int 0 = Fin 0 0"
  by (simp add: f64_eval)

lemma f64_modf_int:
  assumes "\<bar>n\<bar> < 2 ^ 53"
  shows "f64_modf (f64_of_int n) = (f64_of_int n, Fin 0 0)"
proof (cases "n = 0")
  case True
  show ?thesis using f64_sub_self by (simp add: True zero_fin Let_def del: f64_sub.simps)
next
  case False
  let ?b = "bitlen (nat \<bar>n\<bar>)"
  obtain k where k: "f64_of_int n = Fin (n * 2 ^ k) (- int k)"
    using small_fin [OF assms False] by blast
  have "sgn (n * 2 ^ k) * (\<bar>n * 2 ^ k\<bar> div 2 ^ k) = n"
    by (simp add: sgn_mult abs_mult sgn_mult_abs)
  then have "f64_modf (Fin (n * 2 ^ k) (- int k)) = (f64_of_int n, f64_sub (Fin (n * 2 ^ k) (- int k)) (f64_of_int n))"
    by (cases "k = 0") (simp_all add: Let_def)
  then show ?thesis using f64_sub_self by (simp add: k del: f64_modf.simps f64_sub.simps)
qed

lemma to_i64_int: "\<bar>n\<bar> < 2 ^ 53 \<Longrightarrow> to_i64 oor (f64_of_int n) = word_of_int n"
  by (simp add: to_i64_def f64_int_roundtrip_lt)

lemma to_i64_zero: "to_i64 oor (f64_scale k (Fin 0 0)) = 0"
  by (simp add: to_i64_def f64_round_def f64_pack_def Let_def)

lemma time_unix_0: "time_unix s 0 = Time (s + unix_offset) 0"
  by (simp add: time_unix_def Let_def)

lemma date_of_seconds:
  "\<bar>n\<bar> < 2 ^ 53 \<Longrightarrow> newNumericDateFromSeconds oor (f64_of_int n) = time_unix (word_of_int n) 0"
  by (simp add: newNumericDateFromSeconds_def f64_modf_int to_i64_int to_i64_zero NewNumericDate_def
      trunc_second_def time_unix_0 del: f64_scale.simps)

lemma finite_small: "\<bar>n\<bar> < 2 ^ 53 \<Longrightarrow> finite_f64 (f64_of_int n)"
  using small_fin [of n] by (cases "n = 0") (auto simp: zero_fin finite_f64_def)

lemma is0_small: "\<bar>n\<bar> < 2 ^ 53 \<Longrightarrow> f64_is0 (f64_of_int n) \<longleftrightarrow> n = 0"
  using small_fin [of n] by (cases "n = 0") (auto simp: zero_fin f64_is0_def)

text \<open>Seconds that the code can add the offset of 1970 to without overflow.\<close>

definition sane_seconds :: "int \<Rightarrow> bool" where
  "sane_seconds n \<longleftrightarrow> \<bar>n\<bar> < 2 ^ 53"

lemma word_of_int_inj:
  assumes "sane_seconds a" "sane_seconds b"
  shows "word_of_int a = (word_of_int b :: i64) \<longleftrightarrow> a = b"
proof
  assume eq: "word_of_int a = (word_of_int b :: i64)"
  have "sint (word_of_int a :: i64) = a" "sint (word_of_int b :: i64) = b"
    using assms by (auto simp: sane_seconds_def intro!: sint_i64_of_int)
  then show "a = b" unfolding eq by simp
qed simp

lemma sint_unix:
  assumes "sane_seconds n"
  shows "sint (word_of_int n + unix_offset) = n + 62135596800"
proof -
  have "word_of_int n + unix_offset = word_of_int (n + 62135596800)"
    by (simp add: unix_offset_def)
  with assms sint_i64_of_int [of "n + 62135596800"] show ?thesis by (simp add: sane_seconds_def)
qed

lemma time_order:
  assumes "sane_seconds a" "sane_seconds b"
  shows "time_before (time_unix (word_of_int a) 0) (time_unix (word_of_int b) 0) \<longleftrightarrow> a < b"
    "time_after (time_unix (word_of_int a) 0) (time_unix (word_of_int b) 0) \<or>
     time_equal (time_unix (word_of_int a) 0) (time_unix (word_of_int b) 0) \<longleftrightarrow> b \<le> a"
proof -
  note eq = word_of_int_inj [OF assms]
  show "time_before (time_unix (word_of_int a) 0) (time_unix (word_of_int b) 0) \<longleftrightarrow> a < b"
    "time_after (time_unix (word_of_int a) 0) (time_unix (word_of_int b) 0) \<or>
     time_equal (time_unix (word_of_int a) 0) (time_unix (word_of_int b) 0) \<longleftrightarrow> b \<le> a"
    by (auto simp: time_before_def time_after_def time_equal_def time_unix_0 sint_unix [OF assms(1)]
        sint_unix [OF assms(2)] eq)
qed

text \<open>A clock that reads a number of seconds, with any fraction.\<close>

definition clock_at :: "int \<Rightarrow> int \<Rightarrow> gotime" where
  "clock_at s ns = Time (word_of_int s + unix_offset) ns"

lemma time_Unix_clock: "time_Unix (clock_at s ns) = word_of_int s"
  by (simp add: time_Unix_def clock_at_def)

text \<open>The fraction of the clock does not matter to a claim of whole seconds.\<close>

lemma clock_order:
  assumes "sane_seconds s" "sane_seconds b" "0 \<le> ns"
  shows "time_before (clock_at s ns) (time_unix (word_of_int b) 0) \<longleftrightarrow> s < b"
    "time_after (clock_at s ns) (time_unix (word_of_int b) 0) \<or>
     time_equal (clock_at s ns) (time_unix (word_of_int b) 0) \<longleftrightarrow> b \<le> s"
proof -
  note eq = word_of_int_inj [OF assms(1,2)]
  from assms(3) show "time_before (clock_at s ns) (time_unix (word_of_int b) 0) \<longleftrightarrow> s < b"
    "time_after (clock_at s ns) (time_unix (word_of_int b) 0) \<or>
     time_equal (clock_at s ns) (time_unix (word_of_int b) 0) \<longleftrightarrow> b \<le> s"
    by (auto simp: time_before_def time_after_def time_equal_def time_unix_0 clock_at_def
        sint_unix [OF assms(1)] sint_unix [OF assms(2)] eq simp del: word_of_int_eq_iff)
qed

text \<open>What the claims of a token say of its time: each as a number of seconds, or absent.\<close>

definition in_time :: "int option \<Rightarrow> int option \<Rightarrow> int option \<Rightarrow> int \<Rightarrow> bool" where
  "in_time exp iat nbf now \<longleftrightarrow> (\<forall>e \<in> set_option exp. now < e) \<and>
     (\<forall>i \<in> set_option iat. i \<le> now) \<and> (\<forall>n \<in> set_option nbf. n \<le> now)"

abbreviation sane_claim :: "int option \<Rightarrow> bool" where
  "sane_claim c \<equiv> \<forall>n \<in> set_option c. sane_seconds n"

text \<open>A time claim of a \<open>MapClaims\<close> that is a whole number other than 0, or absent.\<close>

definition time_claim :: "map_claims \<Rightarrow> string \<Rightarrow> int option \<Rightarrow> bool" where
  "time_claim m k c \<longleftrightarrow> gm_get m k = map_option (\<lambda>n. GFloat (f64_of_int n)) c \<and>
     (\<forall>n \<in> set_option c. sane_seconds n \<and> n \<noteq> 0)"

lemma map_Valid_in_time:
  assumes "time_claim m ''exp'' exp" "time_claim m ''iat'' iat" "time_claim m ''nbf'' nbf"
    "sane_seconds now"
  shows "map_Valid oor (clock_at now ns) m = None \<longleftrightarrow> in_time exp iat nbf now"
proof -
  have e: "map_VerifyExpiresAt oor m (word_of_int now) False \<longleftrightarrow> (\<forall>e \<in> set_option exp. now < e)"
    using assms(1,4) time_order(1) by (cases exp) (auto simp: time_claim_def map_VerifyExpiresAt_def
        verifyExp_def date_of_seconds is0_small sane_seconds_def)
  have i: "map_VerifyIssuedAt oor m (word_of_int now) False \<longleftrightarrow> (\<forall>i \<in> set_option iat. i \<le> now)"
    using assms(2,4) time_order(2) by (cases iat) (auto simp: time_claim_def map_VerifyIssuedAt_def
        verifyIat_def date_of_seconds is0_small sane_seconds_def)
  have n: "map_VerifyNotBefore oor m (word_of_int now) False \<longleftrightarrow> (\<forall>n \<in> set_option nbf. n \<le> now)"
    using assms(3,4) time_order(2) by (cases nbf) (auto simp: time_claim_def map_VerifyNotBefore_def
        verifyNbf_def date_of_seconds is0_small sane_seconds_def)
  show ?thesis
    unfolding map_Valid_def Let_def time_Unix_clock valid_result_checks e i n in_time_def by blast
qed

definition unix_date :: "int option \<Rightarrow> numeric_date option" where
  "unix_date = map_option (\<lambda>n. time_unix (word_of_int n) 0)"

lemma reg_Valid_in_time:
  assumes "rc_ExpiresAt c = unix_date exp" "rc_IssuedAt c = unix_date iat" "rc_NotBefore c = unix_date nbf"
    "sane_claim exp" "sane_claim iat" "sane_claim nbf" "sane_seconds now" "0 \<le> ns"
  shows "reg_Valid (clock_at now ns) c = None \<longleftrightarrow> in_time exp iat nbf now"
proof -
  have "reg_VerifyExpiresAt c (clock_at now ns) False \<longleftrightarrow> (\<forall>e \<in> set_option exp. now < e)"
    using assms clock_order(1) by (cases exp) (auto simp: reg_VerifyExpiresAt_def verifyExp_def unix_date_def)
  moreover have "reg_VerifyIssuedAt c (clock_at now ns) False \<longleftrightarrow> (\<forall>i \<in> set_option iat. i \<le> now)"
    using assms clock_order(2) by (cases iat) (auto simp: reg_VerifyIssuedAt_def verifyIat_def unix_date_def)
  moreover have "reg_VerifyNotBefore c (clock_at now ns) False \<longleftrightarrow> (\<forall>n \<in> set_option nbf. n \<le> now)"
    using assms clock_order(2) by (cases nbf) (auto simp: reg_VerifyNotBefore_def verifyNbf_def unix_date_def)
  ultimately show ?thesis
    unfolding reg_Valid_def Let_def valid_result_checks in_time_def by blast
qed

lemma std_Valid_in_time:
  assumes "sane_seconds exp" "sane_seconds iat" "sane_seconds nbf" "sane_seconds now"
    "sc_ExpiresAt c = word_of_int exp" "sc_IssuedAt c = word_of_int iat" "sc_NotBefore c = word_of_int nbf"
  shows "std_Valid (clock_at now ns) c = None \<longleftrightarrow>
    in_time (if exp = 0 then None else Some exp) (if iat = 0 then None else Some iat)
      (if nbf = 0 then None else Some nbf) now"
proof -
  have z: "word_of_int n = (0 :: i64) \<longleftrightarrow> n = 0" if "sane_seconds n" for n
    using word_of_int_inj [OF that, of 0] by (simp add: sane_seconds_def)
  have "std_VerifyExpiresAt c (word_of_int now) False \<longleftrightarrow> (exp \<noteq> 0 \<longrightarrow> now < exp)"
    using assms time_order(1) by (auto simp: std_VerifyExpiresAt_def verifyExp_def unix_claim_def z)
  moreover have "std_VerifyIssuedAt c (word_of_int now) False \<longleftrightarrow> (iat \<noteq> 0 \<longrightarrow> iat \<le> now)"
    using assms time_order(2) by (auto simp: std_VerifyIssuedAt_def verifyIat_def unix_claim_def z)
  moreover have "std_VerifyNotBefore c (word_of_int now) False \<longleftrightarrow> (nbf \<noteq> 0 \<longrightarrow> nbf \<le> now)"
    using assms time_order(2) by (auto simp: std_VerifyNotBefore_def verifyNbf_def unix_claim_def z)
  ultimately show ?thesis
    unfolding std_Valid_def Let_def time_Unix_clock valid_result_checks in_time_def by auto
qed

end
