(* ===== verification/Base64.thy ===== *)
theory Base64
  imports Prelude
begin

text \<open>
  \<open>base64.RawURLEncoding\<close>, in which the segments of a token are written: bytes in groups of
  three become four characters of the URL alphabet, a last group of one or two bytes two or
  three characters, without padding. Decoding skips line breaks and ignores the spare bits of
  the last character (the encoding is not \<open>Strict\<close>); one character left over, or one outside
  the alphabet, is an error. \<open>segment_codec\<close> is what the token code relies on.
\<close>

section \<open>The interface\<close>

locale segment_codec =
  fixes enc :: "string \<Rightarrow> string" and dec :: "string \<Rightarrow> string option"
  assumes dec_enc: "dec (enc s) = Some s"
    and no_dot: "CHR ''.'' \<notin> set (enc s)"
begin

lemma enc_inj: "enc s = enc t \<longleftrightarrow> s = t"
  by (metis dec_enc option.inject)

end

section \<open>Sextets\<close>

fun to_sextets :: "nat list \<Rightarrow> nat list" where
  "to_sextets [] = []"
| "to_sextets [a] = [a div 4, a mod 4 * 16]"
| "to_sextets [a, b] = [a div 4, a mod 4 * 16 + b div 16, b mod 16 * 4]"
| "to_sextets (a # b # c # xs) =
     a div 4 # (a mod 4 * 16 + b div 16) # (b mod 16 * 4 + c div 64) # c mod 64 # to_sextets xs"

fun of_sextets :: "nat list \<Rightarrow> nat list option" where
  "of_sextets [] = Some []"
| "of_sextets [p] = None"
| "of_sextets [p, q] = Some [p * 4 + q div 16]"
| "of_sextets [p, q, r] = Some [p * 4 + q div 16, q mod 16 * 16 + r div 4]"
| "of_sextets (p # q # r # s # xs) = map_option
     (\<lambda>ys. (p * 4 + q div 16) # (q mod 16 * 16 + r div 4) # (r mod 4 * 64 + s) # ys) (of_sextets xs)"

lemma digits: "y < n \<Longrightarrow> (x * n + y) div n = (x :: nat)" "y < n \<Longrightarrow> (x * n + y) mod n = y"
  by simp_all

lemma high_parts: "b < 256 \<Longrightarrow> b div 16 < (16 :: nat)" "c < 256 \<Longrightarrow> c div 64 < (4 :: nat)" "a < 256 \<Longrightarrow> a div 4 < (64 :: nat)"
  by (simp_all add: div_less_iff_less_mult)

lemma sextet_parts:
  assumes "a < 256" "b < 256" "c < (256 :: nat)"
  shows "a div 4 * 4 + (a mod 4 * 16 + b div 16) div 16 = a"
    "(a mod 4 * 16 + b div 16) mod 16 * 16 + (b mod 16 * 4 + c div 64) div 4 = b"
    "(b mod 16 * 4 + c div 64) mod 4 * 64 + c mod 64 = c"
    "(a mod 4 * 16 + b div 16) mod 16 * 16 + b mod 16 * 4 div 4 = b"
    "a div 4 * 4 + a mod 4 * 16 div 16 = a"
  using high_parts(1) [OF assms(2)] high_parts(2) [OF assms(3)]
  by (simp_all only: digits div_mult_mod_eq nonzero_mult_div_cancel_right zero_neq_numeral [symmetric] not_False_eq_True)

lemma sextet_less:
  assumes "a < 256" "b < 256" "c < (256 :: nat)"
  shows "a div 4 < 64" "a mod 4 * 16 + b div 16 < 64" "b mod 16 * 4 + c div 64 < 64"
    "c mod 64 < 64" "a mod 4 * 16 < 64" "b mod 16 * 4 < 64"
proof -
  have "a mod 4 < 4" "b mod 16 < 16" by simp_all
  with high_parts(1) [OF assms(2)] high_parts(2) [OF assms(3)] high_parts(3) [OF assms(1)]
  show "a div 4 < 64" "a mod 4 * 16 + b div 16 < 64" "b mod 16 * 4 + c div 64 < 64"
    "c mod 64 < 64" "a mod 4 * 16 < 64" "b mod 16 * 4 < 64"
    by linarith+
qed

lemma of_to_sextets: "\<forall>b \<in> set bs. b < 256 \<Longrightarrow> of_sextets (to_sextets bs) = Some bs"
proof (induction bs rule: to_sextets.induct)
  case (2 a)
  then show ?case using sextet_parts [of a 0 0] by simp
next
  case (3 a b)
  then show ?case using sextet_parts [of a b 0] by simp
next
  case (4 a b c xs)
  then show ?case using sextet_parts [of a b c] by simp
qed simp

lemma to_sextets_less: "\<forall>b \<in> set bs. b < 256 \<Longrightarrow> \<forall>x \<in> set (to_sextets bs). x < 64"
proof (induction bs rule: to_sextets.induct)
  case (4 a b c xs)
  then show ?case using sextet_less [of a b c] by simp
next
  case (3 a b)
  then show ?case using sextet_less [of a b 0] by simp
next
  case (2 a)
  then show ?case using sextet_less [of a 0 0] by simp
qed simp

section \<open>The alphabet\<close>

definition url_alphabet :: string where
  "url_alphabet = ''ABCDEFGHIJKLMNOPQRSTUVWXYZabcdefghijklmnopqrstuvwxyz0123456789-_''"

fun index_of :: "'a \<Rightarrow> 'a list \<Rightarrow> nat option" where
  "index_of x [] = None"
| "index_of x (y # ys) = (if x = y then Some 0 else map_option Suc (index_of x ys))"

lemma index_of_nth: "distinct xs \<Longrightarrow> i < length xs \<Longrightarrow> index_of (xs ! i) xs = Some i"
proof (induction xs arbitrary: i)
  case (Cons x xs)
  then show ?case by (cases i) auto
qed simp

lemma url_alphabet_facts: "distinct url_alphabet" "length url_alphabet = 64"
  "CHR ''.'' \<notin> set url_alphabet" "CHR 0x0A \<notin> set url_alphabet" "CHR 0x0D \<notin> set url_alphabet"
  by code_simp+

text \<open>An encoding in a given alphabet of 64 characters, without padding.\<close>

definition encode_in :: "string \<Rightarrow> string \<Rightarrow> string" where
  "encode_in al s = map (\<lambda>i. al ! i) (to_sextets (map of_char s))"

definition line_break :: "char \<Rightarrow> bool" where
  "line_break c \<longleftrightarrow> c = CHR 0x0A \<or> c = CHR 0x0D"

definition decode_in :: "string \<Rightarrow> string \<Rightarrow> string option" where
  "decode_in al s =
     (let vs = map (\<lambda>c. index_of c al) (filter (\<lambda>c. \<not> line_break c) s) in
      if None \<in> set vs then None
      else map_option (map char_of) (of_sextets (map the vs)))"

definition alphabet_ok :: "string \<Rightarrow> bool" where
  "alphabet_ok al \<longleftrightarrow> distinct al \<and> length al = 64 \<and> (\<forall>c \<in> set al. \<not> line_break c)"

lemma encode_chars: "length al = 64 \<Longrightarrow> set (encode_in al s) \<subseteq> set al"
proof -
  assume al: "length al = 64"
  have "\<forall>b \<in> set (map of_char s). (b :: nat) < 256" by auto
  from to_sextets_less [OF this] al show ?thesis
    by (auto simp: encode_in_def intro!: nth_mem)
qed

lemma to_sextets_length: "length (to_sextets bs) = (4 * length bs + 2) div 3"
  by (induction bs rule: to_sextets.induct) auto

lemma encode_length: "length (encode_in al s) = (4 * length s + 2) div 3"
  by (simp add: encode_in_def to_sextets_length)

lemma decode_encode:
  assumes "alphabet_ok al"
  shows "decode_in al (encode_in al s) = Some s"
proof -
  let ?xs = "to_sextets (map of_char s)"
  have bytes: "\<forall>b \<in> set (map of_char s). (b :: nat) < 256" by auto
  have al: "distinct al" "length al = 64" using assms by (simp_all add: alphabet_ok_def)
  have "filter (\<lambda>c. \<not> line_break c) (encode_in al s) = encode_in al s"
    using encode_chars [OF al(2), of s] assms by (auto simp: filter_id_conv alphabet_ok_def)
  moreover have "map (\<lambda>c. index_of c al) (encode_in al s) = map Some ?xs"
    using to_sextets_less [OF bytes] al by (auto simp: encode_in_def index_of_nth)
  moreover have "map (the \<circ> Some) ?xs = ?xs" by (simp add: comp_def)
  ultimately show ?thesis
    using of_to_sextets [OF bytes] by (auto simp: decode_in_def Let_def comp_def)
qed

definition b64_encode :: "string \<Rightarrow> string" where
  "b64_encode s = encode_in url_alphabet s"

definition b64_decode :: "string \<Rightarrow> string option" where
  "b64_decode s = decode_in url_alphabet s"

lemma url_alphabet_ok: "alphabet_ok url_alphabet"
  using url_alphabet_facts by (auto simp: alphabet_ok_def line_break_def)

interpretation b64: segment_codec b64_encode b64_decode
  using decode_encode [OF url_alphabet_ok] encode_chars [OF url_alphabet_facts(2)] url_alphabet_facts(3)
  by unfold_locales (auto simp: b64_encode_def b64_decode_def)

end
