(* ===== verification/Jwt_Methods.thy ===== *)
theory Jwt_Methods
  imports Jwt_Claims Base64
begin

text \<open>
  The signing methods of package \<open>jwt\<close>. The primitives of Go's \<open>crypto\<close> packages are the record
  \<open>crypto\<close>: a signature that depends on random bytes is one of the values its functions may
  have, so a theorem about every \<open>crypto\<close> covers all of them. A key is an \<open>interface{}\<close> of the
  code: its constructor is the Go type, and the methods check it first.
\<close>

datatype hash = SHA256 | SHA384 | SHA512

datatype salt = SaltAuto | SaltEqualsHash

datatype key = Bytes string | UnsafeAllowNone | RsaPublic string | RsaPrivate string
  | EcPublic string | EcPrivate string nat | EdPublic string | EdPrivate string | OtherKey

record crypto =
  cy_available :: "hash \<Rightarrow> bool"
  cy_hmac :: "hash \<Rightarrow> string \<Rightarrow> string \<Rightarrow> string"
  cy_digest :: "hash \<Rightarrow> string \<Rightarrow> string"
  cy_rsa_sign :: "string \<Rightarrow> hash \<Rightarrow> string \<Rightarrow> err + string"
  cy_rsa_verify :: "string \<Rightarrow> hash \<Rightarrow> string \<Rightarrow> string \<Rightarrow> err option"
  cy_pss_sign :: "string \<Rightarrow> hash \<Rightarrow> string \<Rightarrow> salt \<Rightarrow> err + string"
  cy_pss_verify :: "string \<Rightarrow> hash \<Rightarrow> string \<Rightarrow> string \<Rightarrow> salt \<Rightarrow> err option"
  cy_ec_sign :: "string \<Rightarrow> string \<Rightarrow> err + (nat \<times> nat)"
  cy_ec_verify :: "string \<Rightarrow> string \<Rightarrow> nat \<Rightarrow> nat \<Rightarrow> bool"
  cy_ed_sign :: "string \<Rightarrow> string \<Rightarrow> err + string"
  cy_ed_verify :: "string \<Rightarrow> string \<Rightarrow> string \<Rightarrow> bool"

text \<open>A method by its name, its hash and what else it is configured with.\<close>

datatype signing_method =
    HMAC string hash
  | NoneMethod
  | RSA string hash
  | RSAPSS string hash salt "salt option"
  | ECDSA string hash nat nat
  | Ed25519

fun Alg :: "signing_method \<Rightarrow> string" where
  "Alg (HMAC name h) = name"
| "Alg NoneMethod = ''none''"
| "Alg (RSA name h) = name"
| "Alg (RSAPSS name h options verify_options) = name"
| "Alg (ECDSA name h n bits) = name"
| "Alg Ed25519 = ''EdDSA''"

section \<open>Segments\<close>

definition EncodeSegment :: "string \<Rightarrow> string" where
  "EncodeSegment seg = b64_encode seg"

text \<open>\<open>DecodeSegment\<close> with the package variables at their defaults: no padding, not strict.\<close>

definition DecodeSegment :: "string \<Rightarrow> err + string" where
  "DecodeSegment seg = (case b64_decode seg of None \<Rightarrow> Inl (LibError ''base64'') | Some s \<Rightarrow> Inr s)"

lemma DecodeSegment_Encode [simp]: "DecodeSegment (EncodeSegment s) = Inr s"
  by (simp add: DecodeSegment_def EncodeSegment_def b64.dec_enc)

lemma EncodeSegment_no_dot [simp]: "CHR ''.'' \<notin> set (EncodeSegment s)"
  by (simp add: EncodeSegment_def b64.no_dot)

section \<open>HMAC and none\<close>

definition hmac_verify :: "crypto \<Rightarrow> hash \<Rightarrow> string \<Rightarrow> string \<Rightarrow> key \<Rightarrow> err option" where
  "hmac_verify c h signingString signature key = (case key of
     Bytes keyBytes \<Rightarrow>
       (case DecodeSegment signature of Inl e \<Rightarrow> Some e
        | Inr sig \<Rightarrow>
            if \<not> cy_available c h then Some (Sent ErrHashUnavailable)
            else if sig \<noteq> cy_hmac c h keyBytes signingString then Some (Sent ErrSignatureInvalid)
            else None)
   | _ \<Rightarrow> Some (Sent ErrInvalidKeyType))"

definition hmac_sign :: "crypto \<Rightarrow> hash \<Rightarrow> string \<Rightarrow> key \<Rightarrow> err + string" where
  "hmac_sign c h signingString key = (case key of
     Bytes keyBytes \<Rightarrow>
       if \<not> cy_available c h then Inl (Sent ErrHashUnavailable)
       else Inr (EncodeSegment (cy_hmac c h keyBytes signingString))
   | _ \<Rightarrow> Inl (Sent ErrInvalidKeyType))"

text \<open>The name of the method in single quotes, as the messages have it.\<close>

definition quoted_none :: string where
  "quoted_none = CHR 0x27 # ''none'' @ [CHR 0x27]"

definition NoneSignatureTypeDisallowedError :: err where
  "NoneSignatureTypeDisallowedError =
     NewValidationError (quoted_none @ '' signature type is not allowed'') ValidationErrorSignatureInvalid"

definition none_verify :: "string \<Rightarrow> string \<Rightarrow> key \<Rightarrow> err option" where
  "none_verify signingString signature key =
     (if key \<noteq> UnsafeAllowNone then Some NoneSignatureTypeDisallowedError
      else if signature \<noteq> [] then
        Some (NewValidationError (quoted_none @ '' signing method with non-empty signature'')
                ValidationErrorSignatureInvalid)
      else None)"

definition none_sign :: "string \<Rightarrow> key \<Rightarrow> err + string" where
  "none_sign signingString key =
     (if key = UnsafeAllowNone then Inr [] else Inl NoneSignatureTypeDisallowedError)"

section \<open>RSA\<close>

definition rsa_verify :: "crypto \<Rightarrow> hash \<Rightarrow> string \<Rightarrow> string \<Rightarrow> key \<Rightarrow> err option" where
  "rsa_verify c h signingString signature key =
     (case DecodeSegment signature of Inl e \<Rightarrow> Some e
      | Inr sig \<Rightarrow>
          (case key of
             RsaPublic rsaKey \<Rightarrow>
               if \<not> cy_available c h then Some (Sent ErrHashUnavailable)
               else cy_rsa_verify c rsaKey h (cy_digest c h signingString) sig
           | _ \<Rightarrow> Some (Sent ErrInvalidKeyType)))"

definition rsa_sign :: "crypto \<Rightarrow> hash \<Rightarrow> string \<Rightarrow> key \<Rightarrow> err + string" where
  "rsa_sign c h signingString key = (case key of
     RsaPrivate rsaKey \<Rightarrow>
       if \<not> cy_available c h then Inl (Sent ErrHashUnavailable)
       else (case cy_rsa_sign c rsaKey h (cy_digest c h signingString) of
               Inr sigBytes \<Rightarrow> Inr (EncodeSegment sigBytes) | Inl e \<Rightarrow> Inl e)
   | _ \<Rightarrow> Inl (Sent ErrInvalidKey))"

definition pss_verify :: "crypto \<Rightarrow> hash \<Rightarrow> salt \<Rightarrow> salt option \<Rightarrow> string \<Rightarrow> string \<Rightarrow> key \<Rightarrow> err option" where
  "pss_verify c h Options VerifyOptions signingString signature key =
     (case DecodeSegment signature of Inl e \<Rightarrow> Some e
      | Inr sig \<Rightarrow>
          (case key of
             RsaPublic rsaKey \<Rightarrow>
               if \<not> cy_available c h then Some (Sent ErrHashUnavailable)
               else cy_pss_verify c rsaKey h (cy_digest c h signingString) sig
                      (case VerifyOptions of Some opts \<Rightarrow> opts | None \<Rightarrow> Options)
           | _ \<Rightarrow> Some (Sent ErrInvalidKey)))"

definition pss_sign :: "crypto \<Rightarrow> hash \<Rightarrow> salt \<Rightarrow> string \<Rightarrow> key \<Rightarrow> err + string" where
  "pss_sign c h Options signingString key = (case key of
     RsaPrivate rsaKey \<Rightarrow>
       if \<not> cy_available c h then Inl (Sent ErrHashUnavailable)
       else (case cy_pss_sign c rsaKey h (cy_digest c h signingString) Options of
               Inr sigBytes \<Rightarrow> Inr (EncodeSegment sigBytes) | Inl e \<Rightarrow> Inl e)
   | _ \<Rightarrow> Inl (Sent ErrInvalidKeyType))"

section \<open>ECDSA\<close>

text \<open>\<open>big.Int.FillBytes\<close>, which panics on a number too big for the buffer.\<close>

definition FillBytes :: "nat \<Rightarrow> nat \<Rightarrow> err + string" where
  "FillBytes k n = (if n < 256 ^ k then Inr (low_bytes k n) else Inl (GoPanic ''math/big: buffer too small to fit value''))"

definition ecdsa_verify :: "crypto \<Rightarrow> hash \<Rightarrow> nat \<Rightarrow> string \<Rightarrow> string \<Rightarrow> key \<Rightarrow> err option" where
  "ecdsa_verify c h KeySize signingString signature key =
     (case DecodeSegment signature of Inl e \<Rightarrow> Some e
      | Inr sig \<Rightarrow>
          (case key of
             EcPublic ecdsaKey \<Rightarrow>
               if length sig \<noteq> 2 * KeySize then Some (Plain ''crypto/ecdsa: verification error'')
               else let r = SetBytes (take KeySize sig); s = SetBytes (drop KeySize sig) in
                 if \<not> cy_available c h then Some (Sent ErrHashUnavailable)
                 else if cy_ec_verify c ecdsaKey (cy_digest c h signingString) r s then None
                 else Some (Plain ''crypto/ecdsa: verification error'')
           | _ \<Rightarrow> Some (Sent ErrInvalidKeyType)))"

definition ecdsa_sign :: "crypto \<Rightarrow> hash \<Rightarrow> nat \<Rightarrow> string \<Rightarrow> key \<Rightarrow> err + string" where
  "ecdsa_sign c h CurveBits signingString key = (case key of
     EcPrivate ecdsaKey curveBits \<Rightarrow>
       if \<not> cy_available c h then Inl (Sent ErrHashUnavailable)
       else (case cy_ec_sign c ecdsaKey (cy_digest c h signingString) of
          Inl e \<Rightarrow> Inl e
        | Inr (r, s) \<Rightarrow>
            if CurveBits \<noteq> curveBits then Inl (Sent ErrInvalidKey)
            else let keyBytes = (if 0 < curveBits mod 8 then curveBits div 8 + 1 else curveBits div 8) in
              (case FillBytes keyBytes r of Inl e \<Rightarrow> Inl e
               | Inr rs \<Rightarrow> (case FillBytes keyBytes s of Inl e \<Rightarrow> Inl e
                  | Inr ss \<Rightarrow> Inr (EncodeSegment (rs @ ss)))))
   | _ \<Rightarrow> Inl (Sent ErrInvalidKeyType))"

section \<open>Ed25519\<close>

definition ed25519_verify :: "crypto \<Rightarrow> string \<Rightarrow> string \<Rightarrow> key \<Rightarrow> err option" where
  "ed25519_verify c signingString signature key = (case key of
     EdPublic ed25519Key \<Rightarrow>
       if length ed25519Key \<noteq> 32 then Some (Sent ErrInvalidKey)
       else (case DecodeSegment signature of Inl e \<Rightarrow> Some e
          | Inr sig \<Rightarrow>
              if \<not> cy_ed_verify c ed25519Key signingString sig
              then Some (Plain ''ed25519: verification error'') else None)
   | _ \<Rightarrow> Some (Sent ErrInvalidKeyType))"

text \<open>The private keys of all three families are a \<open>crypto.Signer\<close>; the others have no Ed25519 public key.\<close>

definition ed25519_sign :: "crypto \<Rightarrow> string \<Rightarrow> key \<Rightarrow> err + string" where
  "ed25519_sign c signingString key = (case key of
     EdPrivate ed25519Key \<Rightarrow>
       (case cy_ed_sign c ed25519Key signingString of Inl e \<Rightarrow> Inl e | Inr sig \<Rightarrow> Inr (EncodeSegment sig))
   | RsaPrivate k \<Rightarrow> Inl (Sent ErrInvalidKey)
   | EcPrivate k bits \<Rightarrow> Inl (Sent ErrInvalidKey)
   | _ \<Rightarrow> Inl (Sent ErrInvalidKeyType))"

section \<open>The methods by their names\<close>

fun method_Verify :: "crypto \<Rightarrow> signing_method \<Rightarrow> string \<Rightarrow> string \<Rightarrow> key \<Rightarrow> err option" where
  "method_Verify c (HMAC name h) = hmac_verify c h"
| "method_Verify c NoneMethod = none_verify"
| "method_Verify c (RSA name h) = rsa_verify c h"
| "method_Verify c (RSAPSS name h options verify_options) = pss_verify c h options verify_options"
| "method_Verify c (ECDSA name h KeySize CurveBits) = ecdsa_verify c h KeySize"
| "method_Verify c Ed25519 = ed25519_verify c"

fun method_Sign :: "crypto \<Rightarrow> signing_method \<Rightarrow> string \<Rightarrow> key \<Rightarrow> err + string" where
  "method_Sign c (HMAC name h) = hmac_sign c h"
| "method_Sign c NoneMethod = none_sign"
| "method_Sign c (RSA name h) = rsa_sign c h"
| "method_Sign c (RSAPSS name h options verify_options) = pss_sign c h options"
| "method_Sign c (ECDSA name h KeySize CurveBits) = ecdsa_sign c h CurveBits"
| "method_Sign c Ed25519 = ed25519_sign c"

definition SigningMethodHS256 :: signing_method where
  "SigningMethodHS256 = HMAC ''HS256'' SHA256"

text \<open>What the \<open>init\<close> functions of the package register, each under its \<open>Alg\<close>.\<close>

definition hmac_methods :: "signing_method list" where
  "hmac_methods = [SigningMethodHS256, HMAC ''HS384'' SHA384, HMAC ''HS512'' SHA512]"

definition rsa_methods :: "signing_method list" where
  "rsa_methods = [RSA ''RS256'' SHA256, RSA ''RS384'' SHA384, RSA ''RS512'' SHA512]"

definition pss_methods :: "signing_method list" where
  "pss_methods = [RSAPSS ''PS256'' SHA256 SaltEqualsHash (Some SaltAuto),
     RSAPSS ''PS384'' SHA384 SaltEqualsHash (Some SaltAuto),
     RSAPSS ''PS512'' SHA512 SaltEqualsHash (Some SaltAuto)]"

definition ecdsa_methods :: "signing_method list" where
  "ecdsa_methods = [ECDSA ''ES256'' SHA256 32 256, ECDSA ''ES384'' SHA384 48 384, ECDSA ''ES512'' SHA512 66 521]"

definition RegisterSigningMethod ::
  "string \<Rightarrow> signing_method \<Rightarrow> (string, signing_method) gomap \<Rightarrow> (string, signing_method) gomap" where
  "RegisterSigningMethod alg m ms = gm_put alg m ms"

definition signingMethods :: "(string, signing_method) gomap" where
  "signingMethods = fold (\<lambda>m. RegisterSigningMethod (Alg m) m)
     (ecdsa_methods @ [Ed25519] @ hmac_methods @ [NoneMethod] @ rsa_methods @ pss_methods) []"

definition GetSigningMethod :: "string \<Rightarrow> signing_method option" where
  "GetSigningMethod alg = gm_get signingMethods alg"

definition GetAlgorithms :: "string list" where
  "GetAlgorithms = map fst signingMethods"

lemma GetSigningMethod_Alg: "GetSigningMethod alg = Some m \<Longrightarrow> Alg m = alg"
  by (auto simp: GetSigningMethod_def signingMethods_def RegisterSigningMethod_def hmac_methods_def rsa_methods_def
      pss_methods_def ecdsa_methods_def SigningMethodHS256_def split: if_splits)

lemma GetSigningMethod_HS256: "GetSigningMethod ''HS256'' = Some SigningMethodHS256"
  by code_simp

text \<open>Only the three HMAC names give a method that takes a byte key.\<close>

definition is_hmac :: "signing_method \<Rightarrow> bool" where
  "is_hmac m \<longleftrightarrow> (case m of HMAC name h \<Rightarrow> True | _ \<Rightarrow> False)"

lemma bytes_need_hmac:
  assumes "method_Verify c m s sig (Bytes k) = None"
  shows "is_hmac m"
  using assms by (cases m) (auto simp: is_hmac_def none_verify_def rsa_verify_def pss_verify_def
      ecdsa_verify_def ed25519_verify_def split: sum.splits)

section \<open>The interface of a method\<close>

text \<open>What a token needs of the method it is signed with, for a pair of keys.\<close>

locale signing_pair =
  fixes sign :: "string \<Rightarrow> err + string" and verify :: "string \<Rightarrow> string \<Rightarrow> err option"
  assumes verify_sign: "sign s = Inr sig \<Longrightarrow> verify s sig = None"
    and sig_no_dot: "sign s = Inr sig \<Longrightarrow> CHR ''.'' \<notin> set sig"
begin

lemma signed_verifies: "sign s = Inr sig \<Longrightarrow> verify s sig = None \<and> CHR ''.'' \<notin> set sig"
  by (simp add: verify_sign sig_no_dot)

end

interpretation hmac_pair: signing_pair "\<lambda>s. hmac_sign c h s (Bytes k)" "\<lambda>s sig. hmac_verify c h s sig (Bytes k)"
  for c h k
  by unfold_locales (auto simp: hmac_sign_def hmac_verify_def split: if_splits)

interpretation none_pair: signing_pair "\<lambda>s. none_sign s UnsafeAllowNone" "\<lambda>s sig. none_verify s sig UnsafeAllowNone"
  by unfold_locales (auto simp: none_sign_def none_verify_def)

text \<open>An HMAC signature is accepted only if it decodes to the code of the text under the key.\<close>

lemma hmac_verify_iff:
  "hmac_verify c h s sig (Bytes k) = None \<longleftrightarrow> cy_available c h \<and> DecodeSegment sig = Inr (cy_hmac c h k s)"
  by (auto simp: hmac_verify_def split: sum.splits)

lemma FillBytes_SetBytes: "FillBytes k n = Inr bs \<Longrightarrow> SetBytes bs = n \<and> length bs = k"
  by (auto simp: FillBytes_def SetBytes_low split: if_splits)

text \<open>
  The two halves of an ECDSA signature are found again: what was signed with a private key is
  accepted with the public key whenever \<open>ecdsa.Verify\<close> accepts the pair that \<open>ecdsa.Sign\<close> made.
\<close>

lemma ecdsa_roundtrip:
  assumes "ecdsa_sign c h bits s (EcPrivate priv bits) = Inr sig"
    and "ks = (bits + 7) div 8"
    and accepts: "\<And>r t. cy_ec_sign c priv (cy_digest c h s) = Inr (r, t) \<Longrightarrow> cy_ec_verify c pub (cy_digest c h s) r t"
  shows "ecdsa_verify c h ks s sig (EcPublic pub) = None"
proof -
  let ?n = "if 0 < bits mod 8 then bits div 8 + 1 else bits div 8"
  have "(bits mod 8 + 7) div 8 = (if 0 < bits mod 8 then 1 else 0)"
    using mod_less_divisor [of 8 bits] by (auto intro!: div_nat_eqI)
  then have n: "?n = ks" using div_add1_eq [of bits 7 8] by (simp add: assms(2))
  from assms(1) obtain r t rs ts where 1: "cy_available c h" "cy_ec_sign c priv (cy_digest c h s) = Inr (r, t)"
    "FillBytes ?n r = Inr rs" "FillBytes ?n t = Inr ts" "sig = EncodeSegment (rs @ ts)"
    by (auto simp: ecdsa_sign_def Let_def split: if_splits sum.splits)
  from 1(3,4) have "SetBytes rs = r" "length rs = ks" "SetBytes ts = t" "length ts = ks"
    unfolding n by (auto dest: FillBytes_SetBytes)
  with 1(1,2,5) accepts show ?thesis by (simp add: ecdsa_verify_def Let_def)
qed

end
