(* ===== verification/Jwt.thy ===== *)
theory Jwt
  imports Jwt_Methods "HOL-Library.Char_ord" "HOL-Library.List_Lexorder"
begin

text \<open>
  Tokens of package \<open>jwt\<close>: how one is created, signed and written as three segments, and how one
  is read, checked and validated. The kind of claims is a parameter (Go's \<open>Claims\<close> interface):
  how they are read from a JSON value, validated, and which members are written for them.
\<close>

section \<open>Claims and tokens\<close>

record 'c claims_type =
  ct_fresh :: 'c                                      \<comment> \<open>the claims before anything is decoded into them\<close>
  ct_decode :: "bool \<Rightarrow> json \<Rightarrow> 'c option"             \<comment> \<open>\<open>Decode\<close>, with or without \<open>UseNumber\<close>\<close>
  ct_valid :: "gotime \<Rightarrow> 'c \<Rightarrow> err option"            \<comment> \<open>\<open>Valid()\<close> at a time\<close>
  ct_members :: "'c \<Rightarrow> (string \<times> scalar) list option" \<comment> \<open>what \<open>json.Marshal\<close> writes, where the printer covers it\<close>

record 'c Token =
  tk_Raw :: string
  tk_Method :: "signing_method option"
  tk_Header :: map_claims
  tk_Claims :: "'c option"
  tk_Signature :: string
  tk_Valid :: bool

text \<open>A map is written in the order of its keys. Floats and nested objects are not printed.\<close>

fun strs_of :: "gov list \<Rightarrow> string list option" where
  "strs_of [] = Some []"
| "strs_of (GStr s # vs) = map_option ((#) s) (strs_of vs)"
| "strs_of _ = None"

fun gov_scalar :: "gov \<Rightarrow> scalar option" where
  "gov_scalar (GStr s) = Some (SStr s)"
| "gov_scalar (GInt n) = Some (SInt n)"
| "gov_scalar (GList vs) = map_option SStrs (strs_of vs)"
| "gov_scalar _ = None"

definition map_members :: "(string, gov) gomap \<Rightarrow> (string \<times> scalar) list option" where
  "map_members m = those (map (\<lambda>(k, v). map_option (Pair k) (gov_scalar v)) (sort_key fst m))"

fun map_decode :: "bool \<Rightarrow> json \<Rightarrow> map_claims option" where
  "map_decode num JNull = Some []"
| "map_decode num (JObj ms) = to_map num ms []"
| "map_decode num _ = None"

definition MapClaims :: "(f64 \<Rightarrow> int) \<Rightarrow> map_claims claims_type" where
  "MapClaims oor = \<lparr>ct_fresh = [], ct_decode = map_decode, ct_valid = map_Valid oor, ct_members = map_members\<rparr>"

definition NewWithClaims :: "signing_method \<Rightarrow> 'c \<Rightarrow> 'c Token" where
  "NewWithClaims method claims = \<lparr>tk_Raw = [], tk_Method = Some method,
     tk_Header = gm_put ''alg'' (GStr (Alg method)) (gm_put ''typ'' (GStr ''JWT'') []),
     tk_Claims = Some claims, tk_Signature = [], tk_Valid = False\<rparr>"

definition New :: "signing_method \<Rightarrow> map_claims Token" where
  "New method = NewWithClaims method []"

text \<open>\<open>SigningString\<close>; \<open>None\<close> where the claims are not of the kinds that the printer covers.\<close>

definition SigningString :: "'c claims_type \<Rightarrow> 'c Token \<Rightarrow> string option" where
  "SigningString ct t =
     (case map_members (tk_Header t) of None \<Rightarrow> None
      | Some hms \<Rightarrow>
          (case tk_Claims t of
             None \<Rightarrow> Some (EncodeSegment (print_obj hms) @ ''.'' @ EncodeSegment ''null'')
           | Some claims \<Rightarrow> map_option
               (\<lambda>ms. EncodeSegment (print_obj hms) @ ''.'' @ EncodeSegment (print_obj ms))
               (ct_members ct claims)))"

definition nil_pointer :: err where
  "nil_pointer = GoPanic ''invalid memory address or nil pointer dereference''"

definition SignedString :: "crypto \<Rightarrow> 'c claims_type \<Rightarrow> 'c Token \<Rightarrow> key \<Rightarrow> (err + string) option" where
  "SignedString c ct t key = map_option
     (\<lambda>sstr. case tk_Method t of None \<Rightarrow> Inl nil_pointer
        | Some m \<Rightarrow> (case method_Sign c m sstr key of Inl e \<Rightarrow> Inl e
            | Inr sig \<Rightarrow> Inr (sstr @ ''.'' @ sig)))
     (SigningString ct t)"

section \<open>The parser\<close>

record Parser =
  ps_ValidMethods :: "string list option"
  ps_UseJSONNumber :: bool
  ps_SkipClaimsValidation :: bool

type_synonym ParserOption = "Parser \<Rightarrow> Parser"

definition WithValidMethods :: "string list option \<Rightarrow> ParserOption" where
  "WithValidMethods methods p = p\<lparr>ps_ValidMethods := methods\<rparr>"

definition WithJSONNumber :: ParserOption where
  "WithJSONNumber p = p\<lparr>ps_UseJSONNumber := True\<rparr>"

definition WithoutClaimsValidation :: ParserOption where
  "WithoutClaimsValidation p = p\<lparr>ps_SkipClaimsValidation := True\<rparr>"

definition NewParser :: "ParserOption list \<Rightarrow> Parser" where
  "NewParser options = fold (\<lambda>option p. option p) options
     \<lparr>ps_ValidMethods = None, ps_UseJSONNumber = False, ps_SkipClaimsValidation = False\<rparr>"

text \<open>\<open>strings.Cut\<close> at the first dot, and the three parts of a token.\<close>

definition cut_dot :: "string \<Rightarrow> string \<times> string \<times> bool" where
  "cut_dot s = (let a = takeWhile (\<lambda>c. c \<noteq> CHR ''.'') s in
     if length a = length s then (s, [], False) else (a, drop (Suc (length a)) s, True))"

definition splitToken :: "string \<Rightarrow> (string \<times> string \<times> string) option" where
  "splitToken token =
     (case cut_dot token of (header, remain, ok) \<Rightarrow>
        if \<not> ok then None else
        (case cut_dot remain of (claims, remain, ok) \<Rightarrow>
           if \<not> ok then None else
           (case cut_dot remain of (signature, rest, unexpected) \<Rightarrow>
              if unexpected then None else Some (header, claims, signature))))"

definition to_lower :: "string \<Rightarrow> string" where
  "to_lower = map (\<lambda>c. if in_range 65 90 c then char_of (byte_of c + 32) else c)"

definition bearer_prefix :: "string \<Rightarrow> bool" where
  "bearer_prefix s \<longleftrightarrow> take 7 (to_lower s) = ''bearer ''"

definition decode_header :: "string \<Rightarrow> map_claims option" where
  "decode_header headerBytes = (case parse_all headerBytes of None \<Rightarrow> None | Some v \<Rightarrow> map_decode False v)"

text \<open>
  \<open>ParseUnverified\<close>: the token as far as it got, the parts, the error. What a failed decode
  leaves in the claims is not kept: a caller that goes on after an error sees them fresh.
\<close>

definition malformed :: "err \<Rightarrow> err" where
  "malformed e = ValidationError (Some e) ValidationErrorMalformed []"

definition ParseUnverified :: "Parser \<Rightarrow> 'c claims_type \<Rightarrow> string \<Rightarrow>
    'c Token option \<times> (string \<times> string \<times> string) option \<times> err option" where
  "ParseUnverified p ct tokenString =
     (case splitToken tokenString of
        None \<Rightarrow> (None, None,
          Some (NewValidationError ''token contains an invalid number of segments'' ValidationErrorMalformed))
      | Some (h, cs, sg) \<Rightarrow>
          let token = \<lparr>tk_Raw = tokenString, tk_Method = None, tk_Header = [], tk_Claims = None,
                       tk_Signature = [], tk_Valid = False\<rparr> in
          (case DecodeSegment h of
             Inl e \<Rightarrow> (Some token, Some (h, cs, sg),
               Some (if bearer_prefix tokenString
                     then NewValidationError (''tokenstring should not contain '' @ CHR 0x27 # ''bearer '' @ [CHR 0x27]) ValidationErrorMalformed
                     else malformed e))
           | Inr headerBytes \<Rightarrow>
          (case decode_header headerBytes of
             None \<Rightarrow> (Some token, Some (h, cs, sg), Some (malformed (LibError ''json'')))
           | Some header \<Rightarrow>
          let token = token\<lparr>tk_Header := header, tk_Claims := Some (ct_fresh ct)\<rparr> in
          (case DecodeSegment cs of
             Inl e \<Rightarrow> (Some token, Some (h, cs, sg), Some (malformed e))
           | Inr claimBytes \<Rightarrow>
          (case (case parse_first claimBytes of None \<Rightarrow> None | Some v \<Rightarrow> ct_decode ct (ps_UseJSONNumber p) v) of
             None \<Rightarrow> (Some token, Some (h, cs, sg), Some (malformed (LibError ''json'')))
           | Some claims \<Rightarrow>
          let token = token\<lparr>tk_Claims := Some claims\<rparr> in
          (case gm_get header ''alg'' of
             Some (GStr method) \<Rightarrow>
               (case GetSigningMethod method of
                  None \<Rightarrow> (Some token, Some (h, cs, sg),
                    Some (NewValidationError ''signing method (alg) is unavailable.'' ValidationErrorUnverifiable))
                | Some m \<Rightarrow> (Some (token\<lparr>tk_Method := Some m\<rparr>), Some (h, cs, sg), None))
           | _ \<Rightarrow> (Some token, Some (h, cs, sg),
               Some (NewValidationError ''signing method (alg) is unspecified.'' ValidationErrorUnverifiable))))))))"

definition method_allowed :: "string list option \<Rightarrow> signing_method \<Rightarrow> bool" where
  "method_allowed ValidMethods m = (case ValidMethods of None \<Rightarrow> True | Some ms \<Rightarrow> Alg m \<in> set ms)"

type_synonym 'c Keyfunc = "'c Token \<Rightarrow> err + key"

definition is_validation_error :: "err \<Rightarrow> bool" where
  "is_validation_error e \<longleftrightarrow> (case e of ValidationError i f t \<Rightarrow> True | _ \<Rightarrow> False)"

text \<open>
  \<open>ParseWithClaims\<close> of the parser, at a time. A token that came out of \<open>ParseUnverified\<close> without
  an error has its method and its parts.
\<close>

definition ParseWithClaims :: "crypto \<Rightarrow> Parser \<Rightarrow> 'c claims_type \<Rightarrow> gotime \<Rightarrow> string \<Rightarrow> 'c Keyfunc option \<Rightarrow>
    'c Token option \<times> err option" where
  "ParseWithClaims c p ct now tokenString keyFunc =
     (case ParseUnverified p ct tokenString of
        (Some token, Some (h, cs, sg), None) \<Rightarrow>
          (case tk_Method token of
             None \<Rightarrow> (Some token, Some nil_pointer)
           | Some m \<Rightarrow>
          if \<not> method_allowed (ps_ValidMethods p) m then
            (Some token, Some (NewValidationError (''signing method '' @ Alg m @ '' is invalid'') ValidationErrorSignatureInvalid))
          else
          (case keyFunc of
             None \<Rightarrow> (Some token, Some (NewValidationError ''no Keyfunc was provided.'' ValidationErrorUnverifiable))
           | Some kf \<Rightarrow>
          (case kf token of
             Inl e \<Rightarrow> (Some token, Some (if is_validation_error e then e
                                       else ValidationError (Some e) ValidationErrorUnverifiable []))
           | Inr key \<Rightarrow>
          let token = token\<lparr>tk_Signature := sg\<rparr> in
          (case method_Verify c m (h @ ''.'' @ cs) sg key of
             Some e \<Rightarrow> (Some token, Some (ValidationError (Some e) ValidationErrorSignatureInvalid []))
           | None \<Rightarrow>
          (case (if ps_SkipClaimsValidation p then None
                 else case tk_Claims token of None \<Rightarrow> Some nil_pointer | Some cl \<Rightarrow> ct_valid ct now cl) of
             Some e \<Rightarrow> (Some token, Some (if is_validation_error e then e
                                        else ValidationError (Some e) ValidationErrorClaimsInvalid []))
           | None \<Rightarrow> (Some (token\<lparr>tk_Valid := True\<rparr>), None))))))
      | (token, parts, err) \<Rightarrow> (token, err))"

definition Parse :: "crypto \<Rightarrow> (f64 \<Rightarrow> int) \<Rightarrow> Parser \<Rightarrow> gotime \<Rightarrow> string \<Rightarrow> map_claims Keyfunc option \<Rightarrow>
    map_claims Token option \<times> err option" where
  "Parse c oor p now tokenString keyFunc = ParseWithClaims c p (MapClaims oor) now tokenString keyFunc"

text \<open>The package's functions of the same names, which take options instead of a parser.\<close>

definition jwt_Parse :: "crypto \<Rightarrow> (f64 \<Rightarrow> int) \<Rightarrow> gotime \<Rightarrow> string \<Rightarrow> map_claims Keyfunc option \<Rightarrow> ParserOption list \<Rightarrow>
    map_claims Token option \<times> err option" where
  "jwt_Parse c oor now tokenString keyFunc options = Parse c oor (NewParser options) now tokenString keyFunc"

definition jwt_ParseWithClaims :: "crypto \<Rightarrow> 'c claims_type \<Rightarrow> gotime \<Rightarrow> string \<Rightarrow> 'c Keyfunc option \<Rightarrow> ParserOption list \<Rightarrow>
    'c Token option \<times> err option" where
  "jwt_ParseWithClaims c ct now tokenString keyFunc options =
     ParseWithClaims c (NewParser options) ct now tokenString keyFunc"

section \<open>Splitting\<close>

lemma cut_dot_None: "CHR ''.'' \<notin> set s \<Longrightarrow> cut_dot s = (s, [], False)"
proof -
  assume "CHR ''.'' \<notin> set s"
  then have "takeWhile (\<lambda>c. c \<noteq> CHR ''.'') s = s" by (auto simp: takeWhile_eq_all_conv)
  then have "length (takeWhile (\<lambda>c. c \<noteq> CHR ''.'') s) = length s" by (rule arg_cong)
  then show ?thesis by (simp add: cut_dot_def Let_def)
qed

lemma cut_dot_Some: "CHR ''.'' \<notin> set a \<Longrightarrow> cut_dot (a @ CHR ''.'' # s) = (a, s, True)"
proof -
  assume "CHR ''.'' \<notin> set a"
  then have "takeWhile (\<lambda>c. c \<noteq> CHR ''.'') (a @ CHR ''.'' # s) = a"
    by (subst takeWhile_append2) auto
  then show ?thesis unfolding cut_dot_def Let_def by simp
qed

lemma cut_dot_cases: "CHR ''.'' \<notin> set s \<or> (\<exists>a t. s = a @ CHR ''.'' # t \<and> CHR ''.'' \<notin> set a)"
  using split_list_first by fastforce

lemma splitToken_iff:
  "splitToken s = Some (h, cs, sg) \<longleftrightarrow>
   s = h @ ''.'' @ cs @ ''.'' @ sg \<and> CHR ''.'' \<notin> set h \<union> set cs \<union> set sg"
proof
  assume split: "splitToken s = Some (h, cs, sg)"
  with cut_dot_cases [of s] obtain a t where s: "s = a @ CHR ''.'' # t" "CHR ''.'' \<notin> set a"
    by (auto simp: splitToken_def cut_dot_None)
  with split cut_dot_cases [of t] obtain b u where t: "t = b @ CHR ''.'' # u" "CHR ''.'' \<notin> set b"
    by (auto simp: splitToken_def cut_dot_None cut_dot_Some)
  with split s cut_dot_cases [of u] have u: "CHR ''.'' \<notin> set u"
    by (auto simp: splitToken_def cut_dot_None cut_dot_Some)
  with split s t show "s = h @ ''.'' @ cs @ ''.'' @ sg \<and> CHR ''.'' \<notin> set h \<union> set cs \<union> set sg"
    by (simp add: splitToken_def cut_dot_None cut_dot_Some)
next
  assume "s = h @ ''.'' @ cs @ ''.'' @ sg \<and> CHR ''.'' \<notin> set h \<union> set cs \<union> set sg"
  then show "splitToken s = Some (h, cs, sg)"
    by (simp add: splitToken_def cut_dot_None cut_dot_Some)
qed

section \<open>Which tokens are accepted\<close>

text \<open>
  What a text must be to be read at all: three segments, of which the first is a JSON object
  whose \<open>alg\<close> names a method of the package and the second starts with claims.
\<close>

definition readable :: "Parser \<Rightarrow> 'c claims_type \<Rightarrow> string \<Rightarrow> string \<Rightarrow> string \<Rightarrow> string \<Rightarrow>
    map_claims \<Rightarrow> 'c \<Rightarrow> signing_method \<Rightarrow> bool" where
  "readable p ct s h cs sg header claims m \<longleftrightarrow>
     splitToken s = Some (h, cs, sg) \<and>
     (\<exists>hb. DecodeSegment h = Inr hb \<and> decode_header hb = Some header) \<and>
     (\<exists>cb v. DecodeSegment cs = Inr cb \<and> parse_first cb = Some v \<and> ct_decode ct (ps_UseJSONNumber p) v = Some claims) \<and>
     (\<exists>alg. gm_get header ''alg'' = Some (GStr alg) \<and> GetSigningMethod alg = Some m)"

definition read_token :: "string \<Rightarrow> signing_method \<Rightarrow> map_claims \<Rightarrow> 'c \<Rightarrow> 'c Token" where
  "read_token s m header claims = \<lparr>tk_Raw = s, tk_Method = Some m, tk_Header = header,
     tk_Claims = Some claims, tk_Signature = [], tk_Valid = False\<rparr>"

lemma ParseUnverified_readable:
  "readable p ct s h cs sg header claims m \<Longrightarrow>
   ParseUnverified p ct s = (Some (read_token s m header claims), Some (h, cs, sg), None)"
  by (auto simp: readable_def ParseUnverified_def read_token_def)

lemma ParseUnverified_cases:
  obtains (read) h cs sg header claims m where "readable p ct s h cs sg header claims m"
    "ParseUnverified p ct s = (Some (read_token s m header claims), Some (h, cs, sg), None)"
  | (refused) t parts e where "ParseUnverified p ct s = (t, parts, Some e)"
      "\<not> (\<exists>h cs sg header claims m. readable p ct s h cs sg header claims m)"
proof (cases "\<exists>h cs sg header claims m. readable p ct s h cs sg header claims m")
  case True
  then show ?thesis using ParseUnverified_readable read by metis
next
  case False
  have "\<exists>e. snd (snd (ParseUnverified p ct s)) = Some e"
  proof (rule ccontr)
    assume n: "\<not> ?thesis"
    then have "snd (snd (ParseUnverified p ct s)) = None" by simp
    then obtain h cs sg hb header cb claims v alg m where
      1: "splitToken s = Some (h, cs, sg)" "DecodeSegment h = Inr hb" "decode_header hb = Some header"
        "DecodeSegment cs = Inr cb"
      and 2: "parse_first cb = Some v" "ct_decode ct (ps_UseJSONNumber p) v = Some claims"
        "gm_get header ''alg'' = Some (GStr alg)" "GetSigningMethod alg = Some m"
      unfolding ParseUnverified_def Let_def
      by (auto split: option.splits sum.splits gov.splits prod.splits)
    then have "readable p ct s h cs sg header claims m" by (auto simp: readable_def)
    with False show False by blast
  qed
  then show ?thesis using False refused by (metis prod.collapse)
qed

definition accepts :: "crypto \<Rightarrow> Parser \<Rightarrow> 'c claims_type \<Rightarrow> gotime \<Rightarrow> 'c Keyfunc \<Rightarrow> string \<Rightarrow> string \<Rightarrow> string \<Rightarrow> string \<Rightarrow>
    map_claims \<Rightarrow> 'c \<Rightarrow> signing_method \<Rightarrow> bool" where
  "accepts c p ct now kf s h cs sg header claims m \<longleftrightarrow>
     readable p ct s h cs sg header claims m \<and> method_allowed (ps_ValidMethods p) m \<and>
     (\<exists>key. kf (read_token s m header claims) = Inr key \<and> method_Verify c m (h @ ''.'' @ cs) sg key = None) \<and>
     (ps_SkipClaimsValidation p \<or> ct_valid ct now claims = None)"

text \<open>\<open>ParseWithClaims\<close> gives a token without an error exactly for those texts, and it is valid then.\<close>

lemma ParseWithClaims_accepts:
  assumes "accepts c p ct now kf s h cs sg header claims m"
  shows "ParseWithClaims c p ct now s (Some kf) =
    (Some ((read_token s m header claims)\<lparr>tk_Signature := sg, tk_Valid := True\<rparr>), None)"
  using assms unfolding accepts_def ParseWithClaims_def
  by (auto simp: ParseUnverified_readable) (auto simp: read_token_def Let_def)

lemma ParseWithClaims_only:
  assumes "ParseWithClaims c p ct now s (Some kf) = (t, None)"
  obtains h cs sg header claims m where "accepts c p ct now kf s h cs sg header claims m"
    "t = Some ((read_token s m header claims)\<lparr>tk_Signature := sg, tk_Valid := True\<rparr>)"
proof (cases rule: ParseUnverified_cases [of p ct s])
  case (read h cs sg header claims m)
  have "accepts c p ct now kf s h cs sg header claims m"
    using assms read unfolding accepts_def ParseWithClaims_def
    by (auto simp: read_token_def Let_def split: sum.splits option.splits if_splits)
  with ParseWithClaims_accepts [OF this] assms that show ?thesis by auto
next
  case (refused u parts e)
  with assms show ?thesis by (auto simp: ParseWithClaims_def split: option.splits prod.splits)
qed

section \<open>Claims that survive being written and read\<close>

text \<open>
  The interface between a kind of claims and the tokens that carry it: claims that are \<open>good\<close>
  are written, and what is written is decoded to what a reader has \<open>seen\<close> of them.
\<close>

locale claims_codec =
  fixes ct :: "'c claims_type" and good :: "'c \<Rightarrow> bool" and seen :: "'c \<Rightarrow> 'c"
  assumes written: "good cl \<Longrightarrow> \<exists>ms. ct_members ct cl = Some ms"
    and decoded: "good cl \<Longrightarrow> ct_members ct cl = Some ms \<Longrightarrow> ct_decode ct False (JObj (obj_of ms)) = Some (seen cl)"
lemma HS256_members: "map_members (tk_Header (NewWithClaims SigningMethodHS256 cl)) =
    Some [(''alg'', SStr ''HS256''), (''typ'', SStr ''JWT'')]"
proof -
  have "map_members (gm_put ''alg'' (GStr (Alg SigningMethodHS256)) (gm_put ''typ'' (GStr ''JWT'') [])) =
    Some [(''alg'', SStr ''HS256''), (''typ'', SStr ''JWT'')]" by code_simp
  then show ?thesis by (simp add: NewWithClaims_def)
qed

definition hs256_seen :: map_claims where
  "hs256_seen = [(''alg'', GStr ''HS256''), (''typ'', GStr ''JWT'')]"

lemma HS256_decoded: "decode_header (print_obj [(''alg'', SStr ''HS256''), (''typ'', SStr ''JWT'')]) = Some hs256_seen"
proof -
  have "map_decode False (JObj (obj_of [(''alg'', SStr ''HS256''), (''typ'', SStr ''JWT'')])) = Some hs256_seen" by code_simp
  then show ?thesis by (simp add: decode_header_def parse_all_print)
qed

text \<open>The text of a token signed with HS256.\<close>

lemma signed_text:
  assumes "ct_members ct cl = Some ms" "hs = [(''alg'', SStr ''HS256''), (''typ'', SStr ''JWT'')]"
    and "SignedString c ct (NewWithClaims SigningMethodHS256 cl) (Bytes k) = Some (Inr s)"
  shows "s = EncodeSegment (print_obj hs) @ ''.'' @ EncodeSegment (print_obj ms) @ ''.'' @
         EncodeSegment (cy_hmac c SHA256 k (EncodeSegment (print_obj hs) @ ''.'' @ EncodeSegment (print_obj ms)))"
    "cy_available c SHA256"
  using assms HS256_members [of cl]
  by (auto simp: SignedString_def SigningString_def SigningMethodHS256_def NewWithClaims_def hmac_sign_def split: if_splits)

text \<open>
  A signed token is accepted by every key function that gives the key, also when it is read into
  another kind of claims than it was written from, as long as those can be decoded and are valid.
\<close>

lemma signed_read:
  assumes "SignedString c ct (NewWithClaims SigningMethodHS256 cl) (Bytes k) = Some (Inr s)"
    and "ct_members ct cl = Some ms" "ct_decode ct' (ps_UseJSONNumber p) (JObj (obj_of ms)) = Some cl'"
    and "ct_valid ct' now cl' = None"
    and "\<And>t. tk_Method t = Some SigningMethodHS256 \<Longrightarrow> kf t = Inr (Bytes k)"
    and "method_allowed (ps_ValidMethods p) SigningMethodHS256"
  obtains h cs sg where "accepts c p ct' now kf s h cs sg hs256_seen cl' SigningMethodHS256"
proof -
  define hs where "hs = [(''alg'', SStr ''HS256''), (''typ'', SStr ''JWT'')]"
  note s = signed_text [OF assms(2) hs_def assms(1)]
  have "parse_first (print_obj ms) = Some (JObj (obj_of ms))" using parse_first_print [of ms "[]"] by simp
  moreover have "gm_get hs256_seen ''alg'' = Some (GStr ''HS256'')" by (simp add: hs256_seen_def)
  ultimately have r: "readable p ct' s (EncodeSegment (print_obj hs)) (EncodeSegment (print_obj ms))
      (EncodeSegment (cy_hmac c SHA256 k (EncodeSegment (print_obj hs) @ ''.'' @ EncodeSegment (print_obj ms))))
      hs256_seen cl' SigningMethodHS256"
    using assms(3) HS256_decoded GetSigningMethod_HS256
    unfolding readable_def splitToken_iff s(1) by (simp add: hs_def)
  have "method_Verify c SigningMethodHS256 (EncodeSegment (print_obj hs) @ ''.'' @ EncodeSegment (print_obj ms))
      (EncodeSegment (cy_hmac c SHA256 k (EncodeSegment (print_obj hs) @ ''.'' @ EncodeSegment (print_obj ms)))) (Bytes k) = None"
    using s(2) by (simp add: SigningMethodHS256_def hmac_verify_iff)
  with r assms(4,5,6) show ?thesis
    by (intro that) (auto simp: accepts_def read_token_def)
qed

context claims_codec begin

lemma signing_succeeds:
  assumes "good cl" "cy_available c SHA256"
  shows "\<exists>s. SignedString c ct (NewWithClaims SigningMethodHS256 cl) (Bytes k) = Some (Inr s)"
  using assms written [OF assms(1)] HS256_members [of cl]
  by (auto simp: SignedString_def SigningString_def SigningMethodHS256_def NewWithClaims_def hmac_sign_def)

theorem signed_accepted:
  assumes "good cl" "SignedString c ct (NewWithClaims SigningMethodHS256 cl) (Bytes k) = Some (Inr s)"
    and "ct_valid ct now (seen cl) = None"
    and "\<And>t. tk_Method t = Some SigningMethodHS256 \<Longrightarrow> kf t = Inr (Bytes k)"
    and "\<not> ps_UseJSONNumber p" "method_allowed (ps_ValidMethods p) SigningMethodHS256"
  obtains h cs sg where "accepts c p ct now kf s h cs sg hs256_seen (seen cl) SigningMethodHS256"
proof -
  obtain ms where ms: "ct_members ct cl = Some ms" using written [OF assms(1)] by blast
  then have d: "ct_decode ct (ps_UseJSONNumber p) (JObj (obj_of ms)) = Some (seen cl)"
    using decoded [OF assms(1) ms] assms(5) by simp
  show ?thesis
    by (rule signed_read [where p = p and kf = kf, OF assms(2) ms d assms(3)]) (use assms(4,6) that in auto)
qed

end

section \<open>MapClaims\<close>

fun seen_gov :: "gov \<Rightarrow> gov" where
  "seen_gov (GStr s) = GStr (valid_utf8_text s)"
| "seen_gov (GInt n) = GFloat (f64_of_int n)"
| "seen_gov (GList vs) = GList (map seen_gov vs)"
| "seen_gov v = v"

definition seen_map :: "map_claims \<Rightarrow> map_claims" where
  "seen_map m = map (\<lambda>(k, v). (k, seen_gov v)) (sort_key fst m)"

definition small_gov :: "gov \<Rightarrow> bool" where
  "small_gov v \<longleftrightarrow> gov_scalar v \<noteq> None \<and> (case v of GInt n \<Rightarrow> \<bar>n\<bar> < 2 ^ 53 | _ \<Rightarrow> True)"

definition map_good :: "map_claims \<Rightarrow> bool" where
  "map_good m \<longleftrightarrow> gm_ok m \<and> (\<forall>(k, v) \<in> set m. is_utf8 k \<and> small_gov v)"

lemma gm_put_fresh: "k \<notin> fst ` set m \<Longrightarrow> gm_put k v m = m @ [(k, v)]"
  by (induction m) auto

lemma strs_of_seen: "strs_of vs = Some ss \<Longrightarrow>
    to_interfaces False (map (\<lambda>s. JStr (valid_utf8_text s)) ss) = Some (map seen_gov vs)"
  by (induction vs arbitrary: ss rule: strs_of.induct) auto

lemma scalar_seen: "small_gov v \<Longrightarrow> gov_scalar v = Some x \<Longrightarrow> to_interface False (json_of x) = Some (seen_gov v)"
  by (cases v) (auto simp: small_gov_def finite_small strs_of_seen)

lemma to_map_seen:
  assumes "distinct (map fst acc @ map fst xs)"
    and "those (map (\<lambda>(k, v). map_option (Pair k) (gov_scalar v)) xs) = Some ms"
    and "\<forall>(k, v) \<in> set xs. is_utf8 k \<and> small_gov v"
  shows "to_map False (obj_of ms) acc = Some (acc @ map (\<lambda>(k, v). (k, seen_gov v)) xs)"
  using assms
proof (induction xs arbitrary: ms acc)
  case Nil
  then show ?case by (simp add: obj_of_def)
next
  case (Cons x xs)
  obtain k v where x: "x = (k, v)" by force
  from Cons.prems(2) x obtain y ms' where y: "gov_scalar v = Some y" "ms = (k, y) # ms'"
    and ms': "those (map (\<lambda>(k, v). map_option (Pair k) (gov_scalar v)) xs) = Some ms'"
    by (auto split: option.splits)
  have "k \<notin> fst ` set acc" "valid_utf8_text k = k" using Cons.prems(1,3) by (auto simp: x is_utf8_def)
  moreover have "to_interface False (json_of y) = Some (seen_gov v)"
    using Cons.prems(3) y by (intro scalar_seen) (auto simp: x)
  moreover have "to_map False (obj_of ms') (acc @ [(k, seen_gov v)]) =
      Some ((acc @ [(k, seen_gov v)]) @ map (\<lambda>(k, v). (k, seen_gov v)) xs)"
    using Cons.prems(1,3) ms' by (intro Cons.IH) (auto simp: x)
  ultimately show ?case using y by (simp add: obj_of_def x gm_put_fresh)
qed

lemma those_Some: "(\<forall>x \<in> set xs. f x \<noteq> None) \<Longrightarrow> \<exists>ys. those (map f xs) = Some ys"
  by (induction xs) auto

interpretation map_claims: claims_codec "MapClaims oor" map_good seen_map
  for oor
proof
  fix cl ms
  assume good: "map_good cl"
  then have all: "\<forall>(k, v) \<in> set (sort_key fst cl). is_utf8 k \<and> small_gov v" by (auto simp: map_good_def)
  show "\<exists>ms. ct_members (MapClaims oor) cl = Some ms"
    unfolding MapClaims_def map_members_def claims_type.simps
    using all by (intro those_Some) (auto simp: small_gov_def)
  assume "ct_members (MapClaims oor) cl = Some ms"
  moreover have "distinct (map fst (sort_key fst cl))"
    using good by (simp add: map_good_def gm_ok_def distinct_map)
  ultimately show "ct_decode (MapClaims oor) False (JObj (obj_of ms)) = Some (seen_map cl)"
    using to_map_seen [of "[]" "sort_key fst cl" ms] all
    by (simp add: MapClaims_def map_members_def seen_map_def)
qed

end
