(* ===== verification/Auth.thy ===== *)
theory Auth
  imports Jwt Rooms
begin

text \<open>
  Who a request comes from: \<open>JWTMiddleware\<close> (middleware/jwt.go), the token functions of
  models/jwt.go, and the claims struct of the login (\<open>Claims\<close>, login.go). The middleware hands
  the user id of a valid token on to the handler behind it, as a \<open>float64\<close> turned into
  \<open>int64\<close>. The clock gives whole seconds; its fraction does not matter to any claim
  (\<open>map_Valid_in_time\<close>, \<open>reg_Valid_in_time\<close>).
\<close>

text \<open>What the platform decides: the crypto primitives, and conversions of floats outside \<open>int64\<close>.\<close>

record go_env =
  ge_crypto :: crypto
  ge_oor :: "f64 \<Rightarrow> int"

definition has_prefix :: "string \<Rightarrow> string \<Rightarrow> bool" where
  "has_prefix p s \<longleftrightarrow> take (length p) s = p"

definition jwtSecret :: string where
  "jwtSecret = ''your_secret_key''"

section \<open>JWTMiddleware\<close>

text \<open>The token of a request: of the Authorization header, or of the query when that has no Bearer.\<close>

definition bearer_token :: "request \<Rightarrow> string" where
  "bearer_token r =
     (if has_prefix ''Bearer '' (rq_auth r) then drop 7 (rq_auth r) else value_of (rq_query r) ''token'')"

definition middleware_key :: "map_claims Keyfunc" where
  "middleware_key token = (case tk_Method token of
     Some (HMAC name h) \<Rightarrow> Inr (Bytes jwtSecret)
   | _ \<Rightarrow> Inl (Sent ErrSignatureInvalid))"

text \<open>The user id of a token, or the message of the 401.\<close>

definition token_user :: "go_env \<Rightarrow> gotime \<Rightarrow> string \<Rightarrow> string + int" where
  "token_user env now tokenStr =
     (case jwt_Parse (ge_crypto env) (ge_oor env) now tokenStr (Some middleware_key) [] of
        (Some token, None) \<Rightarrow>
          if \<not> tk_Valid token then Inl ''Invalid token''
          else (case tk_Claims token of
                  None \<Rightarrow> Inl ''Invalid claims''
                | Some claims \<Rightarrow>
                    (case gm_get claims ''user_id'' of
                       Some (GFloat x) \<Rightarrow> Inr (f64_to_int64 (ge_oor env x) x)
                     | _ \<Rightarrow> Inl ''Missing user_id in token''))
      | _ \<Rightarrow> Inl ''Invalid token'')"

text \<open>\<open>refuse\<close> is \<open>http.Error\<close> for the kind of handler that \<open>next\<close> is.\<close>

definition JWTMiddleware :: "go_env \<Rightarrow> (string \<Rightarrow> nat \<Rightarrow> ('z dbworld_scheme, 'r) prog) \<Rightarrow>
    (request \<Rightarrow> ('z dbworld_scheme, 'r) prog) \<Rightarrow> request \<Rightarrow> ('z dbworld_scheme, 'r) prog" where
  "JWTMiddleware env refuse next r =
     (let tokenStr = bearer_token r in
      if tokenStr = [] then refuse ''Missing token'' StatusUnauthorized
      else bindp time_now (\<lambda>now. case token_user env (clock_at now 0) tokenStr of
        Inl msg \<Rightarrow> refuse msg StatusUnauthorized
      | Inr userID \<Rightarrow> next (r\<lparr>rq_ctx := Some userID\<rparr>)))"

lemma run_middleware:
  "run (JWTMiddleware env refused next r) w =
    (case (if bearer_token r = [] then Inl ''Missing token'' else token_user env (clock_at (w_clock w) 0) (bearer_token r)) of
       Inl msg \<Rightarrow> run (refused msg 401) w | Inr uid \<Rightarrow> run (next (r\<lparr>rq_ctx := Some uid\<rparr>)) w)"
  by (simp add: JWTMiddleware_def Let_def run_bindp time_now_def run_atomic split: sum.split)

section \<open>models/jwt.go\<close>

definition models_jwtSecret :: string where
  "models_jwtSecret = ''your-secret-key''"

text \<open>Seconds of 24 hours, added to the clock.\<close>

definition GenerateJWT :: "go_env \<Rightarrow> int \<Rightarrow> string \<Rightarrow> (err + string) option" where
  "GenerateJWT env now userID =
     (let token = NewWithClaims SigningMethodHS256
            [(''user_id'', GStr userID), (''exp'', GInt (now + 86400))] in
      SignedString (ge_crypto env) (MapClaims (ge_oor env)) token (Bytes models_jwtSecret))"

text \<open>The user id (or the empty string) and the error; a panic where the token is nil.\<close>

definition ValidateJWT :: "go_env \<Rightarrow> gotime \<Rightarrow> string \<Rightarrow> err + (string \<times> err option)" where
  "ValidateJWT env now tokenStr =
     (case jwt_Parse (ge_crypto env) (ge_oor env) now tokenStr (Some (\<lambda>_. Inr (Bytes models_jwtSecret))) [] of
        (None, err) \<Rightarrow> Inl nil_pointer
      | (Some token, err) \<Rightarrow>
          (case tk_Claims token of
             Some claims \<Rightarrow>
               (case (if tk_Valid token then gm_get claims ''user_id'' else None) of
                  Some (GStr userID) \<Rightarrow> Inr (userID, None)
                | _ \<Rightarrow> Inr ([], err))
           | None \<Rightarrow> Inr ([], err)))"

section \<open>The claims of a login\<close>

record user_claims =
  uc_UserID :: int
  uc_Username :: string
  uc_Registered :: registered_claims

definition zero_claims :: user_claims where
  "zero_claims = \<lparr>uc_UserID = 0, uc_Username = [], uc_Registered = zero_registered\<rparr>"

definition claims_fields :: "(f64 \<Rightarrow> int) \<Rightarrow> user_claims fields" where
  "claims_fields oor =
     [(''user_id'', dec_int (\<lambda>n. uc_UserID_update (\<lambda>_. n))),
      (''name'', dec_string (\<lambda>s. uc_Username_update (\<lambda>_. s)))] @
     registered_fields oor uc_Registered_update"

definition UserClaims :: "(f64 \<Rightarrow> int) \<Rightarrow> user_claims claims_type" where
  "UserClaims oor = \<lparr>ct_fresh = zero_claims,
     ct_decode = (\<lambda>num. decode_struct (claims_fields oor) zero_claims),
     ct_valid = (\<lambda>now cl. reg_Valid now (uc_Registered cl)),
     ct_members = (\<lambda>cl. Some ([(''user_id'', SInt (uc_UserID cl)), (''name'', SStr (uc_Username cl))] @
       registered_members (uc_Registered cl)))\<rparr>"

text \<open>The claims that \<open>LoginHandler\<close> makes at a time.\<close>

definition login_claims :: "int \<Rightarrow> string \<Rightarrow> gotime \<Rightarrow> gotime \<Rightarrow> user_claims" where
  "login_claims userID name expirationTime now = \<lparr>uc_UserID = userID, uc_Username = name,
     uc_Registered = zero_registered\<lparr>rc_ExpiresAt := Some (NewNumericDate expirationTime),
       rc_IssuedAt := Some (NewNumericDate now)\<rparr>\<rparr>"

text \<open>Those claims after writing and reading: the name has become valid UTF-8.\<close>

definition good_claims :: "user_claims \<Rightarrow> bool" where
  "good_claims cl \<longleftrightarrow> - (2 ^ 63) \<le> uc_UserID cl \<and> uc_UserID cl < 2 ^ 63 \<and>
     (\<exists>e i. sane_seconds e \<and> sane_seconds i \<and>
        uc_Registered cl = zero_registered\<lparr>rc_ExpiresAt := unix_date (Some e), rc_IssuedAt := unix_date (Some i)\<rparr>)"

definition seen_claims :: "user_claims \<Rightarrow> user_claims" where
  "seen_claims cl = cl\<lparr>uc_Username := valid_utf8_text (uc_Username cl)\<rparr>"

lemma date_json_unix:
  assumes "sane_seconds n"
  shows "date_json (time_unix (word_of_int n) 0) = SInt n"
proof -
  have "sint (word_of_int n :: i64) = n"
    using assms by (intro sint_i64_of_int) (auto simp: sane_seconds_def)
  then show ?thesis by (simp add: date_json_def trunc_second_def time_unix_0 time_Unix_def)
qed

lemma dec_date_small: "sane_seconds n \<Longrightarrow> dec_date oor upd (JInt n) r = Some (upd (unix_date (Some n)) r)"
  by (simp add: date_of_number_def finite_small date_of_seconds unix_date_def sane_seconds_def)

lemma claim_keys: "valid_utf8_text ''user_id'' = ''user_id''" "valid_utf8_text ''name'' = ''name''"
  "valid_utf8_text ''exp'' = ''exp''" "valid_utf8_text ''iat'' = ''iat''"
  by code_simp+

lemma claim_fields:
  "find_field (claims_fields oor) ''user_id'' = Some (dec_int (\<lambda>n. uc_UserID_update (\<lambda>_. n)))"
  "find_field (claims_fields oor) ''name'' = Some (dec_string (\<lambda>s. uc_Username_update (\<lambda>_. s)))"
  "find_field (claims_fields oor) ''exp'' = Some (dec_date oor (\<lambda>d. uc_Registered_update (rc_ExpiresAt_update (\<lambda>_. d))))"
  "find_field (claims_fields oor) ''iat'' = Some (dec_date oor (\<lambda>d. uc_Registered_update (rc_IssuedAt_update (\<lambda>_. d))))"
  by (simp_all add: claims_fields_def registered_fields_def json_key_def)

interpretation user_claims: claims_codec "UserClaims oor" good_claims seen_claims
  for oor
proof
  fix cl ms
  assume good: "good_claims cl"
  then obtain e i where ei: "sane_seconds e" "sane_seconds i"
    "uc_Registered cl = zero_registered\<lparr>rc_ExpiresAt := unix_date (Some e), rc_IssuedAt := unix_date (Some i)\<rparr>"
    by (auto simp: good_claims_def)
  show "\<exists>ms. ct_members (UserClaims oor) cl = Some ms" by (simp add: UserClaims_def)
  assume "ct_members (UserClaims oor) cl = Some ms"
  then have ms: "ms = [(''user_id'', SInt (uc_UserID cl)), (''name'', SStr (uc_Username cl)), (''exp'', SInt e), (''iat'', SInt i)]"
    by (simp add: UserClaims_def ei registered_members_def omit_string_def omit_date_def zero_registered_def
        unix_date_def date_json_unix)
  have "decode_members (claims_fields oor) (obj_of ms) zero_claims = Some (seen_claims cl)"
    unfolding ms obj_of_def
    using good ei by (simp add: claim_keys claim_fields dec_date_small good_claims_def zero_claims_def
        seen_claims_def del: dec_date.simps)
  then show "ct_decode (UserClaims oor) False (JObj (obj_of ms)) = Some (seen_claims cl)"
    by (simp add: UserClaims_def)
qed

section \<open>Tokens of the server at the middleware\<close>

lemma default_parser: "ps_ValidMethods (NewParser []) = None" "\<not> ps_UseJSONNumber (NewParser [])"
  "\<not> ps_SkipClaimsValidation (NewParser [])"
  by (simp_all add: NewParser_def)

lemma middleware_key_HS256: "tk_Method t = Some SigningMethodHS256 \<Longrightarrow> middleware_key t = Inr (Bytes jwtSecret)"
  by (simp add: middleware_key_def SigningMethodHS256_def)

text \<open>The claims of \<open>CreateAccountHandler\<close>.\<close>

definition account_claims :: "int \<Rightarrow> string \<Rightarrow> int \<Rightarrow> map_claims" where
  "account_claims userID name exp =
     gm_put ''exp'' (GInt exp) (gm_put ''name'' (GStr name) (gm_put ''user_id'' (GInt userID) []))"

lemma token_user_accepts:
  assumes "accepts (ge_crypto env) (NewParser []) (MapClaims (ge_oor env)) now middleware_key s h cs sg header claims m"
    and "gm_get claims ''user_id'' = Some (GFloat x)"
  shows "token_user env now s = Inr (f64_to_int64 (ge_oor env x) x)"
  using ParseWithClaims_accepts [OF assms(1)] assms(2)
  by (simp add: token_user_def jwt_Parse_def Parse_def read_token_def)

lemma account_claims_good: "\<bar>uid\<bar> < 2 ^ 53 \<Longrightarrow> sane_seconds e \<Longrightarrow> map_good (account_claims uid name e)"
  by (simp add: map_good_def account_claims_def gm_ok_def small_gov_def is_utf8_def claim_keys sane_seconds_def)

lemma seen_account: "seen_map (account_claims uid name e) =
    [(''exp'', GFloat (f64_of_int e)), (''name'', GStr (valid_utf8_text name)), (''user_id'', GFloat (f64_of_int uid))]"
proof -
  have "(''exp'' :: string) \<le> ''name''" "(''name'' :: string) \<le> ''user_id''" "(''exp'' :: string) \<le> ''user_id''"
    "\<not> (''user_id'' :: string) \<le> ''name''" "\<not> (''user_id'' :: string) \<le> ''exp''" "\<not> (''name'' :: string) \<le> ''exp''"
    by code_simp+
  then show ?thesis by (simp add: seen_map_def account_claims_def)
qed

lemma account_token_read:
  assumes "SignedString (ge_crypto env) (MapClaims (ge_oor env))
      (NewWithClaims SigningMethodHS256 (account_claims uid name e)) (Bytes jwtSecret) = Some (Inr s)"
    and "\<bar>uid\<bar> < 2 ^ 53" "sane_seconds e" "e \<noteq> 0" "sane_seconds now" "now < e"
  shows "token_user env (clock_at now ns) s = Inr uid"
proof -
  let ?cl = "seen_map (account_claims uid name e)"
  have "map_Valid (ge_oor env) (clock_at now ns) ?cl = None \<longleftrightarrow> in_time (Some e) None None now"
    using assms(3-6) by (intro map_Valid_in_time) (auto simp: seen_account time_claim_def)
  then have v: "ct_valid (MapClaims (ge_oor env)) (clock_at now ns) ?cl = None"
    using assms(6) by (simp add: MapClaims_def in_time_def)
  obtain h cs sg where "accepts (ge_crypto env) (NewParser []) (MapClaims (ge_oor env)) (clock_at now ns)
      middleware_key s h cs sg hs256_seen ?cl SigningMethodHS256"
    by (rule map_claims.signed_accepted [where p = "NewParser []" and kf = middleware_key,
        OF account_claims_good [OF assms(2,3)] assms(1) v])
      (use middleware_key_HS256 in \<open>auto simp: method_allowed_def default_parser\<close>)
  from token_user_accepts [OF this] show ?thesis
    using f64_int_roundtrip_lt [OF assms(2)] by (simp add: seen_account)
qed

text \<open>A login token, written from the claims struct, is read into a map.\<close>

lemma login_token_read:
  assumes "SignedString (ge_crypto env) (UserClaims (ge_oor env))
      (NewWithClaims SigningMethodHS256 (login_claims uid name (clock_at e ns1) (clock_at i ns2))) (Bytes jwtSecret) = Some (Inr s)"
    and "\<bar>uid\<bar> < 2 ^ 53" "sane_seconds e" "sane_seconds i" "e \<noteq> 0" "i \<noteq> 0" "sane_seconds now" "i \<le> now" "now < e"
  shows "token_user env (clock_at now ns) s = Inr uid"
proof -
  let ?cl = "[(''user_id'', GFloat (f64_of_int uid)), (''name'', GStr (valid_utf8_text name)),
    (''exp'', GFloat (f64_of_int e)), (''iat'', GFloat (f64_of_int i))]"
  let ?ms = "[(''user_id'', SInt uid), (''name'', SStr name), (''exp'', SInt e), (''iat'', SInt i)]"
  have d: "NewNumericDate (clock_at n ns') = time_unix (word_of_int n) 0" for n ns'
    by (simp add: NewNumericDate_def clock_at_def trunc_second_def time_unix_0)
  have ms: "ct_members (UserClaims (ge_oor env)) (login_claims uid name (clock_at e ns1) (clock_at i ns2)) = Some ?ms"
    using assms(3,4) by (simp add: UserClaims_def login_claims_def registered_members_def omit_string_def omit_date_def
        zero_registered_def d date_json_unix)
  have dec: "ct_decode (MapClaims (ge_oor env)) (ps_UseJSONNumber (NewParser [])) (JObj (obj_of ?ms)) = Some ?cl"
    using assms(2,3,4) by (simp add: MapClaims_def obj_of_def claim_keys default_parser finite_small sane_seconds_def)
  have "map_Valid (ge_oor env) (clock_at now ns) ?cl = None \<longleftrightarrow> in_time (Some e) (Some i) None now"
    using assms(3-7) by (intro map_Valid_in_time) (auto simp: time_claim_def)
  then have v: "ct_valid (MapClaims (ge_oor env)) (clock_at now ns) ?cl = None"
    using assms(8,9) by (simp add: MapClaims_def in_time_def)
  obtain h cs sg where "accepts (ge_crypto env) (NewParser []) (MapClaims (ge_oor env)) (clock_at now ns)
      middleware_key s h cs sg hs256_seen ?cl SigningMethodHS256"
    by (rule signed_read [where p = "NewParser []" and kf = middleware_key, OF assms(1) ms dec v])
      (use middleware_key_HS256 in \<open>auto simp: method_allowed_def default_parser\<close>)
  from token_user_accepts [OF this] show ?thesis
    using f64_int_roundtrip_lt [OF assms(2)] by simp
qed

text \<open>What a token is that the middleware accepts.\<close>

lemma token_user_only:
  assumes "token_user env now s = Inr uid"
  obtains h cs sg header claims name hsh x where
    "accepts (ge_crypto env) (NewParser []) (MapClaims (ge_oor env)) now middleware_key s h cs sg header claims (HMAC name hsh)"
    "gm_get claims ''user_id'' = Some (GFloat x)" "uid = f64_to_int64 (ge_oor env x) x"
proof -
  let ?r = "ParseWithClaims (ge_crypto env) (NewParser []) (MapClaims (ge_oor env)) now s (Some middleware_key)"
  obtain t where "?r = (t, None)"
    using assms by (auto simp: token_user_def jwt_Parse_def Parse_def split: prod.splits option.splits)
  then obtain h cs sg header claims m where
    acc: "accepts (ge_crypto env) (NewParser []) (MapClaims (ge_oor env)) now middleware_key s h cs sg header claims m"
    by (rule ParseWithClaims_only)
  then have "\<exists>name hsh. m = HMAC name hsh"
    by (cases m) (auto simp: accepts_def middleware_key_def read_token_def)
  then obtain name hsh where m: "m = HMAC name hsh" by blast
  from assms ParseWithClaims_accepts [OF acc] obtain x where
    "gm_get claims ''user_id'' = Some (GFloat x)" "uid = f64_to_int64 (ge_oor env x) x"
    by (auto simp: token_user_def jwt_Parse_def Parse_def read_token_def split: option.splits gov.splits)
  with acc that show ?thesis unfolding m by blast
qed

end
