(* ===== verification/Blowfish.thy ===== *)
theory Blowfish
  imports Blowfish_Const Json_Text
begin

text \<open>
  Package \<open>golang.org/x/crypto/blowfish\<close>: the cipher behind bcrypt. The unrolled rounds of
  \<open>encryptBlock\<close> and \<open>decryptBlock\<close> are a recursion over the indices of the round keys; the
  loops of the key schedule are folds over their index. \<open>cipher_ok\<close> says that the arrays have
  the lengths of their Go types, so that no index is out of range.
\<close>

unbundle bit_operations_syntax

record Cipher =
  ci_p :: "u32 list"
  ci_s0 :: "u32 list"
  ci_s1 :: "u32 list"
  ci_s2 :: "u32 list"
  ci_s3 :: "u32 list"

definition cipher_ok :: "Cipher \<Rightarrow> bool" where
  "cipher_ok c \<longleftrightarrow> length (ci_p c) = 18 \<and> length (ci_s0 c) = 256 \<and> length (ci_s1 c) = 256 \<and>
     length (ci_s2 c) = 256 \<and> length (ci_s3 c) = 256"

section \<open>Blocks\<close>

text \<open>\<open>byte(x >> k)\<close> as an index.\<close>

definition byte_at :: "nat \<Rightarrow> u32 \<Rightarrow> nat" where
  "byte_at k x = unat (drop_bit k x) mod 256"

definition mix :: "Cipher \<Rightarrow> u32 \<Rightarrow> u32" where
  "mix c x = ((ci_s0 c ! byte_at 24 x + ci_s1 c ! byte_at 16 x) XOR ci_s2 c ! byte_at 8 x) + ci_s3 c ! byte_at 0 x"

text \<open>
  The rounds, each of which changes the half that the round before left alone: the first
  component is the half changed last.
\<close>

fun block_rounds :: "Cipher \<Rightarrow> nat list \<Rightarrow> u32 \<times> u32 \<Rightarrow> u32 \<times> u32" where
  "block_rounds c [] ab = ab"
| "block_rounds c (i # is) (a, b) = block_rounds c is (b XOR (mix c a XOR ci_p c ! i), a)"

definition encryptBlock :: "u32 \<Rightarrow> u32 \<Rightarrow> Cipher \<Rightarrow> u32 \<times> u32" where
  "encryptBlock l r c =
     (case block_rounds c [1..<17] (l XOR ci_p c ! 0, r) of (xl, xr) \<Rightarrow> (xr XOR ci_p c ! 17, xl))"

definition decryptBlock :: "u32 \<Rightarrow> u32 \<Rightarrow> Cipher \<Rightarrow> u32 \<times> u32" where
  "decryptBlock l r c =
     (case block_rounds c (rev [1..<17]) (l XOR ci_p c ! 17, r) of (xl, xr) \<Rightarrow> (xr XOR ci_p c ! 0, xl))"

lemma byte_at_less: "byte_at k x < 256"
  by (simp add: byte_at_def)

lemma block_rounds_append: "block_rounds c (is @ js) ab = block_rounds c js (block_rounds c is ab)"
  by (induction c "is" ab rule: block_rounds.induct) auto

text \<open>The rounds in reverse order undo the rounds, with the halves exchanged.\<close>

lemma block_rounds_rev:
  "block_rounds c (rev is) (prod.swap (block_rounds c is ab)) = prod.swap ab"
proof (induction c "is" ab rule: block_rounds.induct)
  case (2 c i "is" a b)
  have "(b XOR (mix c a XOR ci_p c ! i)) XOR (mix c a XOR ci_p c ! i) = b"
    by (simp add: xor.assoc)
  with 2 show ?case by (simp add: block_rounds_append)
qed simp

lemma decrypt_encrypt_block:
  assumes "encryptBlock l r c = (l', r')"
  shows "decryptBlock l' r' c = (l, r)"
proof -
  obtain xl xr where 1: "block_rounds c [1..<17] (l XOR ci_p c ! 0, r) = (xl, xr)" by force
  with assms have 2: "l' = xr XOR ci_p c ! 17" "r' = xl" by (simp_all add: encryptBlock_def)
  have "block_rounds c (rev [1..<17]) (xr, xl) = (r, l XOR ci_p c ! 0)"
    using block_rounds_rev [of c "[1..<17]" "(l XOR ci_p c ! 0, r)"] by (simp only: 1 prod.swap_def fst_conv snd_conv)
  then show ?thesis by (simp add: decryptBlock_def 2 xor.assoc)
qed

text \<open>\<open>Encrypt\<close> and \<open>Decrypt\<close> on eight bytes.\<close>

definition byte_word :: "char \<Rightarrow> u32" where
  "byte_word c = word_of_nat (byte_of c)"

definition word_of_bytes :: "char \<Rightarrow> char \<Rightarrow> char \<Rightarrow> char \<Rightarrow> u32" where
  "word_of_bytes a b c d =
     push_bit 24 (byte_word a) OR push_bit 16 (byte_word b) OR push_bit 8 (byte_word c) OR byte_word d"

definition bytes_of_word :: "u32 \<Rightarrow> string" where
  "bytes_of_word x = [char_of (byte_at 24 x), char_of (byte_at 16 x), char_of (byte_at 8 x), char_of (byte_at 0 x)]"

definition on_block :: "(u32 \<Rightarrow> u32 \<Rightarrow> Cipher \<Rightarrow> u32 \<times> u32) \<Rightarrow> Cipher \<Rightarrow> string \<Rightarrow> string" where
  "on_block f c src =
     (case f (word_of_bytes (src ! 0) (src ! 1) (src ! 2) (src ! 3))
             (word_of_bytes (src ! 4) (src ! 5) (src ! 6) (src ! 7)) c of
        (l, r) \<Rightarrow> bytes_of_word l @ bytes_of_word r)"

definition Encrypt :: "Cipher \<Rightarrow> string \<Rightarrow> string" where
  "Encrypt c src = on_block encryptBlock c src"

definition Decrypt :: "Cipher \<Rightarrow> string \<Rightarrow> string" where
  "Decrypt c src = on_block decryptBlock c src"

lemma bit_byte_word: "bit (byte_word c) n \<longleftrightarrow> bit (byte_of c) n"
  using bit_byte_of [of c n] by (auto simp: byte_word_def bit_simps)

lemma bit_byte_at: "bit (byte_at k x) n \<longleftrightarrow> n < 8 \<and> bit x (k + n)"
proof -
  have "byte_at k x = take_bit 8 (unat (drop_bit k x))" by (simp add: byte_at_def take_bit_eq_mod)
  then show ?thesis by (auto simp: bit_simps dest: bit_imp_le_length)
qed

lemma byte_of_byte_at: "byte_of (char_of (byte_at k x)) = byte_at k x"
  using byte_at_less [of k x] by (simp add: byte_of_def)

lemma bit_word_of_bytes:
  "bit (word_of_bytes a b c d) n \<longleftrightarrow> n < 32 \<and>
     ((24 \<le> n \<and> bit (byte_of a) (n - 24)) \<or> (16 \<le> n \<and> bit (byte_of b) (n - 16)) \<or>
      (8 \<le> n \<and> bit (byte_of c) (n - 8)) \<or> bit (byte_of d) n)"
  using bit_byte_of [of d n] by (auto simp: word_of_bytes_def bit_simps bit_byte_word)

lemma word_of_bytes_of_word:
  "word_of_bytes (char_of (byte_at 24 x)) (char_of (byte_at 16 x)) (char_of (byte_at 8 x)) (char_of (byte_at 0 x)) = x"
proof (rule bit_word_eqI)
  fix n
  assume "n < LENGTH(32)"
  then consider "n < 8" | "8 \<le> n" "n < 16" | "16 \<le> n" "n < 24" | "24 \<le> n" "n < 32" by fastforce
  then show "bit (word_of_bytes (char_of (byte_at 24 x)) (char_of (byte_at 16 x)) (char_of (byte_at 8 x)) (char_of (byte_at 0 x))) n = bit x n"
    by cases (auto simp: bit_word_of_bytes byte_of_byte_at bit_byte_at)
qed

lemma bytes_of_word_of_bytes: "bytes_of_word (word_of_bytes a b c d) = [a, b, c, d]"
proof -
  have "byte_at 24 (word_of_bytes a b c d) = byte_of a" "byte_at 16 (word_of_bytes a b c d) = byte_of b"
    "byte_at 8 (word_of_bytes a b c d) = byte_of c" "byte_at 0 (word_of_bytes a b c d) = byte_of d"
    by (rule bit_eqI; auto simp: bit_byte_at bit_word_of_bytes dest: bit_byte_of)+
  then show ?thesis by (simp add: bytes_of_word_def byte_of_def)
qed

lemma on_block_bytes:
  assumes "f (word_of_bytes a b c d) (word_of_bytes e g h i) ci = (l, r)"
  shows "on_block f ci [a, b, c, d, e, g, h, i] = bytes_of_word l @ bytes_of_word r"
  using assms by (simp add: on_block_def)

lemma eight_bytes: "length s = 8 \<Longrightarrow> \<exists>a b c d e f g h. s = [a, b, c, d, e, f, g, h]"
  by (auto simp: eval_nat_numeral length_Suc_conv)

theorem Decrypt_Encrypt:
  assumes "length src = 8"
  shows "Decrypt c (Encrypt c src) = src"
proof -
  obtain a0 a1 a2 a3 b0 b1 b2 b3 where src: "src = [a0, a1, a2, a3, b0, b1, b2, b3]"
    using eight_bytes [OF assms] by blast
  obtain l r where e: "encryptBlock (word_of_bytes a0 a1 a2 a3) (word_of_bytes b0 b1 b2 b3) c = (l, r)" by force
  then have "Encrypt c src = bytes_of_word l @ bytes_of_word r"
    unfolding Encrypt_def src by (rule on_block_bytes)
  then have "Decrypt c (Encrypt c src) =
      on_block decryptBlock c (bytes_of_word l @ bytes_of_word r)" by (simp add: Decrypt_def)
  also have "\<dots> = bytes_of_word (word_of_bytes a0 a1 a2 a3) @ bytes_of_word (word_of_bytes b0 b1 b2 b3)"
    unfolding bytes_of_word_def append.simps
    by (subst on_block_bytes) (simp_all add: word_of_bytes_of_word decrypt_encrypt_block [OF e] bytes_of_word_def)
  finally show ?thesis by (simp add: bytes_of_word_of_bytes src)
qed

section \<open>The key schedule\<close>

text \<open>One byte of a key or salt, read in a circle.\<close>

definition next_byte :: "string \<Rightarrow> u32 \<times> nat \<Rightarrow> u32 \<times> nat" where
  "next_byte b s = (case s of (w, j) \<Rightarrow>
     (push_bit 8 w OR byte_word (b ! j), if length b \<le> Suc j then 0 else Suc j))"

definition getNextWord :: "string \<Rightarrow> nat \<Rightarrow> u32 \<times> nat" where
  "getNextWord b pos = (next_byte b ^^ 4) (0, pos)"

text \<open>The words of the key go into the round keys one after the other.\<close>

definition mix_key :: "string \<Rightarrow> nat \<Rightarrow> Cipher \<times> nat \<Rightarrow> Cipher \<times> nat" where
  "mix_key key i s = (case s of (c, j) \<Rightarrow> (case getNextWord key j of (d, j') \<Rightarrow>
     (c\<lparr>ci_p := (ci_p c)[i := ci_p c ! i XOR d]\<rparr>, j')))"

text \<open>The index of a loop over pairs.\<close>

definition evens :: "nat \<Rightarrow> nat list" where
  "evens n = map (\<lambda>i. 2 * i) [0..<n div 2]"

type_synonym table_update = "(u32 list \<Rightarrow> u32 list) \<Rightarrow> Cipher \<Rightarrow> Cipher"

text \<open>Two entries of an array become the encryption of the two halves before, as changed so far.\<close>

definition fill_pair :: "table_update \<Rightarrow> nat \<Rightarrow> Cipher \<times> u32 \<times> u32 \<Rightarrow> Cipher \<times> u32 \<times> u32" where
  "fill_pair upd i s = (case s of (c, l, r) \<Rightarrow> (case encryptBlock l r c of (l', r') \<Rightarrow>
     (upd (\<lambda>xs. xs[i := l', Suc i := r']) c, l', r')))"

definition fill_tables :: "Cipher \<times> u32 \<times> u32 \<Rightarrow> Cipher \<times> u32 \<times> u32" where
  "fill_tables s =
     fold (fill_pair ci_s3_update) (evens 256) (fold (fill_pair ci_s2_update) (evens 256)
    (fold (fill_pair ci_s1_update) (evens 256) (fold (fill_pair ci_s0_update) (evens 256)
    (fold (fill_pair ci_p_update) (evens 18) s))))"

definition ExpandKey :: "string \<Rightarrow> Cipher \<Rightarrow> Cipher" where
  "ExpandKey key c =
     (case fold (mix_key key) [0..<18] (c, 0) of (c', j) \<Rightarrow> fst (fill_tables (c', 0, 0)))"

text \<open>The same with two words of the salt in each step, its position going on from table to table.\<close>

definition fill_salted :: "string \<Rightarrow> table_update \<Rightarrow> nat \<Rightarrow> Cipher \<times> u32 \<times> u32 \<times> nat \<Rightarrow> Cipher \<times> u32 \<times> u32 \<times> nat" where
  "fill_salted salt upd i s = (case s of (c, l, r, j) \<Rightarrow>
     (case getNextWord salt j of (a, j1) \<Rightarrow> (case getNextWord salt j1 of (b, j2) \<Rightarrow>
     (case fill_pair upd i (c, l XOR a, r XOR b) of (c', l', r') \<Rightarrow> (c', l', r', j2)))))"

definition expandKeyWithSalt :: "string \<Rightarrow> string \<Rightarrow> Cipher \<Rightarrow> Cipher" where
  "expandKeyWithSalt key salt c =
     (case fold (mix_key key) [0..<18] (c, 0) of (c', j) \<Rightarrow>
        fst (fold (fill_salted salt ci_s3_update) (evens 256) (fold (fill_salted salt ci_s2_update) (evens 256)
            (fold (fill_salted salt ci_s1_update) (evens 256) (fold (fill_salted salt ci_s0_update) (evens 256)
            (fold (fill_salted salt ci_p_update) (evens 18) (c', 0, 0, 0)))))))"

definition initCipher :: Cipher where
  "initCipher = \<lparr>ci_p = pi_p, ci_s0 = pi_s0, ci_s1 = pi_s1, ci_s2 = pi_s2, ci_s3 = pi_s3\<rparr>"

datatype KeySizeError = KeySizeError nat

definition NewCipher :: "string \<Rightarrow> KeySizeError + Cipher" where
  "NewCipher key =
     (if length key < 1 \<or> 56 < length key then Inl (KeySizeError (length key))
      else Inr (ExpandKey key initCipher))"

definition NewSaltedCipher :: "string \<Rightarrow> string \<Rightarrow> KeySizeError + Cipher" where
  "NewSaltedCipher key salt =
     (if salt = [] then NewCipher key
      else if length key < 1 then Inl (KeySizeError (length key))
      else Inr (expandKeyWithSalt key salt initCipher))"

section \<open>No index is out of range\<close>

lemma cipher_ok_init: "cipher_ok initCipher"
  by (simp add: cipher_ok_def initCipher_def pi_lengths)

definition keeps_lengths :: "table_update \<Rightarrow> bool" where
  "keeps_lengths upd \<longleftrightarrow> (\<forall>f c. (\<forall>xs. length (f xs) = length xs) \<longrightarrow> cipher_ok c \<longrightarrow> cipher_ok (upd f c))"

lemma updates_keep_lengths: "keeps_lengths ci_p_update" "keeps_lengths ci_s0_update" "keeps_lengths ci_s1_update"
  "keeps_lengths ci_s2_update" "keeps_lengths ci_s3_update"
  by (simp_all add: keeps_lengths_def cipher_ok_def)

lemma cipher_ok_fill_pair: "keeps_lengths upd \<Longrightarrow> cipher_ok (fst s) \<Longrightarrow> cipher_ok (fst (fill_pair upd i s))"
  by (auto simp: fill_pair_def keeps_lengths_def split: prod.splits)

lemma cipher_ok_fill: "keeps_lengths upd \<Longrightarrow> cipher_ok (fst s) \<Longrightarrow> cipher_ok (fst (fold (fill_pair upd) is s))"
  by (induction "is" arbitrary: s) (simp_all add: cipher_ok_fill_pair)

lemma cipher_ok_fill_salted_pair: "keeps_lengths upd \<Longrightarrow> cipher_ok (fst s) \<Longrightarrow> cipher_ok (fst (fill_salted salt upd i s))"
  by (auto simp: fill_salted_def fill_pair_def keeps_lengths_def split: prod.splits)

lemma cipher_ok_fill_salted: "keeps_lengths upd \<Longrightarrow> cipher_ok (fst s) \<Longrightarrow> cipher_ok (fst (fold (fill_salted salt upd) is s))"
  by (induction "is" arbitrary: s) (simp_all add: cipher_ok_fill_salted_pair)

lemma cipher_ok_mix_key: "cipher_ok (fst s) \<Longrightarrow> cipher_ok (fst (fold (mix_key key) is s))"
  by (induction "is" arbitrary: s) (auto simp: mix_key_def cipher_ok_def split: prod.splits)

lemma cipher_ok_ExpandKey: "cipher_ok c \<Longrightarrow> cipher_ok (ExpandKey key c)"
  using cipher_ok_mix_key [of "(c, 0)" key "[0..<18]"]
  by (auto simp: ExpandKey_def fill_tables_def split: prod.splits
      intro!: cipher_ok_fill updates_keep_lengths)

lemma cipher_ok_expandKeyWithSalt: "cipher_ok c \<Longrightarrow> cipher_ok (expandKeyWithSalt key salt c)"
  using cipher_ok_mix_key [of "(c, 0)" key "[0..<18]"]
  by (auto simp: expandKeyWithSalt_def split: prod.splits intro!: cipher_ok_fill_salted updates_keep_lengths)

text \<open>The position in the key or salt stays inside it.\<close>

lemma next_byte_pos: "b \<noteq> [] \<Longrightarrow> snd (next_byte b (w, n mod length b)) = Suc n mod length b"
proof -
  assume "b \<noteq> []"
  then have "n mod length b < length b" by simp
  then show ?thesis by (auto simp: next_byte_def mod_Suc)
qed

section \<open>The key counts for 72 bytes of its circle\<close>

definition circle :: "string \<Rightarrow> nat \<Rightarrow> char" where
  "circle b n = b ! (n mod length b)"

definition word_at :: "string \<Rightarrow> nat \<Rightarrow> u32" where
  "word_at b n = fst ((next_byte b ^^ 4) (0, n mod length b))"

lemma next_byte_circle:
  "b \<noteq> [] \<Longrightarrow> next_byte b (w, n mod length b) = (push_bit 8 w OR byte_word (circle b n), Suc n mod length b)"
  using next_byte_pos [of b w n] by (simp add: next_byte_def circle_def)

lemma getNextWord_circle:
  assumes "b \<noteq> []"
  shows "getNextWord b (n mod length b) =
    (push_bit 8 (push_bit 8 (push_bit 8 (push_bit 8 0 OR byte_word (circle b n)) OR byte_word (circle b (Suc n)))
       OR byte_word (circle b (Suc (Suc n)))) OR byte_word (circle b (Suc (Suc (Suc n)))), (n + 4) mod length b)"
  unfolding getNextWord_def by (simp add: eval_nat_numeral next_byte_circle [OF assms])

definition same_circle :: "string \<Rightarrow> string \<Rightarrow> bool" where
  "same_circle a b \<longleftrightarrow> a \<noteq> [] \<and> b \<noteq> [] \<and> (\<forall>n < 72. circle a n = circle b n)"

lemma mix_key_circle:
  assumes "same_circle a b" "i + m = 18"
  shows "fst (fold (mix_key a) [i..<18] (c, (4 * i) mod length a)) =
         fst (fold (mix_key b) [i..<18] (c, (4 * i) mod length b))"
  using assms(2)
proof (induction m arbitrary: i c)
  case (Suc m)
  have ne: "a \<noteq> []" "b \<noteq> []" using assms(1) by (auto simp: same_circle_def)
  have i: "4 * i + 4 = 4 * Suc i" "[i..<18] = i # [Suc i..<18]" using Suc.prems by (simp_all add: upt_conv_Cons)
  have "circle a (4 * i + k) = circle b (4 * i + k)" if "k < 4" for k
    using assms(1) that Suc.prems by (simp add: same_circle_def)
  from this [of 0] this [of 1] this [of 2] this [of 3]
  have w: "fst (getNextWord a ((4 * i) mod length a)) = fst (getNextWord b ((4 * i) mod length b))"
    by (simp add: getNextWord_circle [OF ne(1)] getNextWord_circle [OF ne(2)] eval_nat_numeral)
  have p: "snd (getNextWord x ((4 * i) mod length x)) = (4 * Suc i) mod length x" if "x \<noteq> []" for x
    using getNextWord_circle [OF that, of "4 * i"] i(1) by simp
  have step: "mix_key x i (c, (4 * i) mod length x) =
      (c\<lparr>ci_p := (ci_p c)[i := ci_p c ! i XOR fst (getNextWord x ((4 * i) mod length x))]\<rparr>, (4 * Suc i) mod length x)"
    if "x \<noteq> []" for x
    using p [OF that] by (simp add: mix_key_def split: prod.split) (metis fst_conv snd_conv)
  show ?case using Suc.IH [of "Suc i"] Suc.prems by (simp add: i(2) step [OF ne(1)] step [OF ne(2)] w)
qed simp

lemma ExpandKey_circle: "same_circle a b \<Longrightarrow> ExpandKey a c = ExpandKey b c"
  using mix_key_circle [of a b 0 18 c] by (auto simp: ExpandKey_def split: prod.splits)

lemma expandKeyWithSalt_circle: "same_circle a b \<Longrightarrow> expandKeyWithSalt a salt c = expandKeyWithSalt b salt c"
  using mix_key_circle [of a b 0 18 c] by (auto simp: expandKeyWithSalt_def split: prod.splits)

end
