(* ===== verification/Bcrypt.thy ===== *)
theory Bcrypt
  imports Blowfish Base64
begin

text \<open>
  Package \<open>golang.org/x/crypto/bcrypt\<close>: how a password is hashed, how the hash is written and
  read, and how a password is compared with it. The 16 random bytes of a salt are an argument
  (\<open>None\<close>: the random source failed).
\<close>

datatype bcrypt_error =
    ErrMismatchedHashAndPassword
  | ErrHashTooShort
  | HashVersionTooNewError char
  | InvalidHashPrefixError char
  | InvalidCostError int
  | ErrPasswordTooLong
  | RandError
  | NumError
  | CorruptInputError
  | CipherKeySize KeySizeError

abbreviation "MinCost \<equiv> (4 :: int)"
abbreviation "MaxCost \<equiv> (31 :: int)"
abbreviation "DefaultCost \<equiv> (10 :: int)"

abbreviation "encodedSaltSize \<equiv> (22 :: nat)"
abbreviation "encodedHashSize \<equiv> (31 :: nat)"
abbreviation "minHashSize \<equiv> (59 :: nat)"

definition magicCipherData :: string where
  "magicCipherData = ''OrpheanBeholderScryDoubt''"

record hashed =
  h_hash :: string
  h_salt :: string
  h_cost :: int
  h_major :: char
  h_minor :: char

section \<open>The alphabet of bcrypt\<close>

definition bc_alphabet :: string where
  "bc_alphabet = ''./ABCDEFGHIJKLMNOPQRSTUVWXYZabcdefghijklmnopqrstuvwxyz0123456789''"

text \<open>The padded encoding without its padding. No caller passes an empty text.\<close>

definition base64Encode :: "string \<Rightarrow> string" where
  "base64Encode src = encode_in bc_alphabet src"

text \<open>
  Up to four \<open>=\<close> are appended, then the text is decoded as padded base64: after the last whole
  group there are two characters and \<open>==\<close>, or three and \<open>=\<close>, or nothing.
\<close>

definition base64Decode :: "string \<Rightarrow> bcrypt_error + string" where
  "base64Decode src =
     (let padded = src @ replicate (4 - length src mod 4) (CHR ''='');
          seen = filter (\<lambda>c. \<not> line_break c) padded;
          body = takeWhile (\<lambda>c. c \<noteq> CHR ''='') seen;
          pad = drop (length body) seen in
      if (length body mod 4 = 2 \<and> pad = ''=='') \<or> (length body mod 4 = 3 \<and> pad = ''='') \<or>
         (length body mod 4 = 0 \<and> pad = [])
      then (case decode_in bc_alphabet body of None \<Rightarrow> Inl CorruptInputError | Some s \<Rightarrow> Inr s)
      else Inl CorruptInputError)"

section \<open>Hashing\<close>

definition nul :: char where
  "nul = char_of (0 :: nat)"

definition expensiveBlowfishSetup :: "string \<Rightarrow> nat \<Rightarrow> string \<Rightarrow> bcrypt_error + Cipher" where
  "expensiveBlowfishSetup key cost salt =
     (case base64Decode salt of Inl e \<Rightarrow> Inl e
      | Inr csalt \<Rightarrow>
          let ckey = key @ [nul] in
          (case NewSaltedCipher ckey csalt of Inl e \<Rightarrow> Inl (CipherKeySize e)
           | Inr c \<Rightarrow>
               let rounds = (if cost < 64 then 2 ^ cost else 0) in
               Inr (((\<lambda>c. ExpandKey csalt (ExpandKey ckey c)) ^^ rounds) c)))"

definition bcrypt :: "string \<Rightarrow> int \<Rightarrow> string \<Rightarrow> bcrypt_error + string" where
  "bcrypt password cost salt =
     (case expensiveBlowfishSetup password (unat (word_of_int cost :: u32)) salt of Inl e \<Rightarrow> Inl e
      | Inr c \<Rightarrow>
          let cipherData = concat (map (\<lambda>i. (Encrypt c ^^ 64) (take 8 (drop i magicCipherData))) [0, 8, 16]) in
          Inr (base64Encode (take 23 cipherData)))"

definition checkCost :: "int \<Rightarrow> bcrypt_error option" where
  "checkCost cost = (if cost < MinCost \<or> MaxCost < cost then Some (InvalidCostError cost) else None)"

definition newFromPassword :: "string option \<Rightarrow> string \<Rightarrow> int \<Rightarrow> bcrypt_error + hashed" where
  "newFromPassword random password cost0 =
     (let cost = (if cost0 < MinCost then DefaultCost else cost0) in
      case checkCost cost of Some e \<Rightarrow> Inl e
      | None \<Rightarrow>
          (case random of None \<Rightarrow> Inl RandError
           | Some unencodedSalt \<Rightarrow>
               let salt = base64Encode unencodedSalt in
               (case bcrypt password cost salt of Inl e \<Rightarrow> Inl e
                | Inr hash \<Rightarrow> Inr \<lparr>h_hash = hash, h_salt = salt, h_cost = cost, h_major = CHR ''2'', h_minor = CHR ''a''\<rparr>)))"

section \<open>The text of a hash\<close>

text \<open>\<open>copy(arr[n:], src)\<close>\<close>

definition copy_at :: "nat \<Rightarrow> string \<Rightarrow> string \<Rightarrow> string" where
  "copy_at n src arr = take n arr @ take (length arr - n) src @ drop (n + length src) arr"

text \<open>\<open>%02d\<close>\<close>

definition two_digits :: "int \<Rightarrow> string" where
  "two_digits n = (let s = show_int n in if length s < 2 then CHR ''0'' # s else s)"

definition Hash :: "hashed \<Rightarrow> string" where
  "Hash p =
     (let arr = replicate 60 nul;
          arr = arr[0 := CHR ''$''];
          arr = arr[1 := h_major p];
          (arr, n) = (if h_minor p \<noteq> nul then (arr[2 := h_minor p], 3) else (arr, 2));
          arr = arr[n := CHR ''$'']; n = n + 1;
          arr = copy_at n (two_digits (h_cost p)) arr; n = n + 2;
          arr = arr[n := CHR ''$'']; n = n + 1;
          arr = copy_at n (h_salt p) arr; n = n + encodedSaltSize;
          arr = copy_at n (h_hash p) arr; n = n + encodedHashSize
      in take n arr)"

definition decodeVersion :: "string \<Rightarrow> bcrypt_error + (char \<times> char \<times> nat)" where
  "decodeVersion sbytes =
     (if sbytes ! 0 \<noteq> CHR ''$'' then Inl (InvalidHashPrefixError (sbytes ! 0))
      else if byte_of (CHR ''2'') < byte_of (sbytes ! 1) then Inl (HashVersionTooNewError (sbytes ! 1))
      else if sbytes ! 2 \<noteq> CHR ''$'' then Inr (sbytes ! 1, sbytes ! 2, 4)
      else Inr (sbytes ! 1, nul, 3))"

definition decodeCost :: "string \<Rightarrow> bcrypt_error + (int \<times> nat)" where
  "decodeCost sbytes =
     (case ParseInt (take 2 sbytes) of None \<Rightarrow> Inl NumError
      | Some cost \<Rightarrow> (case checkCost cost of Some e \<Rightarrow> Inl e | None \<Rightarrow> Inr (cost, 3)))"

definition newFromHash :: "string \<Rightarrow> bcrypt_error + hashed" where
  "newFromHash hashedSecret =
     (if length hashedSecret < minHashSize then Inl ErrHashTooShort
      else (case decodeVersion hashedSecret of Inl e \<Rightarrow> Inl e
      | Inr (major, minor, n) \<Rightarrow>
          let hashedSecret = drop n hashedSecret in
          (case decodeCost hashedSecret of Inl e \<Rightarrow> Inl e
           | Inr (cost, n) \<Rightarrow>
               let hashedSecret = drop n hashedSecret in
               Inr \<lparr>h_hash = drop encodedSaltSize hashedSecret, h_salt = take encodedSaltSize hashedSecret,
                    h_cost = cost, h_major = major, h_minor = minor\<rparr>)))"

section \<open>The operations\<close>

definition GenerateFromPassword :: "string option \<Rightarrow> string \<Rightarrow> int \<Rightarrow> bcrypt_error + string" where
  "GenerateFromPassword random password cost =
     (if 72 < length password then Inl ErrPasswordTooLong
      else (case newFromPassword random password cost of Inl e \<Rightarrow> Inl e | Inr p \<Rightarrow> Inr (Hash p)))"

definition CompareHashAndPassword :: "string \<Rightarrow> string \<Rightarrow> bcrypt_error option" where
  "CompareHashAndPassword hashedPassword password =
     (case newFromHash hashedPassword of Inl e \<Rightarrow> Some e
      | Inr p \<Rightarrow>
          (case bcrypt password (h_cost p) (h_salt p) of Inl e \<Rightarrow> Some e
           | Inr otherHash \<Rightarrow>
               let otherP = p\<lparr>h_hash := otherHash\<rparr> in
               if Hash p = Hash otherP then None else Some ErrMismatchedHashAndPassword))"

definition Cost :: "string \<Rightarrow> bcrypt_error + int" where
  "Cost hashedPassword = (case newFromHash hashedPassword of Inl e \<Rightarrow> Inl e | Inr p \<Rightarrow> Inr (h_cost p))"

section \<open>Salts and hashes are as long as they should be\<close>

lemma bc_alphabet_ok: "alphabet_ok bc_alphabet"
  by (simp add: alphabet_ok_def) code_simp

lemma base64Encode_length: "length (base64Encode s) = (4 * length s + 2) div 3"
  by (simp add: base64Encode_def encode_length)

lemma bc_chars: "c \<in> set (base64Encode s) \<Longrightarrow> c \<noteq> CHR ''='' \<and> \<not> line_break c"
proof -
  assume "c \<in> set (base64Encode s)"
  then have "c \<in> set bc_alphabet"
    using encode_chars [of bc_alphabet s] bc_alphabet_ok by (auto simp: base64Encode_def alphabet_ok_def)
  moreover have "CHR ''='' \<notin> set bc_alphabet" by code_simp
  ultimately show ?thesis using bc_alphabet_ok by (auto simp: alphabet_ok_def)
qed

lemma encoded_rest:
  assumes "n mod 3 \<noteq> (0 :: nat)"
  shows "(4 * n + 2) div 3 mod 4 = 2 \<or> (4 * n + 2) div 3 mod 4 = 3"
proof -
  obtain q r where n: "n = 3 * q + r" "r < 3" using that [of "n div 3" "n mod 3"] by simp
  with assms have "r = 1 \<or> r = 2" by auto
  moreover have "(4 * n + 2) div 3 = 4 * q + (4 * r + 2) div 3"
    using div_mult_self2 [of 3 "4 * r + 2" "4 * q"] by (simp add: n algebra_simps)
  ultimately show ?thesis by auto
qed

lemma base64_roundtrip:
  assumes "length s mod 3 \<noteq> 0"
  shows "base64Decode (base64Encode s) = Inr s"
proof -
  let ?e = "base64Encode s" and ?pad = "replicate (4 - length (base64Encode s) mod 4) (CHR ''='')"
  have seen: "filter (\<lambda>c. \<not> line_break c) (?e @ ?pad) = ?e @ ?pad"
    using bc_chars by (auto simp: filter_id_conv line_break_def)
  have body: "takeWhile (\<lambda>c. c \<noteq> CHR ''='') (?e @ ?pad) = ?e"
    using bc_chars by (subst takeWhile_append2) (auto simp: takeWhile_replicate)
  have dec: "decode_in bc_alphabet ?e = Some s"
    using decode_encode [OF bc_alphabet_ok] by (simp add: base64Encode_def)
  have rest: "drop (length ?e) (?e @ ?pad) = ?pad" by simp
  have "length ?e mod 4 = 2 \<and> ?pad = ''=='' \<or> length ?e mod 4 = 3 \<and> ?pad = ''=''"
    using encoded_rest [OF assms] unfolding base64Encode_length by (auto simp: numeral_2_eq_2)
  then show ?thesis unfolding base64Decode_def Let_def seen body rest dec by auto
qed

section \<open>Reading back a hash\<close>

definition new_hash :: "hashed \<Rightarrow> bool" where
  "new_hash p \<longleftrightarrow> h_major p = CHR ''2'' \<and> h_minor p = CHR ''a'' \<and> MinCost \<le> h_cost p \<and> h_cost p \<le> MaxCost \<and>
     length (h_salt p) = encodedSaltSize \<and> length (h_hash p) = encodedHashSize"

lemma two_digits_cost:
  assumes "MinCost \<le> n" "n \<le> MaxCost"
  shows "length (two_digits n) = 2" "ParseInt (two_digits n) = Some n"
proof -
  have "\<forall>n \<in> set [4..31]. length (two_digits n) = 2 \<and> ParseInt (two_digits n) = Some n" by code_simp
  moreover have "n \<in> set [4..31]" using assms by (simp only: set_upto atLeastAtMost_iff)
  ultimately show "length (two_digits n) = 2" "ParseInt (two_digits n) = Some n" by blast+
qed

lemma copy_at_append:
  assumes "length a = n" "length src \<le> length b"
  shows "copy_at n src (a @ b) = a @ src @ drop (length src) b"
  using assms by (simp add: copy_at_def)

lemma Hash_text:
  assumes "length (two_digits (h_cost p)) = 2" "length (h_salt p) = encodedSaltSize"
    "length (h_hash p) = encodedHashSize" "h_minor p \<noteq> nul"
  shows "Hash p = [CHR ''$'', h_major p, h_minor p, CHR ''$''] @ two_digits (h_cost p) @ ''$'' @ h_salt p @ h_hash p"
proof -
  obtain a b where ab: "two_digits (h_cost p) = [a, b]" using assms(1) by (auto simp: length_Suc_conv numeral_2_eq_2)
  let ?pre = "[CHR ''$'', h_major p, h_minor p, CHR ''$'', a, b, CHR ''$'']"
  have 60: "replicate 60 nul = [nul, nul, nul, nul] @ [nul, nul] @ [nul] @ replicate 53 nul"
    by (simp add: eval_nat_numeral)
  have 1: "copy_at 4 (two_digits (h_cost p)) ([CHR ''$'', h_major p, h_minor p, CHR ''$''] @ [nul, nul] @ [nul] @ replicate 53 nul) =
      [CHR ''$'', h_major p, h_minor p, CHR ''$''] @ [a, b] @ [nul] @ replicate 53 nul"
    by (subst copy_at_append) (simp_all add: ab)
  have 2: "copy_at 7 (h_salt p) (?pre @ replicate 53 nul) = (?pre @ h_salt p) @ replicate 31 nul"
    using assms(2) by (subst copy_at_append) simp_all
  have 3: "copy_at 29 (h_hash p) ((?pre @ h_salt p) @ replicate 31 nul) = ?pre @ h_salt p @ h_hash p"
    using assms(2,3) by (subst copy_at_append) simp_all
  show ?thesis
    unfolding Hash_def Let_def
    using assms 1 2 3 by (simp add: ab 60)
qed

lemma newFromHash_Hash:
  assumes "new_hash p"
  shows "newFromHash (Hash p) = Inr p" "length (Hash p) = 60"
proof -
  obtain a b where ab: "two_digits (h_cost p) = [a, b]"
    using two_digits_cost(1) [of "h_cost p"] assms by (auto simp: new_hash_def length_Suc_conv numeral_2_eq_2)
  have nul: "CHR ''a'' \<noteq> nul" by code_simp
  have h: "Hash p = [CHR ''$'', CHR ''2'', CHR ''a'', CHR ''$'', a, b, CHR ''$''] @ h_salt p @ h_hash p"
    using assms nul by (subst Hash_text) (auto simp: new_hash_def two_digits_cost ab)
  then show "length (Hash p) = 60" using assms by (simp add: new_hash_def)
  have "ParseInt [a, b] = Some (h_cost p)" "checkCost (h_cost p) = None"
    using two_digits_cost(2) [of "h_cost p"] assms by (simp_all add: ab new_hash_def checkCost_def)
  with assms show "newFromHash (Hash p) = Inr p"
    by (simp add: newFromHash_def h decodeVersion_def decodeCost_def new_hash_def Let_def)
qed

section \<open>Hashing does not fail on a salt of its own\<close>

lemma setup_ok:
  assumes "base64Decode salt = Inr csalt" "csalt \<noteq> []"
  shows "\<exists>c. expensiveBlowfishSetup key cost salt = Inr c"
  using assms by (simp add: expensiveBlowfishSetup_def NewSaltedCipher_def Let_def)

lemma bcrypt_ok:
  assumes "base64Decode salt = Inr csalt" "csalt \<noteq> []"
  shows "\<exists>h. bcrypt password cost salt = Inr h"
  using setup_ok [OF assms, of password "unat (word_of_int cost :: u32)"]
  by (auto simp: bcrypt_def Let_def)

lemma Encrypt_length: "length (Encrypt c src) = 8"
  by (simp add: Encrypt_def on_block_def bytes_of_word_def split: prod.split)

lemma Encrypt_pow_length: "length src = 8 \<Longrightarrow> length ((Encrypt c ^^ n) src) = 8"
  by (induction n) (simp_all add: Encrypt_length)

lemma bcrypt_length:
  assumes "bcrypt password cost salt = Inr h"
  shows "length h = encodedHashSize"
proof -
  from assms obtain c where h: "h = base64Encode (take 23 (concat (map
      (\<lambda>i. (Encrypt c ^^ 64) (take 8 (drop i magicCipherData))) [0, 8, 16])))"
    unfolding bcrypt_def Let_def by (auto split: sum.splits)
  define g where "g i = (Encrypt c ^^ 64) (take 8 (drop i magicCipherData))" for i
  have m: "length magicCipherData = 24" by code_simp
  have "length (g i) = 8" if "i \<le> 16" for i
    unfolding g_def using that by (intro Encrypt_pow_length) (simp add: m)
  then have "length (g 0) = 8" "length (g 8) = 8" "length (g 16) = 8" by simp_all
  moreover have "h = base64Encode (take 23 (g 0 @ g 8 @ g 16))"
    unfolding h g_def by (simp only: list.map concat.simps append_Nil2)
  ultimately show ?thesis by (simp add: base64Encode_length)
qed

lemma newFromPassword_new:
  assumes "newFromPassword (Some random) password cost = Inr p" "length random = 16"
  shows "new_hash p" "h_cost p = (if cost < MinCost then DefaultCost else cost)"
    "bcrypt password (h_cost p) (h_salt p) = Inr (h_hash p)" "h_salt p = base64Encode random"
  using assms
  by (auto simp: newFromPassword_def new_hash_def Let_def checkCost_def base64Encode_length bcrypt_length
      split: if_splits sum.splits)

lemma generate_hashed:
  assumes "GenerateFromPassword (Some random) password cost = Inr h" "length random = 16"
  obtains p where "h = Hash p" "new_hash p" "h_cost p = (if cost < MinCost then DefaultCost else cost)"
    "bcrypt password (h_cost p) (h_salt p) = Inr (h_hash p)" "h_salt p = base64Encode random"
proof -
  from assms(1) obtain p where "newFromPassword (Some random) password cost = Inr p" "h = Hash p"
    by (auto simp: GenerateFromPassword_def split: if_splits sum.splits)
  with newFromPassword_new [OF this(1) assms(2)] that show ?thesis by blast
qed

lemma generate_succeeds:
  assumes "length password \<le> 72" "cost \<le> MaxCost" "length random = 16"
  shows "\<exists>h. GenerateFromPassword (Some random) password cost = Inr h"
proof -
  have "base64Decode (base64Encode random) = Inr random" using assms(3) by (intro base64_roundtrip) simp
  moreover have "random \<noteq> []" using assms(3) by auto
  ultimately have "\<exists>h. bcrypt password c (base64Encode random) = Inr h" for c by (rule bcrypt_ok)
  then obtain hash where "bcrypt password (if cost < MinCost then DefaultCost else cost) (base64Encode random) = Inr hash"
    by blast
  with assms(1,2) show ?thesis
    by (auto simp: GenerateFromPassword_def newFromPassword_def checkCost_def Let_def split: if_splits)
qed

text \<open>A password is accepted for a hash exactly when it hashes to the same with its salt and cost.\<close>

lemma compare_new:
  assumes "new_hash p"
  shows "CompareHashAndPassword (Hash p) password = None \<longleftrightarrow>
    bcrypt password (h_cost p) (h_salt p) = Inr (h_hash p)"
proof -
  have same: "Hash p = Hash (p\<lparr>h_hash := h\<rparr>) \<longleftrightarrow> h = h_hash p" if "length h = encodedHashSize" for h
  proof
    assume "Hash p = Hash (p\<lparr>h_hash := h\<rparr>)"
    moreover have "newFromHash (Hash p) = Inr p" "newFromHash (Hash (p\<lparr>h_hash := h\<rparr>)) = Inr (p\<lparr>h_hash := h\<rparr>)"
      using assms that by (auto intro!: newFromHash_Hash simp: new_hash_def)
    ultimately have "p = p\<lparr>h_hash := h\<rparr>" by (metis sum.inject(2))
    then have "h_hash p = h_hash (p\<lparr>h_hash := h\<rparr>)" by (rule arg_cong)
    then show "h = h_hash p" by simp
  qed simp
  show ?thesis
    using same bcrypt_length newFromHash_Hash(1) [OF assms]
    by (auto simp: CompareHashAndPassword_def Let_def split: sum.splits)
qed

section \<open>What of a password counts\<close>

definition same_password :: "string \<Rightarrow> string \<Rightarrow> bool" where
  "same_password a b \<longleftrightarrow> same_circle (a @ [nul]) (b @ [nul])"

lemma bcrypt_same:
  assumes "same_password a b" "base64Decode salt = Inr csalt" "csalt \<noteq> []"
  shows "bcrypt a cost salt = bcrypt b cost salt"
proof -
  have "ExpandKey (a @ [nul]) = ExpandKey (b @ [nul])"
    "expandKeyWithSalt (a @ [nul]) csalt = expandKeyWithSalt (b @ [nul]) csalt"
    using assms(1) ExpandKey_circle expandKeyWithSalt_circle by (auto simp: same_password_def)
  with assms(2,3) have "expensiveBlowfishSetup a n salt = expensiveBlowfishSetup b n salt" for n
    by (simp add: expensiveBlowfishSetup_def NewSaltedCipher_def Let_def)
  then show ?thesis by (simp add: bcrypt_def)
qed

lemma same_password_72:
  assumes "72 \<le> length a" "72 \<le> length b" "take 72 a = take 72 b"
  shows "same_password a b"
proof -
  have "a ! n = b ! n" if "n < 72" for n
    using assms(3) that by (metis nth_take)
  with assms(1,2) show ?thesis
    by (auto simp: same_password_def same_circle_def circle_def nth_append)
qed

text \<open>Passwords of 72 bytes and more are told apart by their first 72 bytes only.\<close>

lemma compare_same:
  assumes "GenerateFromPassword (Some random) password cost = Inr h" "length random = 16" "same_password a b"
  shows "CompareHashAndPassword h a = CompareHashAndPassword h b"
proof -
  obtain p where p: "h = Hash p" "new_hash p" "h_salt p = base64Encode random"
    using generate_hashed [OF assms(1,2)] by blast
  have "base64Decode (h_salt p) = Inr random" "random \<noteq> []"
    using assms(2) base64_roundtrip [of random] by (auto simp: p(3))
  then have "bcrypt a (h_cost p) (h_salt p) = bcrypt b (h_cost p) (h_salt p)"
    by (rule bcrypt_same [OF assms(3)])
  then show ?thesis using p(1,2) by (simp add: CompareHashAndPassword_def newFromHash_Hash)
qed

end
