(* ===== verification/Go_Strings.thy ===== *)
theory Go_Strings
  imports Json_Text
begin

text \<open>
  Functions of the packages \<open>strings\<close> and \<open>unicode/utf8\<close> that handlers and libraries call: white space,
  trimming, splitting, runes. Strings are lists of bytes.
\<close>

section \<open>White space\<close>

text \<open>\<open>strings.TrimSpace(s) == ""\<close>: only white space, ASCII or encoded.\<close>

definition wide_spaces :: "string list" where
  "wide_spaces = map utf8_enc ([133, 160, 5760] @ [8192..<8203] @ [8232, 8233, 8239, 8287, 12288])"

function blank :: "string \<Rightarrow> bool" where
  "blank [] = True"
| "blank (a # s) =
     (if byte_of a < 128 then (9 \<le> byte_of a \<and> byte_of a \<le> 13 \<or> byte_of a = 32) \<and> blank s
      else let n = utf8_size (a # s) in
        n \<noteq> 0 \<and> take n (a # s) \<in> set wide_spaces \<and> blank (drop (n - 1) s))"
  by pat_completeness auto
termination
  by (relation "measure length") auto

declare blank.simps(2) [simp del]

text \<open>\<open>strings.TrimSpace\<close>.\<close>

function trim_left :: "string \<Rightarrow> string" where
  "trim_left [] = []"
| "trim_left (a # s) =
     (if byte_of a < 128 then (if 9 \<le> byte_of a \<and> byte_of a \<le> 13 \<or> byte_of a = 32 then trim_left s else a # s)
      else let n = utf8_size (a # s) in
        if n \<noteq> 0 \<and> take n (a # s) \<in> set wide_spaces then trim_left (drop (n - 1) s) else a # s)"
  by pat_completeness auto
termination
  by (relation "measure length") auto

declare trim_left.simps(2) [simp del]

fun trim_right :: "string \<Rightarrow> string" where
  "trim_right [] = []"
| "trim_right (a # s) = (if blank (a # s) then [] else a # trim_right s)"

definition TrimSpace :: "string \<Rightarrow> string" where
  "TrimSpace s = trim_right (trim_left s)"

lemma trim_left_blank: "trim_left s = [] \<longleftrightarrow> blank s"
  by (induction s rule: trim_left.induct) (auto simp: trim_left.simps(2) blank.simps(2) Let_def)

lemma trim_right_blank: "trim_right s = [] \<longleftrightarrow> blank s"
  by (cases s) auto

text \<open>Only a blank string is trimmed to nothing.\<close>

lemma TrimSpace_blank: "TrimSpace s = [] \<longleftrightarrow> blank s"
proof -
  have "trim_left (trim_left s) = trim_left s"
    by (induction s rule: trim_left.induct) (auto simp: trim_left.simps(2) Let_def)
  then show ?thesis by (metis TrimSpace_def trim_left_blank trim_right_blank)
qed

section \<open>Splitting and runes\<close>

text \<open>\<open>strings.Split\<close> at a separator of one byte.\<close>

fun Split :: "char \<Rightarrow> string \<Rightarrow> string list" where
  "Split sep [] = [[]]"
| "Split sep (c # cs) = (if c = sep then [] # Split sep cs else (c # hd (Split sep cs)) # tl (Split sep cs))"

text \<open>\<open>utf8.DecodeRuneInString\<close> of a string that is not empty: the rune and its size.\<close>

definition decode_rune :: "string \<Rightarrow> nat \<times> nat" where
  "decode_rune s =
     (let n = utf8_size s; b = (\<lambda>i. byte_of (s ! i)) in
      if n = 0 then (65533, 1)
      else if n = 1 then (b 0, 1)
      else if n = 2 then (b 0 mod 32 * 64 + b 1 mod 64, 2)
      else if n = 3 then (b 0 mod 16 * 4096 + b 1 mod 64 * 64 + b 2 mod 64, 3)
      else (b 0 mod 8 * 262144 + b 1 mod 64 * 4096 + b 2 mod 64 * 64 + b 3 mod 64, 4))"

lemma decode_rune_size: "0 < snd (decode_rune s)"
  by (simp add: decode_rune_def Let_def)

lemma decode_rune_ascii: "byte_of a < 128 \<Longrightarrow> decode_rune (a # s) = (byte_of a, 1)"
  by (simp add: decode_rune_def utf8_size.simps(2))

end
