(* ===== verification/Accounts.thy ===== *)
theory Accounts
  imports Auth Bcrypt Go_Strings
begin

text \<open>
  Accounts: create_account.go, login.go, maindata.go, user_setting.go, get_tipsdate.go and
  updatesolotip.go. Passwords go through theory \<open>Bcrypt\<close>, tokens through theory \<open>Jwt\<close>. Messages in
  Japanese are given by their UTF-8 bytes.
\<close>

section \<open>Reading the requests\<close>

text \<open>
  The body of a request by its Content-Type: JSON, a form (\<open>rq_form\<close> is what \<open>ParseForm\<close> collects),
  or neither.
\<close>

definition parse_body :: "'r fields \<Rightarrow> 'r \<Rightarrow> ((string \<Rightarrow> string) \<Rightarrow> 'r) \<Rightarrow> string \<Rightarrow> string \<Rightarrow> request \<Rightarrow>
    (string \<times> nat) + 'r" where
  "parse_body fs zero of_form bad_json bad_form r =
     (if has_prefix ''application/json'' (rq_ctype r) then
        (case decode_body fs zero (rq_json r) of
           None \<Rightarrow> Inl (bad_json, StatusBadRequest) | Some req \<Rightarrow> Inr req)
      else if has_prefix ''application/x-www-form-urlencoded'' (rq_ctype r) then
        (case rq_form r of
           None \<Rightarrow> Inl (bad_form, StatusBadRequest) | Some kvs \<Rightarrow> Inr (of_form (value_of kvs)))
      else Inl (''Unsupported Content-Type'', StatusUnsupportedMediaType))"

section \<open>CreateAccountHandler\<close>

record CreateAccountRequest =
  caq_Name :: string
  caq_Password :: string
  caq_AutoFlg :: bool

definition create_account_fields :: "CreateAccountRequest fields" where
  "create_account_fields =
     [(''name'', dec_string (\<lambda>s. caq_Name_update (\<lambda>_. s))),
      (''password'', dec_string (\<lambda>s. caq_Password_update (\<lambda>_. s))),
      (''auto_flg'', dec_bool (\<lambda>b. caq_AutoFlg_update (\<lambda>_. b)))]"

definition parse_create_account :: "request \<Rightarrow> (string \<times> nat) + CreateAccountRequest" where
  "parse_create_account = parse_body create_account_fields
     \<lparr>caq_Name = [], caq_Password = [], caq_AutoFlg = False\<rparr>
     (\<lambda>v. \<lparr>caq_Name = v ''name'', caq_Password = v ''password'', caq_AutoFlg = (v ''auto_flg'' = ''true'')\<rparr>)
     ''Invalid request (json)'' ''Invalid request (form)''"

text \<open>The response map: \<open>result\<close>, and \<open>token\<close> or \<open>message\<close> where the code sets them.\<close>

record account_response =
  ar_result :: string
  ar_token :: "string option"
  ar_message :: "string option"

text \<open>Messages: enter a name, enter a password, the name is in use; the failures of the inserts and of the token.\<close>

definition msg_no_name :: string where
  "msg_no_name =
    bytes [229, 144, 141, 229, 137, 141, 227, 129, 174, 229, 133, 165, 229, 138, 155, 227, 130,
    146, 227, 129, 151, 227, 129, 166, 227, 129, 143, 227, 129, 160, 227, 129, 149, 227, 129,
    132]"

definition msg_no_password :: string where
  "msg_no_password =
    bytes [227, 131, 145, 227, 130, 185, 227, 131, 175, 227, 131, 188, 227, 131, 137, 227, 129,
    174, 229, 133, 165, 229, 138, 155, 227, 130, 146, 227, 129, 151, 227, 129, 166, 227, 129,
    143, 227, 129, 160, 227, 129, 149, 227, 129, 132]"

definition msg_name_used :: string where
  "msg_name_used =
    bytes [227, 129, 147, 227, 129, 174, 229, 144, 141, 229, 137, 141, 227, 129, 175, 230, 151,
    162, 227, 129, 171, 228, 189, 191, 231, 148, 168, 227, 129, 149, 227, 130, 140, 227, 129,
    166, 227, 129, 132, 227, 129, 190, 227, 129, 153]"

definition msg_user_failed :: string where
  "msg_user_failed =
    bytes [227, 131, 166, 227, 131, 188, 227, 130, 182, 227, 131, 188, 227, 129, 174, 228, 189,
    156, 230, 136, 144, 227, 129, 171, 229, 164, 177, 230, 149, 151, 227, 129, 151, 227, 129,
    190, 227, 129, 151, 227, 129, 159]"

definition msg_settings_failed :: string where
  "msg_settings_failed =
    bytes [232, 168, 173, 229, 174, 154, 227, 131, 135, 227, 131, 188, 227, 130, 191, 227, 129,
    174, 228, 189, 156, 230, 136, 144, 227, 129, 171, 229, 164, 177, 230, 149, 151, 227, 129,
    151, 227, 129, 190, 227, 129, 151, 227, 129, 159]"

definition msg_tips_failed :: string where
  "msg_tips_failed =
    bytes [227, 131, 129, 227, 131, 131, 227, 131, 151, 227, 131, 135, 227, 131, 188, 227, 130,
    191, 227, 129, 174, 228, 189, 156, 230, 136, 144, 227, 129, 171, 229, 164, 177, 230, 149,
    151, 227, 129, 151, 227, 129, 190, 227, 129, 151, 227, 129, 159]"

definition msg_token_failed :: string where
  "msg_token_failed =
    bytes [227, 131, 136, 227, 131, 188, 227, 130, 175, 227, 131, 179, 227, 129, 174, 228, 189,
    156, 230, 136, 144, 229, 164, 177, 230, 149, 151]"

definition name_exists :: "string \<Rightarrow> database \<Rightarrow> bool sqlres" where
  "name_exists name d = Inr (\<exists>u \<in> set (d_users d). d_coll d (u_name u) = d_coll d name)"

definition insert_user :: "string \<Rightarrow> string \<Rightarrow> int \<Rightarrow> database \<Rightarrow> database" where
  "insert_user name password now d = d\<lparr>
     d_users := d_users d @ [\<lparr>u_id = d_next_user d, u_name = name, u_password = password,
       u_created = now, u_last_login = now\<rparr>],
     d_next_user := d_next_user d + 1\<rparr>"

definition insert_setting :: "int \<Rightarrow> f64 \<Rightarrow> f64 \<Rightarrow> string \<Rightarrow> database \<Rightarrow> database" where
  "insert_setting userID bgm se icon d = d\<lparr>d_settings := d_settings d @
     [\<lparr>st_user = userID, st_bgm = bgm, st_se = se, st_icon = icon\<rparr>]\<rparr>"

definition insert_tip :: "int \<Rightarrow> int \<Rightarrow> int \<Rightarrow> int \<Rightarrow> database \<Rightarrow> database" where
  "insert_tip userID solo multi now d = d\<lparr>d_tips := d_tips d @
     [\<lparr>tp_user = userID, tp_solo = solo, tp_multi = multi, tp_updated = now\<rparr>]\<rparr>"

text \<open>The hash that is stored: none for an automatic account.\<close>

definition account_hash :: "string option \<Rightarrow> CreateAccountRequest \<Rightarrow> bcrypt_error + string" where
  "account_hash random req =
     (if caq_AutoFlg req then Inr [] else GenerateFromPassword random (caq_Password req) DefaultCost)"

text \<open>The handler; \<open>random\<close> are the bytes that the hash of the password takes as its salt.\<close>

definition CreateAccountHandler :: "go_env \<Rightarrow> string option \<Rightarrow> request \<Rightarrow>
    ('z dbworld_scheme, account_response response) prog" where
  "CreateAccountHandler env random r =
     (case parse_create_account r of Inl (msg, status) \<Rightarrow> reply_error msg status
      | Inr req \<Rightarrow>
      if blank (caq_Name req) then reply_error msg_no_name StatusBadRequest
      else if \<not> caq_AutoFlg req \<and> blank (caq_Password req) then reply_error msg_no_password StatusBadRequest
      else
      bindp (sql (\<lambda>d. (name_exists (caq_Name req) d, d))) (\<lambda>res. case res of
        Inl e \<Rightarrow> reply_error ''Database error'' StatusInternalServerError
      | Inr True \<Rightarrow> Ret (Json \<lparr>ar_result = ''NG'', ar_token = None, ar_message = Some msg_name_used\<rparr>)
      | Inr False \<Rightarrow>
      (case account_hash random req of
        Inl e \<Rightarrow> reply_error ''Password hashing failed'' StatusInternalServerError
      | Inr hashedPassword \<Rightarrow>
      bindp time_now (\<lambda>now.
      bindp (sql (\<lambda>d. (Inr (d_next_user d), insert_user (caq_Name req) hashedPassword now d))) (\<lambda>res. case res of
        Inl e \<Rightarrow> reply_error msg_user_failed StatusInternalServerError
      | Inr userID \<Rightarrow>
      bindp (sql (\<lambda>d. (Inr (), insert_setting userID (f64_of_int 1) (f64_of_int 1) ''default_icon'' d))) (\<lambda>res. case res of
        Inl e \<Rightarrow> reply_error msg_settings_failed StatusInternalServerError
      | Inr _ \<Rightarrow>
      bindp (sql (\<lambda>d. (Inr (), insert_tip userID 10000 10000 now d))) (\<lambda>res. case res of
        Inl e \<Rightarrow> reply_error msg_tips_failed StatusInternalServerError
      | Inr _ \<Rightarrow>
      bindp time_now (\<lambda>now.
      (case SignedString (ge_crypto env) (MapClaims (ge_oor env))
              (NewWithClaims SigningMethodHS256 (account_claims userID (caq_Name req) (now + 86400))) (Bytes jwtSecret) of
        Some (Inr signedToken) \<Rightarrow>
          Ret (Json \<lparr>ar_result = ''OK'', ar_token = Some signedToken, ar_message = None\<rparr>)
      | _ \<Rightarrow> reply_error msg_token_failed StatusInternalServerError)))))))))"

section \<open>LoginHandler\<close>

record LoginRequest =
  lq_Name :: string
  lq_Password :: string

definition login_fields :: "LoginRequest fields" where
  "login_fields =
     [(''name'', dec_string (\<lambda>s. lq_Name_update (\<lambda>_. s))),
      (''password'', dec_string (\<lambda>s. lq_Password_update (\<lambda>_. s)))]"

definition parse_login :: "request \<Rightarrow> (string \<times> nat) + LoginRequest" where
  "parse_login = parse_body login_fields \<lparr>lq_Name = [], lq_Password = []\<rparr>
     (\<lambda>v. \<lparr>lq_Name = v ''name'', lq_Password = v ''password''\<rparr>) ''Invalid JSON'' ''Invalid form''"

text \<open>Messages: no name or password, no such user, no password login for this account, wrong password.\<close>

definition msg_no_credentials :: string where
  "msg_no_credentials =
    bytes [229, 144, 141, 229, 137, 141, 227, 129, 139, 227, 131, 145, 227, 130, 185, 227, 131,
    175, 227, 131, 188, 227, 131, 137, 227, 129, 140, 227, 129, 170, 227, 129, 132, 227, 130,
    136]"

definition msg_unknown_user :: string where
  "msg_unknown_user =
    bytes [227, 131, 166, 227, 131, 188, 227, 130, 182, 227, 131, 188, 227, 129, 140, 227, 129,
    130, 227, 130, 138, 227, 129, 190, 227, 129, 155, 227, 130, 147]"

definition msg_no_password_login :: string where
  "msg_no_password_login =
    bytes [227, 129, 147, 227, 129, 174, 227, 130, 162, 227, 130, 171, 227, 130, 166, 227, 131,
    179, 227, 131, 136, 227, 129, 167, 227, 129, 175, 227, 131, 145, 227, 130, 185, 227, 131,
    175, 227, 131, 188, 227, 131, 137, 227, 131, 173, 227, 130, 176, 227, 130, 164, 227, 131,
    179, 227, 129, 175, 231, 132, 161, 229, 138, 185, 227, 129, 167, 227, 129, 153, 227, 128,
    130]"

definition msg_wrong_password :: string where
  "msg_wrong_password =
    bytes [227, 131, 145, 227, 130, 185, 227, 131, 175, 227, 131, 188, 227, 131, 137, 227, 129,
    140, 230, 173, 163, 227, 129, 151, 227, 129, 143, 227, 129, 130, 227, 130, 138, 227, 129,
    190, 227, 129, 155, 227, 130, 147]"

definition password_of :: "string \<Rightarrow> database \<Rightarrow> (int \<times> string) sqlres" where
  "password_of name d = first_row
     (map (\<lambda>u. (u_id u, u_password u)) (filter (\<lambda>u. d_coll d (u_name u) = d_coll d name) (d_users d)))"

definition LoginHandler :: "go_env \<Rightarrow> request \<Rightarrow> ('z dbworld_scheme, account_response response) prog" where
  "LoginHandler env r =
     (case parse_login r of Inl (msg, status) \<Rightarrow> reply_error msg status
      | Inr req \<Rightarrow>
      if lq_Name req = [] \<or> lq_Password req = [] then reply_error msg_no_credentials StatusBadRequest else
      bindp (sql (\<lambda>d. (password_of (lq_Name req) d, d))) (\<lambda>res. case res of
        Inl ErrNoRows \<Rightarrow> reply_error msg_unknown_user StatusUnauthorized
      | Inl e \<Rightarrow> reply_error ''Database error'' StatusInternalServerError
      | Inr (userID, hashedPassword) \<Rightarrow>
      if hashedPassword = [] then reply_error msg_no_password_login StatusUnauthorized
      else if CompareHashAndPassword hashedPassword (lq_Password req) \<noteq> None
      then reply_error msg_wrong_password StatusUnauthorized
      else
      bindp time_now (\<lambda>t1.
      bindp time_now (\<lambda>t2.
      (case SignedString (ge_crypto env) (UserClaims (ge_oor env))
              (NewWithClaims SigningMethodHS256
                 (login_claims userID (lq_Name req) (clock_at (t1 + 86400) 0) (clock_at t2 0))) (Bytes jwtSecret) of
        Some (Inr tokenString) \<Rightarrow>
          Ret (Json \<lparr>ar_result = ''OK'', ar_token = Some tokenString, ar_message = Some []\<rparr>)
      | _ \<Rightarrow> reply_error ''Token generation failed'' StatusInternalServerError)))))"

section \<open>GetMainDataHandler\<close>

record main_data =
  mr_result :: string
  mr_message :: string
  mr_bgm_volume :: f64
  mr_se_volume :: f64
  mr_icon :: string
  mr_user_id :: int
  mr_solotip :: int
  mr_multitip :: int
  mr_username :: string

definition user_id_of :: "string \<Rightarrow> database \<Rightarrow> int sqlres" where
  "user_id_of name d = first_row (map u_id (filter (\<lambda>u. d_coll d (u_name u) = d_coll d name) (d_users d)))"

definition setting_of :: "int \<Rightarrow> database \<Rightarrow> (f64 \<times> f64 \<times> string) sqlres" where
  "setting_of userID d = first_row
     (map (\<lambda>s. (st_bgm s, st_se s, st_icon s)) (filter (\<lambda>s. st_user s = userID) (d_settings d)))"

definition tips_of :: "int \<Rightarrow> database \<Rightarrow> (int \<times> int) sqlres" where
  "tips_of userID d = first_row
     (map (\<lambda>t. (tp_solo t, tp_multi t)) (filter (\<lambda>t. tp_user t = userID) (d_tips d)))"

text \<open>What a missing row is replaced by; other errors stay.\<close>

definition or_default :: "'a \<Rightarrow> 'a sqlres \<Rightarrow> 'a sqlres" where
  "or_default x r = (case r of Inl ErrNoRows \<Rightarrow> Inr x | _ \<Rightarrow> r)"

definition msg_no_server :: string where
  "msg_no_server =
    bytes [227, 130, 168, 227, 131, 169, 227, 131, 188, 58, 227, 130, 181, 227, 131, 188, 227,
    131, 144, 227, 131, 188, 227, 129, 140, 227, 129, 170, 227, 129, 132]"

text \<open>
  The handler checks the token itself, with any signing method that takes the key. \<open>db_set\<close> says
  whether \<open>InitDB\<close> was called.
\<close>

definition main_data_claims :: "go_env \<Rightarrow> gotime \<Rightarrow> string \<Rightarrow> user_claims option" where
  "main_data_claims env now tokenString =
     (case jwt_ParseWithClaims (ge_crypto env) (UserClaims (ge_oor env)) now tokenString
             (Some (\<lambda>_. Inr (Bytes jwtSecret))) [] of
        (Some token, None) \<Rightarrow> if tk_Valid token then tk_Claims token else None
      | _ \<Rightarrow> None)"

definition GetMainDataHandler :: "go_env \<Rightarrow> bool \<Rightarrow> request \<Rightarrow> ('z dbworld_scheme, main_data response) prog" where
  "GetMainDataHandler env db_set r =
     (if \<not> db_set then reply_error msg_no_server StatusInternalServerError
      else if rq_auth r = [] \<or> \<not> has_prefix ''Bearer '' (rq_auth r)
      then reply_error ''Missing or invalid Authorization header'' StatusUnauthorized
      else
      bindp time_now (\<lambda>now. case main_data_claims env (clock_at now 0) (drop 7 (rq_auth r)) of
        None \<Rightarrow> reply_error ''Invalid token'' StatusUnauthorized
      | Some claims \<Rightarrow>
      bindp (sql (\<lambda>d. (user_id_of (uc_Username claims) d, d))) (\<lambda>res. case res of
        Inl e \<Rightarrow> reply_error ''Failed to retrieve user id'' StatusInternalServerError
      | Inr userID \<Rightarrow>
      bindp (sql (\<lambda>d. (setting_of userID d, d))) (\<lambda>res.
      case or_default (f64_of_dec 5 (- 1), f64_of_dec 5 (- 1), ''default_icon'') res of
        Inl e \<Rightarrow> reply_error ''Failed to retrieve settings'' StatusInternalServerError
      | Inr (bgmVolume, seVolume, icon) \<Rightarrow>
      bindp (sql (\<lambda>d. (tips_of userID d, d))) (\<lambda>res. case or_default (10000, 10000) res of
        Inl e \<Rightarrow> reply_error ''Failed to retrieve tips'' StatusInternalServerError
      | Inr (soloTip, multiTip) \<Rightarrow>
      Ret (Json \<lparr>mr_result = ''OK'', mr_message = ''Success'', mr_bgm_volume = bgmVolume, mr_se_volume = seVolume,
             mr_icon = icon, mr_user_id = userID, mr_solotip = soloTip, mr_multitip = multiTip,
             mr_username = uc_Username claims\<rparr>))))))"

section \<open>UpdateUserSettingsHandler\<close>

record UpdateUserSettingsRequest =
  usq_BgmVolume :: f64
  usq_SeVolume :: f64

definition settings_fields :: "UpdateUserSettingsRequest fields" where
  "settings_fields =
     [(''bgm_volume'', dec_f64 (\<lambda>x. usq_BgmVolume_update (\<lambda>_. x))),
      (''se_volume'', dec_f64 (\<lambda>x. usq_SeVolume_update (\<lambda>_. x)))]"

definition update_setting :: "f64 \<Rightarrow> f64 \<Rightarrow> int \<Rightarrow> database \<Rightarrow> database" where
  "update_setting bgm se userID d = d\<lparr>d_settings :=
     map (\<lambda>s. if st_user s = userID then s\<lparr>st_bgm := bgm, st_se := se\<rparr> else s) (d_settings d)\<rparr>"

text \<open>The transaction: \<open>None\<close> when it was committed, else the error response.\<close>

definition settings_tx :: "UpdateUserSettingsRequest \<Rightarrow> int \<Rightarrow>
    ('z dbworld_scheme, bool \<times> (string \<times> nat) option) prog" where
  "settings_tx req userID =
     bindp tx_begin (\<lambda>res. case res of
       Inl e \<Rightarrow> Ret (False, Some (''DB transaction error'', StatusInternalServerError)) | Inr _ \<Rightarrow>
     bindp (sql (\<lambda>d. (Inr (), update_setting (usq_BgmVolume req) (usq_SeVolume req) userID d))) (\<lambda>res. case res of
       Inl e \<Rightarrow> Ret (False, Some (''Failed to update volume settings'', StatusInternalServerError)) | Inr () \<Rightarrow>
     bindp tx_commit (\<lambda>res. case res of
       Inl e \<Rightarrow> Ret (False, Some (''Failed to commit DB transaction'', StatusInternalServerError)) | Inr _ \<Rightarrow>
     Ret (True, None))))"

definition UpdateUserSettingsHandler :: "request \<Rightarrow> ('z dbworld_scheme, string response) prog" where
  "UpdateUserSettingsHandler r =
     (let userID = GetUserID r in
      if userID = 0 then reply_error ''Unauthorized'' StatusUnauthorized else
      case decode_body settings_fields \<lparr>usq_BgmVolume = f64_of_int 0, usq_SeVolume = f64_of_int 0\<rparr> (rq_json r) of
        None \<Rightarrow> reply_error ''Invalid request body'' StatusBadRequest
      | Some req \<Rightarrow>
      bindp (transaction (settings_tx req userID)) (\<lambda>failed. case failed of
        Some (msg, status) \<Rightarrow> reply_error msg status
      | None \<Rightarrow> Ret (Json ''OK'')))"

section \<open>GetChipDataHandler\<close>

record ChipResponse =
  ch_SoloChip :: int
  ch_MultiChip :: int

definition GetChipDataHandler :: "request \<Rightarrow> ('z dbworld_scheme, ChipResponse response) prog" where
  "GetChipDataHandler r =
     (let userID = GetUserID r in
      if userID = 0 then reply_error ''Unauthorized'' StatusUnauthorized else
      bindp (sql (\<lambda>d. (tips_of userID d, d))) (\<lambda>res. case res of
        Inl ErrNoRows \<Rightarrow> reply_error ''Chip data not found'' StatusNotFound
      | Inl e \<Rightarrow> reply_error ''Internal server error'' StatusInternalServerError
      | Inr (soloChip, multiChip) \<Rightarrow> Ret (Json \<lparr>ch_SoloChip = soloChip, ch_MultiChip = multiChip\<rparr>)))"

section \<open>UpdateSoloTipHandler\<close>

definition tip_fields :: "int fields" where
  "tip_fields = [(''chip_diff'', dec_int (\<lambda>n _. n))]"

definition add_solo_tip :: "int \<Rightarrow> int \<Rightarrow> database \<Rightarrow> database" where
  "add_solo_tip diff userID d = d\<lparr>d_tips :=
     map (\<lambda>t. if tp_user t = userID then t\<lparr>tp_solo := tp_solo t + diff\<rparr> else t) (d_tips d)\<rparr>"

text \<open>Messages: invalid user id, invalid request, update failed, updated.\<close>

definition msg_bad_user :: string where
  "msg_bad_user =
    bytes [227, 131, 166, 227, 131, 188, 227, 130, 182, 227, 131, 188, 73, 68, 227, 129, 140,
    231, 132, 161, 229, 138, 185, 227, 129, 167, 227, 129, 153]"

definition msg_bad_request :: string where
  "msg_bad_request =
    bytes [231, 132, 161, 229, 138, 185, 227, 129, 170, 227, 131, 170, 227, 130, 175, 227, 130,
    168, 227, 130, 185, 227, 131, 136, 229, 189, 162, 229, 188, 143]"

definition msg_tip_failed :: string where
  "msg_tip_failed =
    bytes [227, 131, 129, 227, 131, 131, 227, 131, 151, 230, 155, 180, 230, 150, 176, 227, 129,
    171, 229, 164, 177, 230, 149, 151, 227, 129, 151, 227, 129, 190, 227, 129, 151, 227, 129,
    159]"

definition msg_tip_updated :: string where
  "msg_tip_updated =
    bytes [227, 131, 129, 227, 131, 131, 227, 131, 151, 227, 130, 146, 230, 155, 180, 230, 150,
    176, 227, 129, 151, 227, 129, 190, 227, 129, 151, 227, 129, 159]"

definition solo_tip_body :: "request \<Rightarrow> ('z dbworld_scheme, string response) prog" where
  "solo_tip_body r =
     (case rq_ctx r of None \<Rightarrow> reply_error msg_bad_user StatusUnauthorized
      | Some userID \<Rightarrow>
      (case decode_body tip_fields 0 (rq_json r) of
        None \<Rightarrow> reply_error msg_bad_request StatusBadRequest
      | Some diff \<Rightarrow>
      bindp (sql (\<lambda>d. (Inr (), add_solo_tip diff userID d))) (\<lambda>res. case res of
        Inl e \<Rightarrow> reply_error msg_tip_failed StatusInternalServerError
      | Inr () \<Rightarrow> Ret (Json msg_tip_updated))))"

text \<open>The handler brings its own \<open>JWTMiddleware\<close>; the route adds a second one around it.\<close>

definition UpdateSoloTipHandler :: "go_env \<Rightarrow> request \<Rightarrow> ('z dbworld_scheme, string response) prog" where
  "UpdateSoloTipHandler env r = JWTMiddleware env reply_error solo_tip_body r"

end
