(* ===== verification/Catalog.thy ===== *)
theory Catalog
  imports Rooms Json_Text
begin

text \<open>
  What can be played: the game lists of solo.go, friend.go and multi.go, the modes of rank.go and
  game_mode.go, and the players of a game (getGamePlayer.go). These requests only read. The rows
  of a list arrive one by one after the query was accepted, and the connection may fail on the
  way: \<open>arrived\<close> is how many rows have come by then.
\<close>

text \<open>The names of the modes, by their UTF-8 bytes: solo, multi, friend, rank.\<close>

definition mode_solo :: string where
  "mode_solo = bytes [227, 130, 189, 227, 131, 173]"

definition mode_multi :: string where
  "mode_multi = bytes [227, 131, 158, 227, 131, 171, 227, 131, 129]"

definition mode_friend :: string where
  "mode_friend = bytes [227, 131, 149, 227, 131, 172, 227, 131, 179, 227, 131, 137]"

definition mode_rank :: string where
  "mode_rank = bytes [227, 131, 169, 227, 131, 179, 227, 130, 175]"

section \<open>Rows that arrive one by one\<close>

definition fetch_rows :: "nat \<Rightarrow> 'a list \<Rightarrow> ('z dbworld_scheme, 'a list \<times> sqlerr option) prog" where
  "fetch_rows arrived rows = atomic (\<lambda>w. case w_faults w of
       Some e # fs \<Rightarrow> ((take arrived rows, Some (DbFault e)), w\<lparr>w_faults := fs\<rparr>)
     | fs \<Rightarrow> ((rows, None), w\<lparr>w_faults := tl fs\<rparr>))"

section \<open>Game lists\<close>

record game_entry =
  gl_id :: int
  gl_type :: string
  gl_name :: string
  gl_rule :: string

record game_list =
  gs_result :: string
  gs_games :: "game_entry list"

definition mode_ids :: "string \<Rightarrow> database \<Rightarrow> int list" where
  "mode_ids mode d = map md_id (filter (\<lambda>m. d_coll d (md_mode m) = d_coll d mode) (d_modes d))"

text \<open>
  \<open>SELECT t.id, g.code, t.name, t.rule FROM types t JOIN game_types g ... WHERE t.mode_id = (SELECT id
  FROM modes WHERE mode = ...) AND t.is_can_play = TRUE\<close>: an inner query without a row is \<open>NULL\<close>
  and selects nothing, one with several rows is an error.
\<close>

definition playable :: "string \<Rightarrow> database \<Rightarrow> game_entry list sqlres" where
  "playable mode d =
     (case mode_ids mode d of
        [] \<Rightarrow> Inr []
      | [m] \<Rightarrow> Inr [\<lparr>gl_id = ty_id t, gl_type = gt_code g, gl_name = ty_name t, gl_rule = ty_rule t\<rparr>.
                   t \<leftarrow> d_types d, g \<leftarrow> d_game_types d,
                   ty_game_type t = gt_id g, ty_mode t = m, ty_can_play t]
      | _ \<Rightarrow> Inl (DbFault ''Subquery returns more than 1 row''))"

definition games_ok :: "game_entry list \<Rightarrow> ('w, game_list response) prog" where
  "games_ok games = Ret (Json \<lparr>gs_result = ''OK'', gs_games = games\<rparr>)"

definition SoloGameListHandler :: "nat \<Rightarrow> request \<Rightarrow> ('z dbworld_scheme, game_list response) prog" where
  "SoloGameListHandler arrived r =
     bindp (sql (\<lambda>d. (playable mode_solo d, d))) (\<lambda>res. case res of
       Inl e \<Rightarrow> reply_error ''Database error'' StatusInternalServerError
     | Inr rows \<Rightarrow>
     bindp (fetch_rows arrived rows) (\<lambda>(games, err). case err of
       Some e \<Rightarrow> reply_error ''Data fetch error'' StatusInternalServerError
     | None \<Rightarrow> games_ok games))"

text \<open>These two do not look at \<open>rows.Err()\<close>.\<close>

definition FriendGameListHandler :: "nat \<Rightarrow> request \<Rightarrow> ('z dbworld_scheme, game_list response) prog" where
  "FriendGameListHandler arrived r =
     bindp (sql (\<lambda>d. (playable mode_friend d, d))) (\<lambda>res. case res of
       Inl e \<Rightarrow> reply_error ''Database error'' StatusInternalServerError
     | Inr rows \<Rightarrow>
     bindp (fetch_rows arrived rows) (\<lambda>(games, err). games_ok games))"

definition MultiGameListHandler :: "nat \<Rightarrow> request \<Rightarrow> ('z dbworld_scheme, game_list response) prog" where
  "MultiGameListHandler arrived r =
     bindp (sql (\<lambda>d. (playable mode_multi d, d))) (\<lambda>res. case res of
       Inl e \<Rightarrow> reply_error ''Database error'' StatusInternalServerError
     | Inr rows \<Rightarrow>
     bindp (fetch_rows arrived rows) (\<lambda>(games, err). games_ok games))"

section \<open>Modes\<close>

record rank_modes =
  rk_result :: string
  rk_can_solo :: bool
  rk_can_multi :: bool

record game_modes =
  gmo_result :: string
  gmo_can_rank :: bool
  gmo_can_friend :: bool

definition mode_can_play :: "string \<Rightarrow> database \<Rightarrow> bool sqlres" where
  "mode_can_play mode d = first_row
     (map md_can_play (filter (\<lambda>m. d_coll d (md_mode m) = d_coll d mode) (d_modes d)))"

text \<open>The messages: the mode's name, and that it could not be fetched.\<close>

definition msg_mode_failed :: string where
  "msg_mode_failed = bytes [227, 131, 162, 227, 131, 188, 227, 131, 137, 229, 143, 150, 229, 190, 151, 229, 164,
    177, 230, 149, 151]"

definition mode_failed :: "string \<Rightarrow> string" where
  "mode_failed mode = mode @ msg_mode_failed"

definition RankModeHandler :: "request \<Rightarrow> ('z dbworld_scheme, rank_modes response) prog" where
  "RankModeHandler r =
     bindp (sql (\<lambda>d. (mode_can_play mode_solo d, d))) (\<lambda>res. case res of
       Inl e \<Rightarrow> reply_error (mode_failed mode_solo) StatusInternalServerError
     | Inr canSolo \<Rightarrow>
     bindp (sql (\<lambda>d. (mode_can_play mode_multi d, d))) (\<lambda>res. case res of
       Inl e \<Rightarrow> reply_error (mode_failed mode_multi) StatusInternalServerError
     | Inr canMulti \<Rightarrow>
     Ret (Json \<lparr>rk_result = ''OK'', rk_can_solo = canSolo, rk_can_multi = canMulti\<rparr>)))"

definition GameModeHandler :: "request \<Rightarrow> ('z dbworld_scheme, game_modes response) prog" where
  "GameModeHandler r =
     bindp (sql (\<lambda>d. (mode_can_play mode_rank d, d))) (\<lambda>res. case res of
       Inl e \<Rightarrow> reply_error (mode_failed mode_rank) StatusInternalServerError
     | Inr canRank \<Rightarrow>
     bindp (sql (\<lambda>d. (mode_can_play mode_friend d, d))) (\<lambda>res. case res of
       Inl e \<Rightarrow> reply_error (mode_failed mode_friend) StatusInternalServerError
     | Inr canFriend \<Rightarrow>
     Ret (Json \<lparr>gmo_result = ''OK'', gmo_can_rank = canRank, gmo_can_friend = canFriend\<rparr>)))"

section \<open>Players of a game\<close>

definition GetPlayersForGameHandler :: "request \<Rightarrow> ('z dbworld_scheme, PlayerGameInfo list response) prog" where
  "GetPlayersForGameHandler r =
     (case ParseInt (value_of (rq_vars r) ''room_id'') of
        None \<Rightarrow> reply_error ''Invalid room_id'' StatusBadRequest
      | Some roomID \<Rightarrow>
      bindp (GetPlayersForGame roomID) (\<lambda>res. case res of
        Inl e \<Rightarrow> reply_error ''Failed to get players'' StatusInternalServerError
      | Inr players \<Rightarrow> Ret (Json players)))"

end
