(* ===== verification/Routes.thy ===== *)
theory Routes
  imports Server Accounts Catalog
begin

text \<open>
  The routes of main.go: which path and method leads to which handler, and which of them stand
  behind \<open>JWTMiddleware\<close>. A route matches a path segment by segment, a variable \<open>{x}\<close> any
  segment that is not empty (the pattern that \<open>gorilla/mux\<close> makes of the template); the first
  route that matches path and method serves the request. Paths are taken as cleaned.
\<close>

section \<open>The table\<close>

datatype endpoint =
    CreateAccount | Login | MainData | RankMode | GameMode | SoloGames | FriendGames
  | CreateRoomEP | JoinRoomEP | RoomSocket | LeaveRoomEP | StartRoomEP | RoomPlayers
  | BlackjackSocket | UpdateSettings | UpdateSoloTip | ChipData

record route =
  ro_template :: string
  ro_secured :: bool
  ro_methods :: "string list"        \<comment> \<open>empty: every method\<close>
  ro_endpoint :: endpoint

definition open_route :: "string \<Rightarrow> endpoint \<Rightarrow> route" where
  "open_route t e = \<lparr>ro_template = t, ro_secured = False, ro_methods = [], ro_endpoint = e\<rparr>"

definition secured_route :: "string \<Rightarrow> endpoint \<Rightarrow> route" where
  "secured_route t e = \<lparr>ro_template = t, ro_secured = True, ro_methods = [], ro_endpoint = e\<rparr>"

definition Methods :: "string list \<Rightarrow> route \<Rightarrow> route" where
  "Methods ms r = r\<lparr>ro_methods := ms\<rparr>"

definition routes :: "route list" where
  "routes =
    [open_route ''/api/create_account'' CreateAccount,
     open_route ''/api/login'' Login,
     open_route ''/api/get_main_data'' MainData,
     open_route ''/api/rank_mode'' RankMode,
     open_route ''/api/game_mode'' GameMode,
     open_route ''/api/solo_games'' SoloGames,
     open_route ''/api/friend_games'' FriendGames,
     secured_route ''/api/create_room'' CreateRoomEP,
     secured_route ''/api/join_room'' JoinRoomEP,
     secured_route ''/api/ws/room/{room_code}'' RoomSocket,
     Methods [''POST'', ''OPTIONS''] (secured_route ''/api/rooms/leave'' LeaveRoomEP),
     Methods [''POST'', ''OPTIONS''] (secured_route ''/api/rooms/start'' StartRoomEP),
     Methods [''GET''] (open_route ''/api/rooms/{room_id}/players'' RoomPlayers),
     secured_route ''/api/ws/blackjackwebsocket/{room_code}'' BlackjackSocket,
     secured_route ''/api/update_settings'' UpdateSettings,
     secured_route ''/api/updatesolotip'' UpdateSoloTip,
     Methods [''GET''] (secured_route ''/api/get_chip_data'' ChipData)]"

section \<open>Matching\<close>

fun segments :: "string \<Rightarrow> string list" where
  "segments [] = [[]]"
| "segments (c # s) =
     (if c = CHR ''/'' then [] # segments s
      else case segments s of [] \<Rightarrow> [[c]] | x # xs \<Rightarrow> (c # x) # xs)"

text \<open>The variable that a segment of a template is, if it is one.\<close>

definition template_var :: "string \<Rightarrow> string option" where
  "template_var s = (if s \<noteq> [] \<and> hd s = CHR ''{'' \<and> last s = CHR ''}'' then Some (butlast (tl s)) else None)"

fun match_segments :: "string list \<Rightarrow> string list \<Rightarrow> (string \<times> string) list option" where
  "match_segments [] [] = Some []"
| "match_segments (t # ts) (p # ps) =
     (case template_var t of
        Some x \<Rightarrow> if p = [] then None else map_option ((#) (x, p)) (match_segments ts ps)
      | None \<Rightarrow> if t = p then match_segments ts ps else None)"
| "match_segments _ _ = None"

definition match_route :: "string \<Rightarrow> string \<Rightarrow> route \<Rightarrow> (string \<times> string) list option" where
  "match_route meth path r =
     (if ro_methods r = [] \<or> meth \<in> set (ro_methods r)
      then match_segments (segments (ro_template r)) (segments path) else None)"

fun find_route :: "route list \<Rightarrow> string \<Rightarrow> string \<Rightarrow> (route \<times> (string \<times> string) list) option" where
  "find_route [] meth path = None"
| "find_route (r # rs) meth path =
     (case match_route meth path r of Some vars \<Rightarrow> Some (r, vars) | None \<Rightarrow> find_route rs meth path)"

lemma find_route_in: "find_route rs meth path = Some (r, vars) \<Longrightarrow> r \<in> set rs"
  by (induction rs) (auto split: option.splits)

definition path_known :: "string \<Rightarrow> bool" where
  "path_known path \<longleftrightarrow> (\<exists>r \<in> set routes. match_segments (segments (ro_template r)) (segments path) \<noteq> None)"

section \<open>Serving a request\<close>

text \<open>
  What decides a request besides its text: random numbers, the connection of a web socket with
  the frames that come in over it, how many rows arrive before a fault.
\<close>

record inputs =
  in_codes :: "nat \<Rightarrow> nat"
  in_salt :: "string option"
  in_deal :: nat
  in_rows :: nat
  in_upgraded :: bool
  in_conn :: conn
  in_lobby_frames :: "ws_frame list"
  in_table_frames :: "json option list"

record http_request =
  hq_method :: string
  hq_path :: string
  hq_request :: request

text \<open>The status code of the answer; a web socket has none.\<close>

datatype outcome = Status nat | Socket

definition answered :: "('w, 'b response) prog \<Rightarrow> ('w, outcome) prog" where
  "answered p = bindp p (\<lambda>res. Ret (Status (status_code res)))"

definition socket :: "('w, unit) prog \<Rightarrow> ('w, outcome) prog" where
  "socket p = bindp p (\<lambda>_. Ret Socket)"

text \<open>
  The handler of an endpoint. A started game is announced by a goroutine of its own, which is the
  \<open>Announcement\<close> of \<open>http_op\<close> below.
\<close>

fun handler :: "go_env \<Rightarrow> inputs \<Rightarrow> endpoint \<Rightarrow> request \<Rightarrow> (bjworld, outcome) prog" where
  "handler env i CreateAccount r = answered (CreateAccountHandler env (in_salt i) r)"
| "handler env i Login r = answered (LoginHandler env r)"
| "handler env i MainData r = answered (GetMainDataHandler env True r)"
| "handler env i RankMode r = answered (RankModeHandler r)"
| "handler env i GameMode r = answered (GameModeHandler r)"
| "handler env i SoloGames r = answered (SoloGameListHandler (in_rows i) r)"
| "handler env i FriendGames r = answered (FriendGameListHandler (in_rows i) r)"
| "handler env i CreateRoomEP r = answered (CreateRoomHandler (in_codes i) r)"
| "handler env i JoinRoomEP r = answered (JoinRoomHandler r)"
| "handler env i RoomSocket r =
     socket (GameRoomWebSocketHandler (in_upgraded i) (in_conn i) (in_lobby_frames i) r)"
| "handler env i LeaveRoomEP r = answered (LeaveRoomHandler r)"
| "handler env i StartRoomEP r =
     bindp (StartRoomHandler r) (\<lambda>(res, announce). Ret (Status (status_code res)))"
| "handler env i RoomPlayers r = answered (GetPlayersForGameHandler r)"
| "handler env i BlackjackSocket r =
     socket (BlackjackWebSocketHandle (in_upgraded i) (in_deal i) (in_conn i) (in_table_frames i) r)"
| "handler env i UpdateSettings r = answered (UpdateUserSettingsHandler r)"
| "handler env i UpdateSoloTip r = answered (UpdateSoloTipHandler env r)"
| "handler env i ChipData r = answered (GetChipDataHandler r)"

definition refuse :: "string \<Rightarrow> nat \<Rightarrow> ('w, outcome) prog" where
  "refuse msg status = Ret (Status status)"

definition dispatch :: "go_env \<Rightarrow> inputs \<Rightarrow> http_request \<Rightarrow> (bjworld, outcome) prog" where
  "dispatch env i q =
     (case find_route routes (hq_method q) (hq_path q) of
        None \<Rightarrow> Ret (Status (if path_known (hq_path q) then 405 else 404))
      | Some (route, vars) \<Rightarrow>
          let r = (hq_request q)\<lparr>rq_vars := vars, rq_ctx := None\<rparr> in
          if ro_secured route then JWTMiddleware env refuse (handler env i (ro_endpoint route)) r
          else handler env i (ro_endpoint route) r)"

section \<open>Every request keeps the invariant of the server\<close>

lemma srv_reply [srv]: "keeps sound onward (reply_error m n)"
  by (simp add: reply_error_def)

lemma srv_insert_user [srv]:
  "keeps sound onward (sql (\<lambda>d. (Inr (d_next_user d), insert_user n p now d)))"
  by (rule srv_sql) (auto simp: db_inv_def user_ids_ok_def ids_ok_def insert_user_def counters_le_def)

text \<open>Statements that touch neither the rooms nor the users.\<close>

lemma srv_other_table:
  assumes "\<And>d. d_rooms (f d) = d_rooms d \<and> d_room_users (f d) = d_room_users d \<and> d_users (f d) = d_users d \<and>
      d_next_user (f d) = d_next_user d \<and> d_next_room (f d) = d_next_room d \<and> d_next_ru (f d) = d_next_ru d \<and>
      d_next_game (f d) = d_next_game d"
  shows "keeps sound onward (sql (\<lambda>d. (Inr (), f d)))"
proof (rule srv_sql)
  fix d
  have "db_inv (f d) = db_inv d"
    unfolding db_inv_def user_ids_ok_def ids_ok_def by (simp only: assms)
  moreover have "counters_le d (f d)" by (simp add: counters_le_def assms)
  moreover assume "db_inv d"
  ultimately show "db_inv (snd (Inr (), f d)) \<and> counters_le d (snd (Inr (), f d))" by simp
qed

lemma srv_account_writes [srv]:
  "keeps sound onward (sql (\<lambda>d. (Inr (), insert_setting u a b ic d)))"
  "keeps sound onward (sql (\<lambda>d. (Inr (), insert_tip u s m now d)))"
  "keeps sound onward (sql (\<lambda>d. (Inr (), update_setting a b u d)))"
  "keeps sound onward (sql (\<lambda>d. (Inr (), add_solo_tip k u d)))"
  by (rule srv_other_table; simp add: insert_setting_def insert_tip_def update_setting_def add_solo_tip_def)+

lemma srv_bool: "keeps I G p \<Longrightarrow> keeps I G q \<Longrightarrow> keeps I G (case b of True \<Rightarrow> p | False \<Rightarrow> q)"
  by (cases b) auto

lemma srv_err: "keeps I G p \<Longrightarrow> (\<And>t. keeps I G (f t)) \<Longrightarrow> keeps I G (case e of ErrNoRows \<Rightarrow> p | DbFault t \<Rightarrow> f t)"
  by (cases e) auto

lemma srv_unit: "keeps I G p \<Longrightarrow> keeps I G (case u of () \<Rightarrow> p)"
  by (cases u) (simp only: old.unit.case)

lemma srv_create_account: "keeps sound onward (CreateAccountHandler env salt r)"
  unfolding CreateAccountHandler_def by (intro stable_intros srv srv_bool srv_query)

lemma srv_login: "keeps sound onward (LoginHandler env r)"
  unfolding LoginHandler_def by (intro stable_intros srv srv_err srv_query)

lemma srv_main_data: "keeps sound onward (GetMainDataHandler env b r)"
  unfolding GetMainDataHandler_def by (intro stable_intros srv srv_query)

lemma srv_settings: "keeps sound onward (UpdateUserSettingsHandler r)"
proof -
  have "keeps sound onward (settings_tx q u)" for q u
    unfolding settings_tx_def by (intro stable_intros srv srv_unit)
  then show ?thesis
    unfolding UpdateUserSettingsHandler_def Let_def by (intro stable_intros srv srv_transaction)
qed

lemma srv_chips: "keeps sound onward (GetChipDataHandler r)"
  unfolding GetChipDataHandler_def Let_def by (intro stable_intros srv srv_err srv_query)

lemma srv_middleware:
  assumes "\<And>m n. keeps sound onward (refused m n)" "\<And>r. keeps sound onward (next r)"
  shows "keeps sound onward (JWTMiddleware env refused next r)"
  unfolding JWTMiddleware_def Let_def by (intro stable_intros srv assms)

lemma srv_solo_tip: "keeps sound onward (UpdateSoloTipHandler env r)"
  unfolding UpdateSoloTipHandler_def
proof (rule srv_middleware)
  show "keeps sound onward (solo_tip_body q)" for q
    unfolding solo_tip_body_def by (intro stable_intros srv srv_unit)
qed (rule srv)

lemma srv_fetch [srv]: "keeps sound onward (fetch_rows n rows)"
  unfolding fetch_rows_def by (rule srv_frame) (auto split: list.split option.split)

lemma srv_lists:
  "keeps sound onward (SoloGameListHandler n r)" "keeps sound onward (FriendGameListHandler n r)"
  "keeps sound onward (RankModeHandler r)" "keeps sound onward (GameModeHandler r)"
  "keeps sound onward (GetPlayersForGameHandler r)"
  unfolding SoloGameListHandler_def FriendGameListHandler_def RankModeHandler_def GameModeHandler_def
    GetPlayersForGameHandler_def GetPlayersForGame_def games_ok_def
  by (intro stable_intros srv srv_query)+

lemma srv_answered: "keeps I G p \<Longrightarrow> keeps I G (answered p)"
  unfolding answered_def by (intro stable_intros)

lemma srv_socket: "keeps I G p \<Longrightarrow> keeps I G (socket p)"
  unfolding socket_def by (intro stable_intros)

lemma srv_handler: "keeps sound onward (handler env i e r)"
  by (cases e) (auto intro!: srv_answered srv_socket stable_intros srv_create_account srv_login srv_main_data srv_lists srv_create
      srv_join srv_room_session srv_leave srv_start srv_table_session srv_settings srv_solo_tip srv_chips)

lemma srv_dispatch: "keeps sound onward (dispatch env i q)"
  unfolding dispatch_def Let_def refuse_def
  by (intro stable_intros srv_middleware srv_handler)

text \<open>What runs in the server: requests, and the announcements of started games.\<close>

datatype http_op = Request go_env inputs http_request | Announcement string int

fun serve_http :: "http_op \<Rightarrow> (bjworld, unit) prog" where
  "serve_http (Request env i q) = forget (dispatch env i q)"
| "serve_http (Announcement code gid) = broadcastStartGame code gid"

lemma srv_http: "keeps sound onward (serve_http op)"
  by (cases op) (simp_all add: srv_forget srv_dispatch srv_start_broadcast)

interpretation http: world_invariant sound onward serve_http
  by unfold_locales (rule srv_http onward_refl onward_trans)+

end
