(* ===== verification/Account_Results.thy ===== *)
theory Account_Results
  imports Accounts Lobby_Results
begin

text \<open>
  What the account handlers do to the tables, with any statement failing, and what the tokens and
  hashes they hand out are good for: the token of an answer lets its bearer through the
  middleware, the password of a new account logs in to it.
\<close>

section \<open>Creating an account\<close>

text \<open>The tables after the first \<open>k\<close> of the three inserts.\<close>

definition account_db :: "nat \<Rightarrow> string \<Rightarrow> string \<Rightarrow> int \<Rightarrow> database \<Rightarrow> database" where
  "account_db k name hash now d =
     (let d1 = insert_user name hash now d;
          d2 = insert_setting (d_next_user d) (f64_of_int 1) (f64_of_int 1) ''default_icon'' d1;
          d3 = insert_tip (d_next_user d) 10000 10000 now d2
      in if k = 0 then d else if k = 1 then d1 else if k = 2 then d2 else d3)"

text \<open>What a response of the handler says about the tables before and after.\<close>

definition account_outcome :: "go_env \<Rightarrow> string option \<Rightarrow> request \<Rightarrow> int \<Rightarrow> database \<Rightarrow>
    account_response response \<Rightarrow> database \<Rightarrow> bool" where
  "account_outcome env random r now d res d' \<longleftrightarrow>
     (case parse_create_account r of
        Inl (msg, status) \<Rightarrow> res = HttpError msg status \<and> d' = d
      | Inr req \<Rightarrow>
          (d' = d \<and> (\<exists>m. res = HttpError m 400) \<and>
             (blank (caq_Name req) \<or> \<not> caq_AutoFlg req \<and> blank (caq_Password req))) \<or>
          (d' = d \<and> (\<exists>b. res = Json b \<and> ar_result b = ''NG'') \<and> name_exists (caq_Name req) d = Inr True) \<or>
          (d' = d \<and> (\<exists>m. res = HttpError m 500)) \<or>
          (\<not> blank (caq_Name req) \<and> (caq_AutoFlg req \<or> \<not> blank (caq_Password req)) \<and>
           name_exists (caq_Name req) d = Inr False \<and>
           (\<exists>hash k. account_hash random req = Inr hash \<and> d' = account_db k (caq_Name req) hash now d \<and>
              ((\<exists>m. res = HttpError m 500) \<or>
               (k = 3 \<and> (\<exists>tok. SignedString (ge_crypto env) (MapClaims (ge_oor env))
                   (NewWithClaims SigningMethodHS256 (account_claims (d_next_user d) (caq_Name req) (now + 86400)))
                   (Bytes jwtSecret) = Some (Inr tok) \<and>
                  res = Json \<lparr>ar_result = ''OK'', ar_token = Some tok, ar_message = None\<rparr>))))))"

lemma wp_bool [wp_intros]:
  "(b \<Longrightarrow> wp p Q w) \<Longrightarrow> (\<not> b \<Longrightarrow> wp q Q w) \<Longrightarrow> wp (case b of True \<Rightarrow> p | False \<Rightarrow> q) Q w"
  by (cases b) auto

lemma wp_err [wp_intros]:
  "(e = ErrNoRows \<Longrightarrow> wp p Q w) \<Longrightarrow> (\<And>t. e = DbFault t \<Longrightarrow> wp (f t) Q w) \<Longrightarrow>
   wp (case e of ErrNoRows \<Rightarrow> p | DbFault t \<Rightarrow> f t) Q w"
  by (cases e) auto

lemma wp_unit [wp_intros]: "wp p Q w \<Longrightarrow> wp (case u of () \<Rightarrow> p) Q w"
  by (cases u) (simp only: old.unit.case)

lemma account_steps:
  "account_db 0 n h t d = d" "account_db (Suc 0) n h t d = insert_user n h t d"
  "account_db 2 n h t d =
     insert_setting (d_next_user d) (f64_of_int 1) (f64_of_int 1) ''default_icon'' (insert_user n h t d)"
  "account_db 3 n h t d = insert_tip (d_next_user d) 10000 10000 t
     (insert_setting (d_next_user d) (f64_of_int 1) (f64_of_int 1) ''default_icon'' (insert_user n h t d))"
  by (simp_all add: account_db_def Let_def)

lemma dbworld_fields:
  "w_db (w_db_update f w) = f (w_db w)" "w_db (w_faults_update g w) = w_db w"
  "w_clock (w_db_update f w) = w_clock w" "w_clock (w_faults_update g w) = w_clock w"
  "w_faults (w_db_update f w) = w_faults w" "w_faults (w_faults_update g w) = g (w_faults w)"
  by simp_all

lemma dbworld_updates:
  "w_faults_update g (w_db_update f w) = w_db_update f (w_faults_update g w)"
  "w_faults_update g (w_faults_update g' w) = w_faults_update (\<lambda>x. g (g' x)) w"
  "w_db_update f (w_db_update f' w) = w_db_update (\<lambda>x. f (f' x)) w"
  by (simp_all add: comp_def)

lemma wp_time_now: "Q (w_clock w) w \<Longrightarrow> wp time_now Q w"
  by (simp add: time_now_def wp_atomic)

text \<open>The answers of the handler after it has begun to insert.\<close>

lemma account_partial:
  assumes "parse_create_account r = Inr req" "\<not> blank (caq_Name req)" "\<not> (\<not> caq_AutoFlg req \<and> blank (caq_Password req))"
    "name_exists (caq_Name req) d = Inr False" "account_hash random req = Inr hash"
  shows "account_outcome env random r t d (HttpError m 500) (account_db k (caq_Name req) hash t d)"
  unfolding account_outcome_def using assms by auto

lemma account_refused:
  assumes "parse_create_account r = Inr req"
  shows "account_outcome env random r t d (HttpError m 500) d"
    "blank (caq_Name req) \<Longrightarrow> account_outcome env random r t d (HttpError m 400) d"
    "\<not> caq_AutoFlg req \<and> blank (caq_Password req) \<Longrightarrow> account_outcome env random r t d (HttpError m 400) d"
    "name_exists (caq_Name req) d = Inr True \<Longrightarrow>
     account_outcome env random r t d (Json \<lparr>ar_result = ''NG'', ar_token = None, ar_message = m'\<rparr>) d"
  unfolding account_outcome_def using assms by auto

lemma account_complete:
  assumes "parse_create_account r = Inr req" "\<not> blank (caq_Name req)" "\<not> (\<not> caq_AutoFlg req \<and> blank (caq_Password req))"
    "name_exists (caq_Name req) d = Inr False" "account_hash random req = Inr hash"
    "SignedString (ge_crypto env) (MapClaims (ge_oor env))
       (NewWithClaims SigningMethodHS256 (account_claims (d_next_user d) (caq_Name req) (t + 86400)))
       (Bytes jwtSecret) = Some (Inr tok)"
  shows "account_outcome env random r t d (Json \<lparr>ar_result = ''OK'', ar_token = Some tok, ar_message = None\<rparr>)
    (account_db 3 (caq_Name req) hash t d)"
  unfolding account_outcome_def using assms by auto

lemma create_account_spec:
  "wp (CreateAccountHandler env random r)
     (\<lambda>res w'. account_outcome env random r (w_clock w) (w_db w) res (w_db w')) w"
proof (cases "parse_create_account r")
  case (Inl e)
  then show ?thesis
    unfolding CreateAccountHandler_def reply_error_def
    by (cases e) (auto simp: account_outcome_def intro!: wp_Ret)
next
  case (Inr req)
  note partial = account_partial [OF Inr, where k = 0, unfolded account_steps]
    account_partial [OF Inr, where k = "Suc 0", unfolded account_steps]
    account_partial [OF Inr, where k = 2, unfolded account_steps]
    account_partial [OF Inr, where k = 3, unfolded account_steps]
  note complete = account_complete [OF Inr, unfolded account_steps]
  show ?thesis
    unfolding CreateAccountHandler_def reply_error_def Inr sum.case
    apply (intro wp_intros wp_query wp_update wp_time_now)
    apply (simp_all only: sum.inject sum.distinct dbworld_fields simp_thms)
    by ((hypsubst?, (rule account_refused [OF Inr] partial complete; assumption))+)
qed

text \<open>An answer that says OK.\<close>

lemma account_created:
  assumes "run (CreateAccountHandler env random r) w = (Json b, w')" "ar_result b = ''OK''"
  obtains req hash tok where "parse_create_account r = Inr req" "\<not> blank (caq_Name req)"
    "caq_AutoFlg req \<or> \<not> blank (caq_Password req)" "name_exists (caq_Name req) (w_db w) = Inr False"
    "account_hash random req = Inr hash" "w_db w' = account_db 3 (caq_Name req) hash (w_clock w) (w_db w)"
    "ar_token b = Some tok"
    "SignedString (ge_crypto env) (MapClaims (ge_oor env)) (NewWithClaims SigningMethodHS256
       (account_claims (d_next_user (w_db w)) (caq_Name req) (w_clock w + 86400))) (Bytes jwtSecret) = Some (Inr tok)"
proof -
  have "account_outcome env random r (w_clock w) (w_db w) (Json b) (w_db w')"
    using wpD [OF create_account_spec assms(1)] .
  with assms(2) have "\<exists>req hash tok. parse_create_account r = Inr req \<and> \<not> blank (caq_Name req) \<and>
      (caq_AutoFlg req \<or> \<not> blank (caq_Password req)) \<and> name_exists (caq_Name req) (w_db w) = Inr False \<and>
      account_hash random req = Inr hash \<and> w_db w' = account_db 3 (caq_Name req) hash (w_clock w) (w_db w) \<and>
      ar_token b = Some tok \<and>
      SignedString (ge_crypto env) (MapClaims (ge_oor env)) (NewWithClaims SigningMethodHS256
       (account_claims (d_next_user (w_db w)) (caq_Name req) (w_clock w + 86400))) (Bytes jwtSecret) = Some (Inr tok)"
    by (auto simp: account_outcome_def split: sum.splits)
  with that show ?thesis by blast
qed

text \<open>The tables with the new account.\<close>

lemma account_tables:
  "d_users (account_db 3 n h t d) = d_users d @
     [\<lparr>u_id = d_next_user d, u_name = n, u_password = h, u_created = t, u_last_login = t\<rparr>]"
  "d_settings (account_db 3 n h t d) = d_settings d @
     [\<lparr>st_user = d_next_user d, st_bgm = f64_of_int 1, st_se = f64_of_int 1, st_icon = ''default_icon''\<rparr>]"
  "d_tips (account_db 3 n h t d) = d_tips d @
     [\<lparr>tp_user = d_next_user d, tp_solo = 10000, tp_multi = 10000, tp_updated = t\<rparr>]"
  "d_next_user (account_db 3 n h t d) = d_next_user d + 1"
  "d_coll (account_db 3 n h t d) = d_coll d"
  by (simp_all only: account_steps) (simp_all add: insert_user_def insert_setting_def insert_tip_def)

lemma account_password:
  assumes "name_exists n d = Inr False"
  shows "password_of n (account_db 3 n h t d) = Inr (d_next_user d, h)"
proof -
  have "filter (\<lambda>u. d_coll d (u_name u) = d_coll d n) (d_users d) = []"
    using assms by (auto simp: name_exists_def filter_empty_conv)
  then show ?thesis by (simp add: password_of_def account_tables first_row_def)
qed

section \<open>Logging in\<close>

lemma login_spec:
  "wp (LoginHandler env r) (\<lambda>res w'. w_db w' = w_db w \<and> (\<forall>b. res = Json b \<longrightarrow>
     (\<exists>req uid hp tok. parse_login r = Inr req \<and> password_of (lq_Name req) (w_db w) = Inr (uid, hp) \<and>
        CompareHashAndPassword hp (lq_Password req) = None \<and>
        b = \<lparr>ar_result = ''OK'', ar_token = Some tok, ar_message = Some []\<rparr> \<and>
        SignedString (ge_crypto env) (UserClaims (ge_oor env)) (NewWithClaims SigningMethodHS256
          (login_claims uid (lq_Name req) (clock_at (w_clock w + 86400) 0) (clock_at (w_clock w) 0)))
          (Bytes jwtSecret) = Some (Inr tok)))) w"
  unfolding LoginHandler_def reply_error_def
  apply (intro wp_intros wp_query wp_time_now)
  apply (simp_all only: sum.inject sum.distinct dbworld_fields simp_thms response.inject response.distinct prod.inject)
  by (intro exI conjI; (rule refl | assumption))

lemma HS256_signs:
  assumes "ct_members ct cl = Some ms" "cy_available c SHA256"
  shows "\<exists>s. SignedString c ct (NewWithClaims SigningMethodHS256 cl) (Bytes k) = Some (Inr s)"
  using assms HS256_members [of cl]
  by (auto simp: SignedString_def SigningString_def SigningMethodHS256_def NewWithClaims_def hmac_sign_def)

lemma HS256_available:
  assumes "SignedString c ct (NewWithClaims SigningMethodHS256 cl) (Bytes k) = Some (Inr s)"
  shows "cy_available c SHA256"
  using assms HS256_members [of cl]
  by (auto simp: SignedString_def SigningString_def SigningMethodHS256_def NewWithClaims_def hmac_sign_def
      split: option.splits if_splits)

lemma run_login:
  assumes "parse_login r = Inr req" "lq_Name req \<noteq> []" "lq_Password req \<noteq> []" "w_faults w = []"
    "password_of (lq_Name req) (w_db w) = Inr (uid, hp)" "hp \<noteq> []"
    "CompareHashAndPassword hp (lq_Password req) = None" "cy_available (ge_crypto env) SHA256"
  obtains tok where "run (LoginHandler env r) w =
    (Json \<lparr>ar_result = ''OK'', ar_token = Some tok, ar_message = Some []\<rparr>, w)"
proof -
  let ?cl = "login_claims uid (lq_Name req) (clock_at (w_clock w + 86400) 0) (clock_at (w_clock w) 0)"
  obtain ms where ms: "ct_members (UserClaims (ge_oor env)) ?cl = Some ms" by (simp add: UserClaims_def)
  obtain tok where "SignedString (ge_crypto env) (UserClaims (ge_oor env))
      (NewWithClaims SigningMethodHS256 ?cl) (Bytes jwtSecret) = Some (Inr tok)"
    using HS256_signs [OF ms assms(8)] by blast
  then have "run (LoginHandler env r) w =
      (Json \<lparr>ar_result = ''OK'', ar_token = Some tok, ar_message = Some []\<rparr>, w\<lparr>w_db := w_db w, w_faults := []\<rparr>)"
    unfolding LoginHandler_def reply_error_def time_now_def
    by (simp only: assms run_simps list.case list.sel prod.case sum.case option.case if_False de_Morgan_disj simp_thms dbworld_fields)
  moreover have "w\<lparr>w_db := w_db w, w_faults := []\<rparr> = w" using assms(4) by simp
  ultimately show ?thesis by (intro that) simp
qed

lemma run_login_auto:
  assumes "parse_login r = Inr req" "lq_Name req \<noteq> []" "lq_Password req \<noteq> []" "w_faults w = []"
    "password_of (lq_Name req) (w_db w) = Inr (uid, [])"
  shows "run (LoginHandler env r) w = (HttpError msg_no_password_login 401, w)"
proof -
  have "run (LoginHandler env r) w = (HttpError msg_no_password_login 401, w\<lparr>w_db := w_db w, w_faults := []\<rparr>)"
    unfolding LoginHandler_def reply_error_def
    by (simp only: assms run_simps list.case list.sel prod.case sum.case option.case if_False if_True
        de_Morgan_disj simp_thms dbworld_fields)
  moreover have "w\<lparr>w_db := w_db w, w_faults := []\<rparr> = w" using assms(4) by simp
  ultimately show ?thesis by simp
qed

section \<open>A new account can log in\<close>

lemma account_hash_compares:
  assumes "account_hash (Some salt) req = Inr hash" "length salt = 16" "\<not> caq_AutoFlg req"
  shows "CompareHashAndPassword hash (caq_Password req) = None" "length hash = 60"
proof -
  from assms have "GenerateFromPassword (Some salt) (caq_Password req) DefaultCost = Inr hash"
    by (simp add: account_hash_def)
  from generate_hashed [OF this assms(2)] obtain p where "hash = Hash p" "new_hash p"
    "bcrypt (caq_Password req) (h_cost p) (h_salt p) = Inr (h_hash p)" by blast
  then show "CompareHashAndPassword hash (caq_Password req) = None" "length hash = 60"
    by (simp_all add: compare_new newFromHash_Hash)
qed

text \<open>The runs in which no statement fails, and in which the second insert does.\<close>

lemma run_create_account:
  assumes "parse_create_account r = Inr req" "\<not> blank (caq_Name req)"
    "\<not> (\<not> caq_AutoFlg req \<and> blank (caq_Password req))"
    "name_exists (caq_Name req) (w_db w) = Inr False" "account_hash random req = Inr hash"
  shows "w_faults w = [] \<Longrightarrow> SignedString (ge_crypto env) (MapClaims (ge_oor env)) (NewWithClaims SigningMethodHS256
       (account_claims (d_next_user (w_db w)) (caq_Name req) (w_clock w + 86400))) (Bytes jwtSecret) = Some (Inr tok) \<Longrightarrow>
     run (CreateAccountHandler env random r) w = (Json \<lparr>ar_result = ''OK'', ar_token = Some tok, ar_message = None\<rparr>,
       w\<lparr>w_db := account_db 3 (caq_Name req) hash (w_clock w) (w_db w), w_faults := []\<rparr>)"
    and "w_faults w = None # None # Some e # fs \<Longrightarrow>
     run (CreateAccountHandler env random r) w = (HttpError msg_settings_failed 500,
       w\<lparr>w_db := account_db (Suc 0) (caq_Name req) hash (w_clock w) (w_db w), w_faults := fs\<rparr>)"
  unfolding CreateAccountHandler_def reply_error_def time_now_def account_steps
  by (simp_all only: assms run_simps list.case list.sel prod.case sum.case option.case bool.case if_False simp_thms
      dbworld_fields dbworld_updates)

lemma run_create_taken:
  assumes "parse_create_account r = Inr req" "\<not> blank (caq_Name req)"
    "\<not> (\<not> caq_AutoFlg req \<and> blank (caq_Password req))"
    "name_exists (caq_Name req) (w_db w) = Inr True" "w_faults w = []"
  shows "run (CreateAccountHandler env random r) w =
    (Json \<lparr>ar_result = ''NG'', ar_token = None, ar_message = Some msg_name_used\<rparr>, w)"
proof -
  have "run (CreateAccountHandler env random r) w =
      (Json \<lparr>ar_result = ''NG'', ar_token = None, ar_message = Some msg_name_used\<rparr>, w\<lparr>w_db := w_db w, w_faults := []\<rparr>)"
    unfolding CreateAccountHandler_def reply_error_def
    by (simp only: assms run_simps list.case list.sel prod.case sum.case option.case bool.case if_False simp_thms
        dbworld_fields)
  moreover have "w\<lparr>w_db := w_db w, w_faults := []\<rparr> = w" using assms(5) by simp
  ultimately show ?thesis by simp
qed

lemma create_account_runs:
  assumes "parse_create_account r = Inr req" "\<not> blank (caq_Name req)"
    "\<not> (\<not> caq_AutoFlg req \<and> blank (caq_Password req))"
    "name_exists (caq_Name req) (w_db w) = Inr False" "account_hash random req = Inr hash"
    "w_faults w = []" "cy_available (ge_crypto env) SHA256" "\<bar>d_next_user (w_db w)\<bar> < 2 ^ 53"
    "sane_seconds (w_clock w + 86400)"
  obtains tok where
    "run (CreateAccountHandler env random r) w = (Json \<lparr>ar_result = ''OK'', ar_token = Some tok, ar_message = None\<rparr>,
       w\<lparr>w_db := account_db 3 (caq_Name req) hash (w_clock w) (w_db w), w_faults := []\<rparr>)"
proof -
  obtain tok where "SignedString (ge_crypto env) (MapClaims (ge_oor env)) (NewWithClaims SigningMethodHS256
       (account_claims (d_next_user (w_db w)) (caq_Name req) (w_clock w + 86400))) (Bytes jwtSecret) = Some (Inr tok)"
    using map_claims.signing_succeeds [OF account_claims_good [OF assms(8,9)] assms(7)] by blast
  from run_create_account(1) [OF assms(1-6) this] that show ?thesis by blast
qed

text \<open>What the token of a login or of a new account says to the middleware, for a day.\<close>

definition good_for_a_day :: "go_env \<Rightarrow> int \<Rightarrow> int \<Rightarrow> string \<Rightarrow> bool" where
  "good_for_a_day env t uid tok \<longleftrightarrow> (\<forall>now ns. t \<le> now \<longrightarrow> now < t + 86400 \<longrightarrow>
     token_user env (clock_at now ns) tok = Inr uid)"

lemma day_sane: "0 < t \<Longrightarrow> sane_seconds (t + 86400) \<Longrightarrow> t \<le> now \<Longrightarrow> now < t + 86400 \<Longrightarrow>
    sane_seconds now \<and> sane_seconds t"
  by (auto simp: sane_seconds_def)

lemma account_token_good:
  assumes "SignedString (ge_crypto env) (MapClaims (ge_oor env))
      (NewWithClaims SigningMethodHS256 (account_claims uid name (t + 86400))) (Bytes jwtSecret) = Some (Inr s)"
    and "\<bar>uid\<bar> < 2 ^ 53" "0 < t" "sane_seconds (t + 86400)"
  shows "good_for_a_day env t uid s"
  unfolding good_for_a_day_def
  using account_token_read [OF assms(1,2,4)] day_sane [OF assms(3,4)] assms(3) by simp

lemma login_token_good:
  assumes "SignedString (ge_crypto env) (UserClaims (ge_oor env)) (NewWithClaims SigningMethodHS256
      (login_claims uid name (clock_at (t + 86400) 0) (clock_at t 0))) (Bytes jwtSecret) = Some (Inr s)"
    and "\<bar>uid\<bar> < 2 ^ 53" "0 < t" "sane_seconds (t + 86400)"
  shows "good_for_a_day env t uid s"
  unfolding good_for_a_day_def
proof (intro allI impI)
  fix now ns
  assume "t \<le> now" "now < t + 86400"
  with day_sane [OF assms(3,4) this] show "token_user env (clock_at now ns) s = Inr uid"
    using assms(3) by (intro login_token_read [OF assms(1,2,4)]) auto
qed

end
