(* ===== verification/Account_Examples.thy ===== *)
theory Account_Examples
  imports Examples Routes Account_Results
begin

text \<open>
  Concrete accounts, logins and requests to routes, on a platform given by a concrete \<open>go_env\<close>, on which
  the properties are applied.
\<close>

text \<open>A platform whose hash is at hand and whose conversions out of range give the smallest \<open>int64\<close>.\<close>

definition example_env :: go_env where
  "example_env = \<lparr>ge_crypto = \<lparr>cy_available = (\<lambda>_. True), cy_hmac = (\<lambda>h k s. rev (take 8 s)), cy_digest = (\<lambda>h s. s),
     cy_rsa_sign = (\<lambda>_ _ _. Inr []), cy_rsa_verify = (\<lambda>_ _ _ _. None), cy_pss_sign = (\<lambda>_ _ _ _. Inr []),
     cy_pss_verify = (\<lambda>_ _ _ _ _. None), cy_ec_sign = (\<lambda>_ _. Inr (0, 0)), cy_ec_verify = (\<lambda>_ _ _ _. True),
     cy_ed_sign = (\<lambda>_ _. Inr []), cy_ed_verify = (\<lambda>_ _ _. True)\<rparr>, ge_oor = (\<lambda>_. - (2 ^ 63))\<rparr>"

definition account_request :: "string \<Rightarrow> string \<Rightarrow> bool \<Rightarrow> request" where
  "account_request name password auto = blank_request\<lparr>rq_ctype := ''application/json'',
     rq_json := Some (JObj [(''name'', JStr name), (''password'', JStr password), (''auto_flg'', JBool auto)])\<rparr>"

definition login_request :: "string \<Rightarrow> string \<Rightarrow> request" where
  "login_request name password = blank_request\<lparr>rq_ctype := ''application/json'',
     rq_json := Some (JObj [(''name'', JStr name), (''password'', JStr password)])\<rparr>"

lemma example_requests:
  "parse_create_account (account_request n p a) = Inr \<lparr>caq_Name = n, caq_Password = p, caq_AutoFlg = a\<rparr>"
  "parse_login (login_request n p) = Inr \<lparr>lq_Name = n, lq_Password = p\<rparr>"
  by (simp_all add: parse_create_account_def parse_login_def parse_body_def account_request_def login_request_def
      blank_request_def has_prefix_def decode_body_def create_account_fields_def login_fields_def json_key_def)

lemma example_env_hash: "cy_available (ge_crypto example_env) SHA256"
  by (simp add: example_env_def)

text \<open>The third user of the race world opens an account, with a password or an automatic one.\<close>

lemma example_names: "name_exists ''cy'' seated_db = Inr False" "d_next_user seated_db = 31" "\<not> blank ''cy'' \<and> \<not> blank ''pw''"
proof -
  show "name_exists ''cy'' seated_db = Inr False" "d_next_user seated_db = 31"
    by (simp_all add: name_exists_def seated_db_def race_db_def add_member_def empty_db_def)
  show "\<not> blank ''cy'' \<and> \<not> blank ''pw''" by code_simp
qed

lemma example_account:
  assumes "account_hash random \<lparr>caq_Name = ''cy'', caq_Password = p, caq_AutoFlg = a\<rparr> = Inr hash" "a \<or> p = ''pw''"
  obtains tok where "run (CreateAccountHandler example_env random (account_request ''cy'' p a)) (boot seated_db [] [] 1000) =
    (Json \<lparr>ar_result = ''OK'', ar_token = Some tok, ar_message = None\<rparr>,
     (boot seated_db [] [] 1000)\<lparr>w_db := account_db 3 ''cy'' hash 1000 seated_db, w_faults := []\<rparr>)"
  by (rule create_account_runs [OF example_requests(1) _ _ _ assms(1), where w = "boot seated_db [] [] 1000" and env = example_env])
    (use assms(2) example_names example_env_hash that in \<open>auto simp: sane_seconds_def\<close>)

lemma example_salt: "\<exists>h. account_hash (Some (replicate 16 nul)) \<lparr>caq_Name = n, caq_Password = ''pw'', caq_AutoFlg = False\<rparr> = Inr h"
  by (simp add: account_hash_def generate_succeeds)

definition example_claims :: map_claims where
  "example_claims = [(''exp'', GFloat (f64_of_int 90)), (''iat'', GFloat (f64_of_int 50))]"

definition example_query :: "string \<Rightarrow> request \<Rightarrow> http_request" where
  "example_query path r = \<lparr>hq_method = ''POST'', hq_path = path, hq_request = r\<rparr>"

definition example_inputs :: inputs where
  "example_inputs = \<lparr>in_codes = (\<lambda>i. i), in_salt = None, in_deal = 0, in_rows = 0, in_upgraded = False, in_conn = 0,
     in_lobby_frames = [], in_table_frames = []\<rparr>"

end
