(* ===== verification/Ws_Mask.thy ===== *)
theory Ws_Mask
  imports Json_Text
begin

unbundle bit_operations_syntax

text \<open>
  Masking of frames in \<open>gorilla/websocket\<close>: \<open>maskBytes\<close> of mask.go, which works a machine word at a
  time where the buffer is long enough, and of mask_safe.go, which works byte by byte.
\<close>

definition xor_byte :: "char \<Rightarrow> char \<Rightarrow> char" where
  "xor_byte a b = char_of (byte_of a XOR byte_of b)"

text \<open>\<open>for i := range b { b[i] ^= key[pos&3]; pos++ }\<close>, with the bytes and the position after it.\<close>

fun mask_each :: "string \<Rightarrow> nat \<Rightarrow> string \<Rightarrow> string \<times> nat" where
  "mask_each key pos [] = ([], pos)"
| "mask_each key pos (c # cs) =
     (case mask_each key (pos + 1) cs of (bs, p) \<Rightarrow> (xor_byte c (key ! (pos mod 4)) # bs, p))"

definition maskBytes_safe :: "string \<Rightarrow> nat \<Rightarrow> string \<Rightarrow> string \<times> nat" where
  "maskBytes_safe key pos b = (case mask_each key pos b of (bs, p) \<Rightarrow> (bs, p mod 4))"

section \<open>A word at a time\<close>

text \<open>
  A \<open>uintptr\<close> over eight bytes in memory, on a machine that is little-endian or not.
\<close>

fun load_le :: "string \<Rightarrow> 64 word" where
  "load_le [] = 0"
| "load_le (c # cs) = word_of_nat (byte_of c) OR push_bit 8 (load_le cs)"

definition load :: "bool \<Rightarrow> string \<Rightarrow> 64 word" where
  "load le bs = load_le (if le then bs else rev bs)"

definition store :: "bool \<Rightarrow> 64 word \<Rightarrow> string" where
  "store le w = (let bs = map (\<lambda>i. char_of (unat (drop_bit (8 * i) w) mod 256)) [0..<8] in if le then bs else rev bs)"

fun mask_words :: "bool \<Rightarrow> 64 word \<Rightarrow> nat \<Rightarrow> string \<Rightarrow> string" where
  "mask_words le kw 0 b = b"
| "mask_words le kw (Suc n) b = store le (load le (take 8 b) XOR kw) @ mask_words le kw n (drop 8 b)"

text \<open>\<open>addr\<close> is the address of the buffer.\<close>

definition maskBytes :: "bool \<Rightarrow> nat \<Rightarrow> string \<Rightarrow> nat \<Rightarrow> string \<Rightarrow> string \<times> nat" where
  "maskBytes le addr key pos b =
     (if length b < 16 then (case mask_each key pos b of (bs, p) \<Rightarrow> (bs, p mod 4))
      else
        let n = (if addr mod 8 \<noteq> 0 then 8 - addr mod 8 else 0);
            (b1, pos) = mask_each key pos (take n b);
            b = drop n b;
            kw = load le (map (\<lambda>i. key ! ((pos + i) mod 4)) [0..<8]);
            n = length b div 8 * 8;
            b2 = mask_words le kw (length b div 8) (take n b);
            (b3, pos) = mask_each key pos (drop n b)
        in (b1 @ b2 @ b3, pos mod 4))"

section \<open>Both mask alike\<close>

lemma char_of_byte_of [simp]: "char_of (byte_of c) = c"
  by (simp add: byte_of_def)

lemma byte_of_char_of: "n < 256 \<Longrightarrow> byte_of (char_of n) = n"
  by (simp add: byte_of_def)

lemma byte_of_xor: "byte_of (xor_byte a b) = byte_of a XOR byte_of b"
proof -
  have "take_bit 8 (byte_of a XOR byte_of b) = byte_of a XOR byte_of b"
    by (rule bit_eqI) (auto simp: bit_take_bit_iff bit_xor_iff dest: bit_byte_of)
  then have "byte_of a XOR byte_of b < 2 ^ 8" by (metis take_bit_nat_less_exp)
  then show ?thesis by (simp add: xor_byte_def byte_of_char_of)
qed

lemma xor_byte_twice [simp]: "xor_byte (xor_byte a k) k = a"
proof -
  have "byte_of (xor_byte (xor_byte a k) k) = byte_of a"
    by (simp add: byte_of_xor xor.assoc)
  then show ?thesis by (metis char_of_byte_of)
qed

lemma mask_each_eq:
  "mask_each key pos b = (map2 (\<lambda>c i. xor_byte c (key ! (i mod 4))) b [pos..<pos + length b], pos + length b)"
  by (induction b arbitrary: pos) (simp_all add: upt_conv_Cons del: upt_Suc)

lemma mask_each_append:
  "mask_each key pos (a @ b) = (fst (mask_each key pos a) @ fst (mask_each key (pos + length a) b), pos + length a + length b)"
proof -
  have "[pos..<pos + length (a @ b)] = [pos..<pos + length a] @ [pos + length a..<pos + length a + length b]"
    using upt_add_eq_append [of pos "pos + length a" "length b"] by (simp add: add.assoc)
  then show ?thesis by (simp add: mask_each_eq)
qed

lemma mask_each_mod: "p mod 4 = q mod 4 \<Longrightarrow> fst (mask_each key p b) = fst (mask_each key q b)"
proof (induction b arbitrary: p q)
  case (Cons c cs)
  then have "Suc p mod 4 = Suc q mod 4" by (metis mod_Suc_eq)
  from Cons.IH [OF this] Cons.prems show ?case by (simp add: case_prod_unfold)
qed simp

lemma mask_each_snd [simp]: "snd (mask_each key pos b) = pos + length b"
  by (simp add: mask_each_eq)

lemma mask_each_length [simp]: "length (fst (mask_each key pos b)) = length b"
  by (simp add: mask_each_eq)

text \<open>Masking twice gives the bytes back: one routine masks and unmasks.\<close>

lemma mask_twice: "fst (mask_each key pos (fst (mask_each key pos b))) = b"
  by (induction b arbitrary: pos) (simp_all add: case_prod_unfold)

section \<open>Words\<close>

lemma load_le_bit:
  "bit (load_le bs) n \<longleftrightarrow> n < 64 \<and> n div 8 < length bs \<and> bit (byte_of (bs ! (n div 8))) (n mod 8)"
proof (induction bs arbitrary: n)
  case (Cons c cs)
  show ?case
  proof (cases "n < 8")
    case True
    then show ?thesis by (simp add: bit_simps)
  next
    case False
    then have "n div 8 = Suc ((n - 8) div 8)" "(n - 8) mod 8 = n mod 8"
      by (simp_all add: le_div_geq le_mod_geq)
    with False Cons.IH [of "n - 8"] show ?thesis
      by (auto simp: bit_simps dest: bit_byte_of)
  qed
qed simp

lemma load_le_xor:
  "length a = length b \<Longrightarrow> load_le (map2 xor_byte a b) = load_le a XOR load_le b"
  by (rule bit_word_eqI) (auto simp: load_le_bit bit_xor_iff byte_of_xor)

lemma load_xor: "length a = length b \<Longrightarrow> load le (map2 xor_byte a b) = load le a XOR load le b"
  by (simp add: load_def load_le_xor rev_map zip_rev [symmetric])

lemma store_load:
  assumes "length bs = 8"
  shows "store le (load le bs) = bs"
proof -
  have "map (\<lambda>i. char_of (unat (drop_bit (8 * i) (load_le cs)) mod 256)) [0..<8] = cs" if cs: "length cs = 8" for cs
  proof (rule nth_equalityI)
    fix i
    assume "i < length (map (\<lambda>i. char_of (unat (drop_bit (8 * i) (load_le cs)) mod 256) :: char) [0..<8])"
    then have i: "i < 8" by simp
    have "take_bit 8 (unat (drop_bit (8 * i) (load_le cs))) = byte_of (cs ! i)"
    proof (rule bit_eqI)
      fix n
      have "(8 * i + n) div 8 = i" "(8 * i + n) mod 8 = n" "8 * i + n < 64" if "n < 8" using that i by auto
      then show "bit (take_bit 8 (unat (drop_bit (8 * i) (load_le cs)))) n = bit (byte_of (cs ! i)) n"
        using bit_byte_of [of "cs ! i" n] cs i
        by (cases "n < 8") (auto simp: bit_take_bit_iff bit_simps load_le_bit)
    qed
    then have "unat (drop_bit (8 * i) (load_le cs)) mod 256 = byte_of (cs ! i)" by (simp add: take_bit_eq_mod)
    then have "char_of (unat (drop_bit (8 * i) (load_le cs))) = cs ! i" by (metis char_of_byte_of char_of_mod_256)
    with i show "map (\<lambda>i. char_of (unat (drop_bit (8 * i) (load_le cs)) mod 256)) [0..<8] ! i = cs ! i"
      by simp
  qed (use cs in simp)
  then show ?thesis using assms by (simp add: store_def load_def Let_def)
qed

lemma mask_word:
  assumes "length b = 8"
  shows "store le (load le b XOR load le (map (\<lambda>i. key ! ((pos + i) mod 4)) [0..<8])) = fst (mask_each key pos b)"
proof -
  let ?k = "map (\<lambda>i. key ! ((pos + i) mod 4)) [0..<8]"
  have "map2 xor_byte b ?k = fst (mask_each key pos b)"
    using assms by (intro nth_equalityI) (simp_all add: mask_each_eq)
  moreover have "store le (load le (map2 xor_byte b ?k)) = map2 xor_byte b ?k" using assms by (intro store_load) simp
  moreover have "load le (map2 xor_byte b ?k) = load le b XOR load le ?k" using assms by (intro load_xor) simp
  ultimately show ?thesis by metis
qed

lemma mask_words_each:
  assumes "length b = 8 * n"
  shows "mask_words le (load le (map (\<lambda>i. key ! ((pos + i) mod 4)) [0..<8])) n b = fst (mask_each key pos b)"
  using assms
proof (induction n arbitrary: b)
  case (Suc n)
  have "fst (mask_each key pos (take 8 b @ drop 8 b)) =
      fst (mask_each key pos (take 8 b)) @ fst (mask_each key (pos + 8) (drop 8 b))"
    using Suc.prems by (subst mask_each_append) simp
  also have "fst (mask_each key (pos + 8) (drop 8 b)) = fst (mask_each key pos (drop 8 b))"
    by (rule mask_each_mod) (simp add: mod_add_eq [symmetric])
  finally show ?case using Suc by (simp add: mask_word)
qed simp

lemma maskBytes_each: "maskBytes le addr key pos b = (fst (mask_each key pos b), (pos + length b) mod 4)"
proof (cases "length b < 16")
  case False
  define n where "n = (if addr mod 8 \<noteq> 0 then 8 - addr mod 8 else 0)"
  define c where "c = drop n b"
  define m where "m = length c div 8 * 8"
  have "n \<le> 8" by (simp add: n_def)
  with False have "n \<le> length b" by simp
  then have b: "length (take n b) = n" "length b = n + length c" by (simp_all add: c_def)
  have c: "length (take m c) = 8 * (length c div 8)" by (simp add: m_def)
  have "maskBytes le addr key pos b = (fst (mask_each key pos (take n b)) @
      mask_words le (load le (map (\<lambda>i. key ! ((pos + n + i) mod 4)) [0..<8])) (length c div 8) (take m c) @
      fst (mask_each key (pos + n) (drop m c)), (pos + n + length (drop m c)) mod 4)"
    using False b unfolding maskBytes_def Let_def n_def [symmetric] c_def [symmetric] m_def [symmetric]
    by (simp add: case_prod_unfold)
  also have "mask_words le (load le (map (\<lambda>i. key ! ((pos + n + i) mod 4)) [0..<8])) (length c div 8) (take m c) =
      fst (mask_each key (pos + n) (take m c))"
    using c by (rule mask_words_each)
  also have "fst (mask_each key (pos + n) (drop m c)) = fst (mask_each key (pos + n + length (take m c)) (drop m c))"
  proof (unfold c, rule mask_each_mod)
    have "pos + n + 8 * (length c div 8) = pos + n + 4 * (2 * (length c div 8))" by simp
    then show "(pos + n) mod 4 = (pos + n + 8 * (length c div 8)) mod 4" by (metis mod_mult_self2)
  qed
  also have "fst (mask_each key (pos + n) (take m c)) @ fst (mask_each key (pos + n + length (take m c)) (drop m c)) =
      fst (mask_each key (pos + n) c)"
    using mask_each_append [of key "pos + n" "take m c" "drop m c"] by simp
  also have "fst (mask_each key pos (take n b)) @ fst (mask_each key (pos + n) c) = fst (mask_each key pos b)"
    using mask_each_append [of key pos "take n b" "drop n b"] b(1) by (simp add: c_def)
  also have "(pos + n + length (drop m c)) mod 4 = (pos + length b) mod 4"
  proof -
    have "length c = m + length (drop m c)" by (simp add: m_def)
    then have "pos + length b = pos + n + length (drop m c) + 4 * (2 * (length c div 8))" by (simp add: b m_def)
    then show ?thesis by (metis mod_mult_self2)
  qed
  finally show ?thesis .
qed (simp add: maskBytes_def case_prod_unfold)

end
