(* ===== verification/Ws_Conn.thy ===== *)
theory Ws_Conn
  imports Ws_Mask
begin

text \<open>
  A connection of \<open>gorilla/websocket\<close> (conn.go, json.go), on either side, without compression, which
  the server's upgraders do not switch on. \<open>wc_in\<close> are the bytes that will still arrive, after which a
  read fails with \<open>wc_inEnd\<close>; \<open>wc_out\<close> are those that were sent; \<open>wc_netFaults\<close> says of the coming writes to
  the network which fail, and how many bytes of them get out. Deadlines and the wait for the write lock are not
  modelled; the writer of a message is closed before the next one is begun. The frame types are those of
  RFC 6455; an error of the network is a \<open>NetErr\<close>, temporary or not.
\<close>

section \<open>Frames, errors, the state of a connection\<close>

abbreviation (input) continuationFrame :: nat where "continuationFrame \<equiv> 0"
abbreviation (input) TextFrame :: nat where "TextFrame \<equiv> 1"
abbreviation (input) BinaryFrame :: nat where "BinaryFrame \<equiv> 2"
abbreviation (input) CloseFrame :: nat where "CloseFrame \<equiv> 8"
abbreviation (input) PingFrame :: nat where "PingFrame \<equiv> 9"
abbreviation (input) PongFrame :: nat where "PongFrame \<equiv> 10"

abbreviation (input) CloseNormalClosure :: int where "CloseNormalClosure \<equiv> 1000"
abbreviation (input) CloseProtocolError :: int where "CloseProtocolError \<equiv> 1002"
abbreviation (input) CloseNoStatusReceived :: int where "CloseNoStatusReceived \<equiv> 1005"
abbreviation (input) CloseAbnormalClosure :: int where "CloseAbnormalClosure \<equiv> 1006"
abbreviation (input) CloseMessageTooBig :: int where "CloseMessageTooBig \<equiv> 1009"

text \<open>\<open>NetErr\<close> is a \<open>net.Error\<close> with its text, and whether it is temporary and a timeout.\<close>

datatype ws_error = IoEOF | NetErr string bool bool | CloseErr int string | ErrCloseSent | ErrReadLimit
  | ErrBadWriteOpCode | ErrWriteClosed | ErrInvalidControlFrame | WsError string | RepeatedRead

definition errUnexpectedEOF :: ws_error where
  "errUnexpectedEOF = CloseErr CloseAbnormalClosure ''unexpected EOF''"

record ws_conn =
  wc_isServer :: bool
  wc_in :: string
  wc_inEnd :: ws_error
  wc_out :: string
  wc_netFaults :: "(nat \<times> ws_error) option list"
  wc_writeErr :: "ws_error option"
  wc_spare :: nat
  wc_rand :: "nat \<Rightarrow> 32 word"
  wc_drawn :: nat
  wc_readErr :: "ws_error option"
  wc_readErrCount :: nat
  wc_readRemaining :: i64
  wc_readFinal :: bool
  wc_readLength :: i64
  wc_readLimit :: i64
  wc_readMaskPos :: nat
  wc_readMaskKey :: string
  wc_messageReader :: bool

text \<open>How much payload the write buffer holds: \<open>newConn\<close> makes it the header and at least one byte.\<close>

definition wc_capacity :: "ws_conn \<Rightarrow> nat" where
  "wc_capacity c = wc_spare c + 1"

text \<open>
  A new connection on a network with the bytes \<open>inp\<close> to come and the given faults; the buffer and its
  size come from the upgrader, \<open>rand\<close> is what the mask keys are drawn from.
\<close>

definition newConn :: "bool \<Rightarrow> int \<Rightarrow> (nat \<Rightarrow> 32 word) \<Rightarrow> (nat \<times> ws_error) option list \<Rightarrow> string \<Rightarrow> ws_error \<Rightarrow> ws_conn" where
  "newConn isServer writeBufferSize rand faults inp inEnd =
     \<lparr>wc_isServer = isServer, wc_in = inp, wc_inEnd = inEnd, wc_out = [], wc_netFaults = faults, wc_writeErr = None,
      wc_spare = (if writeBufferSize \<le> 0 then 4096 else nat writeBufferSize) - 1, wc_rand = rand, wc_drawn = 0,
      wc_readErr = None, wc_readErrCount = 0, wc_readRemaining = 0, wc_readFinal = True, wc_readLength = 0,
      wc_readLimit = 0, wc_readMaskPos = 0, wc_readMaskKey = replicate 4 CHR 0x00, wc_messageReader = False\<rparr>"

definition SetReadLimit :: "i64 \<Rightarrow> ws_conn \<Rightarrow> ws_conn" where
  "SetReadLimit limit c = c\<lparr>wc_readLimit := limit\<rparr>"

definition newMaskKey :: "ws_conn \<Rightarrow> string \<times> ws_conn" where
  "newMaskKey c = (let n = wc_rand c (wc_drawn c) in
     (map (\<lambda>i. char_of (unat (drop_bit (8 * i) n) mod 256)) [0..<4], c\<lparr>wc_drawn := wc_drawn c + 1\<rparr>))"

fun hideTempErr :: "ws_error \<Rightarrow> ws_error" where
  "hideTempErr (NetErr msg True timeout) = NetErr msg False timeout"
| "hideTempErr e = e"

definition isControl :: "nat \<Rightarrow> bool" where
  "isControl t \<longleftrightarrow> t = CloseFrame \<or> t = PingFrame \<or> t = PongFrame"

definition isData :: "nat \<Rightarrow> bool" where
  "isData t \<longleftrightarrow> t = TextFrame \<or> t = BinaryFrame"

definition isValidReceivedCloseCode :: "int \<Rightarrow> bool" where
  "isValidReceivedCloseCode code \<longleftrightarrow>
     code \<in> {1000, 1001, 1002, 1003, 1007, 1008, 1009, 1010, 1011, 1012, 1013} \<or> (3000 \<le> code \<and> code \<le> 4999)"

text \<open>Where the buffer lies in memory does not matter (\<open>maskBytes_each\<close>).\<close>

definition mask_at :: "string \<Rightarrow> nat \<Rightarrow> string \<Rightarrow> string \<times> nat" where
  "mask_at key pos b = maskBytes True 0 key pos b"

definition FormatCloseMessage :: "int \<Rightarrow> string \<Rightarrow> string" where
  "FormatCloseMessage closeCode text =
     (if closeCode = CloseNoStatusReceived then [] else low_bytes 2 (nat (closeCode mod 65536)) @ text)"

section \<open>Writing\<close>

definition writeFatal :: "ws_error \<Rightarrow> ws_conn \<Rightarrow> ws_error \<times> ws_conn" where
  "writeFatal err c = (let err = hideTempErr err in
     (err, if wc_writeErr c = None then c\<lparr>wc_writeErr := Some err\<rparr> else c))"

definition net_write :: "string \<Rightarrow> ws_conn \<Rightarrow> ws_error option \<times> ws_conn" where
  "net_write bs c = (case wc_netFaults c of
     Some (n, e) # fs \<Rightarrow> (Some e, c\<lparr>wc_out := wc_out c @ take n bs, wc_netFaults := fs\<rparr>)
   | fs \<Rightarrow> (None, c\<lparr>wc_out := wc_out c @ bs, wc_netFaults := tl fs\<rparr>))"

text \<open>\<open>Conn.write\<close> of a whole frame, for which the code passes two buffers.\<close>

definition conn_write :: "nat \<Rightarrow> string \<Rightarrow> ws_conn \<Rightarrow> ws_error option \<times> ws_conn" where
  "conn_write frameType buf c =
     (case wc_writeErr c of Some e \<Rightarrow> (Some e, c)
      | None \<Rightarrow>
          (case net_write buf c of
             (Some e, c) \<Rightarrow> (case writeFatal e c of (e, c) \<Rightarrow> (Some e, c))
           | (None, c) \<Rightarrow> (None, if frameType = CloseFrame then snd (writeFatal ErrCloseSent c) else c)))"

definition finalBit :: "bool \<Rightarrow> nat" where "finalBit b = (if b then 128 else 0)"

definition WriteControl :: "nat \<Rightarrow> string \<Rightarrow> ws_conn \<Rightarrow> ws_error option \<times> ws_conn" where
  "WriteControl messageType data c =
     (if \<not> isControl messageType then (Some ErrBadWriteOpCode, c)
      else if 125 < length data then (Some ErrInvalidControlFrame, c)
      else
        let b0 = char_of (messageType OR 128); b1 = char_of (length data OR finalBit (\<not> wc_isServer c)) in
        if wc_isServer c then conn_write messageType (b0 # b1 # data) c
        else (case newMaskKey c of (key, c) \<Rightarrow>
          conn_write messageType (b0 # b1 # key @ fst (mask_at key 0 data)) c))"

text \<open>A writer of a message: the payload it has buffered, the type of the frame to come, and its error.\<close>

record message_writer =
  mw_buf :: string
  mw_frameType :: nat
  mw_err :: "ws_error option"

definition beginMessage :: "nat \<Rightarrow> ws_conn \<Rightarrow> ws_error + message_writer" where
  "beginMessage messageType c =
     (if \<not> isControl messageType \<and> \<not> isData messageType then Inl ErrBadWriteOpCode
      else case wc_writeErr c of Some e \<Rightarrow> Inl e
      | None \<Rightarrow> Inr \<lparr>mw_buf = [], mw_frameType = messageType, mw_err = None\<rparr>)"

definition endMessage :: "ws_error \<Rightarrow> message_writer \<Rightarrow> message_writer" where
  "endMessage err w = (if mw_err w \<noteq> None then w else w\<lparr>mw_err := Some err\<rparr>)"

text \<open>The header up to the mask key: type and flags, then the length in one, three or nine bytes.\<close>

definition frame_header :: "bool \<Rightarrow> bool \<Rightarrow> nat \<Rightarrow> nat \<Rightarrow> string" where
  "frame_header isServer final frameType n =
     (let b0 = char_of (frameType OR finalBit final); b1 = finalBit (\<not> isServer) in
      if 65536 \<le> n then b0 # char_of (b1 OR 127) # low_bytes 8 n
      else if 125 < n then b0 # char_of (b1 OR 126) # low_bytes 2 n
      else [b0, char_of (b1 OR n)])"

definition flushFrame :: "bool \<Rightarrow> string \<Rightarrow> message_writer \<Rightarrow> ws_conn \<Rightarrow>
    ws_error option \<times> message_writer \<times> ws_conn" where
  "flushFrame final extra w c =
     (let n = length (mw_buf w) + length extra in
      if isControl (mw_frameType w) \<and> (\<not> final \<or> 125 < n)
      then (Some ErrInvalidControlFrame, endMessage ErrInvalidControlFrame w, c)
      else
        let header = frame_header (wc_isServer c) final (mw_frameType w) n;
            (frame, c) = (if wc_isServer c then (header @ mw_buf w, c)
              else case newMaskKey c of (key, c) \<Rightarrow> (header @ key @ fst (mask_at key 0 (mw_buf w)), c)) in
        if \<not> wc_isServer c \<and> extra \<noteq> [] then
          (case writeFatal (WsError ''websocket: internal error, extra used in client mode'') c of (e, c) \<Rightarrow>
             (Some e, endMessage e w, c))
        else
        (case conn_write (mw_frameType w) (frame @ extra) c of
           (Some e, c) \<Rightarrow> (Some e, endMessage e w, c)
         | (None, c) \<Rightarrow>
             if final then (None, endMessage ErrWriteClosed w, c)
             else (None, w\<lparr>mw_buf := [], mw_frameType := continuationFrame\<rparr>, c)))"

lemma flushFrame_more: "flushFrame False extra w c = (None, w', c') \<Longrightarrow>
    mw_buf w' = [] \<and> wc_spare c' = wc_spare c"
  by (auto simp: flushFrame_def Let_def newMaskKey_def conn_write_def net_write_def writeFatal_def
      split: if_splits prod.splits option.splits list.splits)

text \<open>\<open>ncopy\<close>: room for the next bytes, after a frame that has become full was sent.\<close>

definition ncopy :: "nat \<Rightarrow> message_writer \<Rightarrow> ws_conn \<Rightarrow> (ws_error + nat) \<times> message_writer \<times> ws_conn" where
  "ncopy m w c =
     (if wc_capacity c \<le> length (mw_buf w) then
        (case flushFrame False [] w c of
           (Some e, w, c) \<Rightarrow> (Inl e, w, c)
         | (None, w, c) \<Rightarrow> (Inr (min m (wc_capacity c - length (mw_buf w))), w, c))
      else (Inr (min m (wc_capacity c - length (mw_buf w))), w, c))"

lemma ncopy_pos: "ncopy m w c = (Inr n, w', c') \<Longrightarrow> 0 < m \<Longrightarrow> 0 < n"
  by (auto simp: ncopy_def wc_capacity_def dest: flushFrame_more split: if_splits prod.splits option.splits)

function write_loop :: "string \<Rightarrow> message_writer \<Rightarrow> ws_conn \<Rightarrow> ws_error option \<times> message_writer \<times> ws_conn" where
  "write_loop p w c =
     (if p = [] then (None, w, c)
      else case ncopy (length p) w c of
        (Inl e, w, c) \<Rightarrow> (Some e, w, c)
      | (Inr n, w, c) \<Rightarrow> write_loop (drop n p) (w\<lparr>mw_buf := mw_buf w @ take n p\<rparr>) c)"
  by pat_completeness auto
termination
  by (relation "measure (\<lambda>(p, w, c). length p)") (auto dest: ncopy_pos [OF sym])

declare write_loop.simps [simp del]

definition writer_Write :: "string \<Rightarrow> message_writer \<Rightarrow> ws_conn \<Rightarrow> ws_error option \<times> message_writer \<times> ws_conn" where
  "writer_Write p w c = (case mw_err w of Some e \<Rightarrow> (Some e, w, c)
     | None \<Rightarrow>
         if 2 * (wc_capacity c + 14) < length p \<and> wc_isServer c then flushFrame False p w c
         else write_loop p w c)"

definition writer_WriteString :: "string \<Rightarrow> message_writer \<Rightarrow> ws_conn \<Rightarrow> ws_error option \<times> message_writer \<times> ws_conn" where
  "writer_WriteString p w c = (case mw_err w of Some e \<Rightarrow> (Some e, w, c) | None \<Rightarrow> write_loop p w c)"

definition writer_Close :: "message_writer \<Rightarrow> ws_conn \<Rightarrow> ws_error option \<times> message_writer \<times> ws_conn" where
  "writer_Close w c = (case mw_err w of Some e \<Rightarrow> (Some e, w, c) | None \<Rightarrow> flushFrame True [] w c)"

definition WriteMessage :: "nat \<Rightarrow> string \<Rightarrow> ws_conn \<Rightarrow> ws_error option \<times> ws_conn" where
  "WriteMessage messageType data c =
     (case beginMessage messageType c of Inl e \<Rightarrow> (Some e, c)
      | Inr w \<Rightarrow>
          if wc_isServer c then
            (case flushFrame True (drop (wc_capacity c) data) (w\<lparr>mw_buf := take (wc_capacity c) data\<rparr>) c of
               (e, w, c) \<Rightarrow> (e, c))
          else
            (case writer_Write data w c of
               (Some e, w, c) \<Rightarrow> (Some e, c)
             | (None, w, c) \<Rightarrow> (case writer_Close w c of (e, w, c) \<Rightarrow> (e, c))))"

text \<open>\<open>Conn.WriteJSON\<close> of a value whose encoding is \<open>text\<close>; the encoder adds a newline and writes once.\<close>

definition conn_WriteJSON :: "string \<Rightarrow> ws_conn \<Rightarrow> ws_error option \<times> ws_conn" where
  "conn_WriteJSON text c =
     (case beginMessage TextFrame c of Inl e \<Rightarrow> (Some e, c)
      | Inr w \<Rightarrow>
          (case writer_Write (text @ [CHR 0x0A]) w c of (err1, w, c) \<Rightarrow>
             (case writer_Close w c of (err2, w, c) \<Rightarrow> (if err1 \<noteq> None then err1 else err2, c))))"

section \<open>Reading frames\<close>

text \<open>\<open>Conn.read\<close>: exactly \<open>n\<close> bytes; an end of the stream inside them is unexpected.\<close>

definition conn_read :: "nat \<Rightarrow> ws_conn \<Rightarrow> (ws_error + string) \<times> ws_conn" where
  "conn_read n c =
     (if length (wc_in c) < n
      then (Inl (if wc_inEnd c = IoEOF then errUnexpectedEOF else wc_inEnd c), c\<lparr>wc_in := []\<rparr>)
      else (Inr (take n (wc_in c)), c\<lparr>wc_in := drop n (wc_in c)\<rparr>))"

text \<open>Goes on with a result, or stops at an error.\<close>

definition and_then :: "(ws_error + 'a) \<times> ws_conn \<Rightarrow> ('a \<Rightarrow> ws_conn \<Rightarrow> (ws_error + 'b) \<times> ws_conn) \<Rightarrow>
    (ws_error + 'b) \<times> ws_conn" where
  "and_then r f = (case r of (Inl e, c) \<Rightarrow> (Inl e, c) | (Inr a, c) \<Rightarrow> f a c)"

definition setReadRemaining :: "i64 \<Rightarrow> ws_conn \<Rightarrow> (ws_error + unit) \<times> ws_conn" where
  "setReadRemaining n c = (if sint n < 0 then (Inl ErrReadLimit, c) else (Inr (), c\<lparr>wc_readRemaining := n\<rparr>))"

definition handleProtocolError :: "string \<Rightarrow> ws_conn \<Rightarrow> (ws_error + 'a) \<times> ws_conn" where
  "handleProtocolError message c =
     (let data = take 125 (FormatCloseMessage CloseProtocolError message) in
      (Inl (WsError (''websocket: '' @ message)), snd (WriteControl CloseFrame data c)))"

fun join_errors :: "string list \<Rightarrow> string" where
  "join_errors [] = []"
| "join_errors [e] = e"
| "join_errors (e # es) = e @ '', '' @ join_errors es"

text \<open>The handlers that \<open>newConn\<close> sets, and the server's pong handler, which moves the read deadline.\<close>

definition handlePing :: "string \<Rightarrow> ws_conn \<Rightarrow> ws_error option \<times> ws_conn" where
  "handlePing message c = (case WriteControl PongFrame message c of (err, c) \<Rightarrow>
     (case err of Some ErrCloseSent \<Rightarrow> None | Some (NetErr msg True timeout) \<Rightarrow> None | e \<Rightarrow> e, c))"

definition handlePong :: "string \<Rightarrow> ws_conn \<Rightarrow> ws_error option \<times> ws_conn" where
  "handlePong message c = (None, c)"

definition handleClose :: "int \<Rightarrow> string \<Rightarrow> ws_conn \<Rightarrow> ws_error option \<times> ws_conn" where
  "handleClose code text c = (None, snd (WriteControl CloseFrame (FormatCloseMessage code []) c))"

text \<open>Step 1: the rest of the previous frame.\<close>

definition skip_rest :: "ws_conn \<Rightarrow> (ws_error + unit) \<times> ws_conn" where
  "skip_rest c =
     (if 0 < sint (wc_readRemaining c) then
        (let n = nat (sint (wc_readRemaining c)) in
         if length (wc_in c) < n then (Inl (wc_inEnd c), c\<lparr>wc_in := []\<rparr>)
         else (Inr (), c\<lparr>wc_in := drop n (wc_in c)\<rparr>))
      else (Inr (), c))"

text \<open>Step 2: the first two bytes, with all that is wrong about them and the flag for more frames.\<close>

definition type_errors :: "nat \<Rightarrow> bool \<Rightarrow> i64 \<Rightarrow> bool \<Rightarrow> string list \<times> bool" where
  "type_errors frameType final remaining readFinal =
     (if isControl frameType then
        ((if 125 < sint remaining then [''len > 125 for control''] else []) @
         (if \<not> final then [''FIN not set on control''] else []), readFinal)
      else if isData frameType then (if \<not> readFinal then [''data before FIN''] else [], final)
      else if frameType = continuationFrame then (if readFinal then [''continuation after FIN''] else [], final)
      else ([''bad opcode '' @ show_int (int frameType)], readFinal))"

definition read_header :: "ws_conn \<Rightarrow> (ws_error + nat \<times> bool) \<times> ws_conn" where
  "read_header c = and_then (conn_read 2 c) (\<lambda>p c.
     let b0 = byte_of (p ! 0); b1 = byte_of (p ! 1);
         frameType = b0 mod 16; final = bit b0 7; masked = bit b1 7;
         c = c\<lparr>wc_readRemaining := word_of_nat (b1 mod 128)\<rparr>;
         (errs, fin) = type_errors frameType final (wc_readRemaining c) (wc_readFinal c);
         errors = (if bit b0 6 then [''RSV1 set''] else []) @ (if bit b0 5 then [''RSV2 set''] else []) @
           (if bit b0 4 then [''RSV3 set''] else []) @ errs @
           (if masked \<noteq> wc_isServer c then [''bad MASK''] else []);
         c = c\<lparr>wc_readFinal := fin\<rparr>
     in if errors \<noteq> [] then handleProtocolError (join_errors errors) c else (Inr (frameType, masked), c))"

text \<open>Steps 3 and 4: the length and the mask key.\<close>

definition read_length :: "ws_conn \<Rightarrow> (ws_error + unit) \<times> ws_conn" where
  "read_length c =
     (if wc_readRemaining c = 126 then
        and_then (conn_read 2 c) (\<lambda>p. setReadRemaining (word_of_nat (SetBytes p)))
      else if wc_readRemaining c = 127 then
        and_then (conn_read 8 c) (\<lambda>p. setReadRemaining (word_of_nat (SetBytes p)))
      else (Inr (), c))"

definition read_mask :: "bool \<Rightarrow> ws_conn \<Rightarrow> (ws_error + unit) \<times> ws_conn" where
  "read_mask masked c =
     (if masked then and_then (conn_read 4 (c\<lparr>wc_readMaskPos := 0\<rparr>)) (\<lambda>p c. (Inr (), c\<lparr>wc_readMaskKey := p\<rparr>))
      else (Inr (), c))"

text \<open>Step 5: the frames that carry a message, and the read limit.\<close>

definition enter_data :: "nat \<Rightarrow> ws_conn \<Rightarrow> (ws_error + nat) \<times> ws_conn" where
  "enter_data frameType c =
     (let c = c\<lparr>wc_readLength := wc_readLength c + wc_readRemaining c\<rparr> in
      if sint (wc_readLength c) < 0 then (Inl ErrReadLimit, c)
      else if 0 < sint (wc_readLimit c) \<and> sint (wc_readLimit c) < sint (wc_readLength c) then
        (Inl ErrReadLimit, snd (WriteControl CloseFrame (FormatCloseMessage CloseMessageTooBig []) c))
      else (Inr frameType, c))"

text \<open>Steps 6 and 7: control frames.\<close>

definition control_payload :: "ws_conn \<Rightarrow> (ws_error + string) \<times> ws_conn" where
  "control_payload c =
     (if 0 < sint (wc_readRemaining c) then
        (case conn_read (nat (sint (wc_readRemaining c))) c of (r, c) \<Rightarrow>
           and_then (r, c\<lparr>wc_readRemaining := 0\<rparr>) (\<lambda>payload c.
             (Inr (if wc_isServer c then fst (mask_at (wc_readMaskKey c) 0 payload) else payload), c)))
      else (Inr [], c))"

definition after_handler :: "nat \<Rightarrow> ws_error option \<times> ws_conn \<Rightarrow> (ws_error + nat) \<times> ws_conn" where
  "after_handler frameType r = (case r of (Some e, c) \<Rightarrow> (Inl e, c) | (None, c) \<Rightarrow> (Inr frameType, c))"

definition handle_control :: "nat \<Rightarrow> string \<Rightarrow> ws_conn \<Rightarrow> (ws_error + nat) \<times> ws_conn" where
  "handle_control frameType payload c =
     (if frameType = PongFrame then after_handler frameType (handlePong payload c)
      else if frameType = PingFrame then after_handler frameType (handlePing payload c)
      else
        let closeCode = (if 2 \<le> length payload then int (SetBytes (take 2 payload)) else CloseNoStatusReceived);
            closeText = drop 2 payload in
        if 2 \<le> length payload \<and> \<not> isValidReceivedCloseCode closeCode then
          handleProtocolError (''bad close code '' @ show_int closeCode) c
        else if 2 \<le> length payload \<and> valid_utf8_text closeText \<noteq> closeText then
          handleProtocolError ''invalid utf8 payload in close frame'' c
        else (case handleClose closeCode closeText c of
            (Some e, c) \<Rightarrow> (Inl e, c) | (None, c) \<Rightarrow> (Inl (CloseErr closeCode closeText), c)))"

definition advanceFrame :: "ws_conn \<Rightarrow> (ws_error + nat) \<times> ws_conn" where
  "advanceFrame c =
     and_then (skip_rest c) (\<lambda>_ c.
     and_then (read_header c) (\<lambda>(frameType, masked) c.
     and_then (read_length c) (\<lambda>_ c.
     and_then (read_mask masked c) (\<lambda>_ c.
       if frameType = continuationFrame \<or> isData frameType then enter_data frameType c
       else and_then (control_payload c) (handle_control frameType)))))"

section \<open>Each frame uses up input\<close>

lemma and_then_Inr:
  "and_then r f = (Inr b, c') \<longleftrightarrow> (\<exists>a c. r = (Inr a, c) \<and> f a c = (Inr b, c'))"
  by (auto simp: and_then_def split: prod.splits sum.splits)

lemma conn_read_Inr: "conn_read n c = (Inr p, c') \<longleftrightarrow>
    n \<le> length (wc_in c) \<and> p = take n (wc_in c) \<and> c' = c\<lparr>wc_in := drop n (wc_in c)\<rparr>"
  by (auto simp: conn_read_def)

text \<open>What writing leaves alone: everything that is read.\<close>

definition same_reading :: "ws_conn \<Rightarrow> ws_conn \<Rightarrow> bool" where
  "same_reading c c' \<longleftrightarrow> wc_in c' = wc_in c \<and> wc_inEnd c' = wc_inEnd c \<and> wc_isServer c' = wc_isServer c \<and>
     wc_readErr c' = wc_readErr c \<and> wc_readRemaining c' = wc_readRemaining c \<and> wc_readFinal c' = wc_readFinal c \<and>
     wc_readLength c' = wc_readLength c \<and> wc_readLimit c' = wc_readLimit c \<and>
     wc_readMaskPos c' = wc_readMaskPos c \<and> wc_readMaskKey c' = wc_readMaskKey c \<and>
     wc_messageReader c' = wc_messageReader c"

lemma same_reading_write: "conn_write t b c = (r, c') \<Longrightarrow> same_reading c c'"
  by (auto simp: conn_write_def net_write_def writeFatal_def same_reading_def Let_def
      split: option.splits prod.splits list.splits if_splits)

lemma same_reading_control: "same_reading c (snd (WriteControl t d c))"
proof -
  have "same_reading c c'" if "same_reading d c'" "same_reading c d" for d c'
    using that by (simp add: same_reading_def)
  moreover have "same_reading c (snd (newMaskKey c))" by (simp add: newMaskKey_def Let_def same_reading_def)
  moreover have "same_reading c c" by (simp add: same_reading_def)
  moreover have "same_reading d (snd (conn_write t b d))" for b d
    by (rule same_reading_write [of t b d "fst (conn_write t b d)"]) simp
  ultimately show ?thesis
    unfolding WriteControl_def Let_def by (simp add: case_prod_unfold) blast
qed

lemma handle_control_reading:
  assumes "handle_control t payload c = (Inr t', c')"
  shows "same_reading c c' \<and> t' = t"
proof -
  have "same_reading c (snd (handlePing payload c))"
    using same_reading_control [of c PongFrame payload] by (auto simp: handlePing_def split: prod.split)
  moreover have "same_reading c c" by (simp add: same_reading_def)
  ultimately show ?thesis
    using assms by (auto simp: handle_control_def after_handler_def handlePong_def handleProtocolError_def Let_def
        split: if_splits prod.splits option.splits)
qed

lemma advance_uses:
  assumes "advanceFrame c = (Inr t, c')"
  shows "length (wc_in c') < length (wc_in c)"
proof -
  from assms obtain c1 t' m c2 c3 c4 where 1: "skip_rest c = (Inr (), c1)" "read_header c1 = (Inr (t', m), c2)"
    "read_length c2 = (Inr (), c3)" "read_mask m c3 = (Inr (), c4)"
    and 2: "(if t' = continuationFrame \<or> isData t' then enter_data t' c4
       else and_then (control_payload c4) (handle_control t')) = (Inr t, c')"
    unfolding advanceFrame_def by (auto simp: and_then_Inr)
  have "length (wc_in c1) \<le> length (wc_in c)"
    using 1(1) by (auto simp: skip_rest_def Let_def split: if_splits)
  moreover have "length (wc_in c2) < length (wc_in c1)"
    using 1(2) by (auto simp: read_header_def and_then_Inr conn_read_Inr Let_def handleProtocolError_def
        split: if_splits prod.splits)
  moreover have "length (wc_in c3) \<le> length (wc_in c2)"
    using 1(3) by (auto simp: read_length_def and_then_Inr conn_read_Inr setReadRemaining_def split: if_splits)
  moreover have "length (wc_in c4) \<le> length (wc_in c3)"
    using 1(4) by (auto simp: read_mask_def and_then_Inr conn_read_Inr split: if_splits)
  moreover have "length (wc_in c') \<le> length (wc_in c4)"
    using 2 by (auto simp: enter_data_def control_payload_def and_then_Inr conn_read_Inr Let_def same_reading_def
        dest!: handle_control_reading split: if_splits prod.splits sum.splits)
  ultimately show ?thesis by simp
qed

section \<open>Reading messages\<close>

text \<open>The failed reads are counted; the thousandth panics.\<close>

definition read_failed :: "ws_error \<Rightarrow> ws_conn \<Rightarrow> (ws_error + nat) \<times> ws_conn" where
  "read_failed e c = (let c = c\<lparr>wc_readErrCount := wc_readErrCount c + 1\<rparr> in
     (Inl (if 1000 \<le> wc_readErrCount c then RepeatedRead else e), c))"

function next_loop :: "ws_conn \<Rightarrow> (ws_error + nat) \<times> ws_conn" where
  "next_loop c = (case wc_readErr c of
     Some e \<Rightarrow> read_failed e c
   | None \<Rightarrow>
       (case advanceFrame c of
          (Inl e, c) \<Rightarrow> read_failed (hideTempErr e) (c\<lparr>wc_readErr := Some (hideTempErr e)\<rparr>)
        | (Inr frameType, c) \<Rightarrow>
            if isData frameType then (Inr frameType, c\<lparr>wc_messageReader := True\<rparr>) else next_loop c))"
  by pat_completeness auto
termination
  by (relation "measure (\<lambda>c. length (wc_in c))") (auto dest: advance_uses [OF sym])

declare next_loop.simps [simp del]

definition NextReader :: "ws_conn \<Rightarrow> (ws_error + nat) \<times> ws_conn" where
  "NextReader c = next_loop (c\<lparr>wc_messageReader := False, wc_readLength := 0\<rparr>)"

text \<open>
  \<open>messageReader.Read\<close> into a buffer of \<open>n\<close> bytes, when the network has \<open>k\<close> bytes at hand, at least one of each;
  \<open>read_some\<close> is its part inside a frame. The end of the message is the error \<open>IoEOF\<close>.
\<close>

definition unexpected_end :: "ws_error \<Rightarrow> ws_error" where
  "unexpected_end e = (if e = IoEOF then errUnexpectedEOF else e)"

definition read_some :: "nat \<Rightarrow> nat \<Rightarrow> ws_conn \<Rightarrow> string \<times> ws_conn" where
  "read_some n k c =
     (let m = min (max 1 n) (min (max 1 k) (nat (sint (wc_readRemaining c))));
          b = take m (wc_in c);
          c = c\<lparr>wc_in := drop m (wc_in c)\<rparr>;
          (b, c) = (if wc_isServer c then
              (case mask_at (wc_readMaskKey c) (wc_readMaskPos c) b of (b, pos) \<Rightarrow> (b, c\<lparr>wc_readMaskPos := pos\<rparr>))
            else (b, c))
      in (b, c\<lparr>wc_readRemaining := wc_readRemaining c - word_of_nat (length b)\<rparr>))"

function reader_Read :: "nat \<Rightarrow> nat \<Rightarrow> ws_conn \<Rightarrow> (ws_error + string) \<times> ws_conn" where
  "reader_Read n k c =
     (if \<not> wc_messageReader c then (Inl IoEOF, c)
      else case wc_readErr c of
        Some e \<Rightarrow> (Inl (unexpected_end e), c)
      | None \<Rightarrow>
          if 0 < sint (wc_readRemaining c) then
            (if wc_in c = [] then
               (let e = unexpected_end (hideTempErr (wc_inEnd c)) in (Inl e, c\<lparr>wc_readErr := Some e\<rparr>))
             else (case read_some n k c of (b, c) \<Rightarrow> (Inr b, c)))
          else if wc_readFinal c then (Inl IoEOF, c\<lparr>wc_messageReader := False\<rparr>)
          else
            (case advanceFrame c of
               (Inl e, c) \<Rightarrow> (Inl (unexpected_end (hideTempErr e)), c\<lparr>wc_readErr := Some (hideTempErr e)\<rparr>)
             | (Inr frameType, c) \<Rightarrow>
                 if isData frameType then
                   (let e = WsError ''websocket: internal error, unexpected text or binary in Reader''
                    in (Inl e, c\<lparr>wc_readErr := Some e\<rparr>))
                 else reader_Read n k c))"
  by pat_completeness auto
termination
  by (relation "measure (\<lambda>(n, k, c). length (wc_in c))") (auto dest: advance_uses [OF sym])

declare reader_Read.simps [simp del]

text \<open>What a read that succeeds can have done: read inside a frame, or gone on to the next one first.\<close>

lemma Read_Inr:
  assumes "reader_Read n k c = (Inr b, c')"
  obtains (inside) "0 < sint (wc_readRemaining c)" "wc_in c \<noteq> []" "read_some n k c = (b, c')"
  | (next_frame) t d where "\<not> 0 < sint (wc_readRemaining c)" "advanceFrame c = (Inr t, d)" "\<not> isData t"
      "reader_Read n k d = (Inr b, c')"
proof (cases "0 < sint (wc_readRemaining c)")
  case True
  with assms show thesis
    by (intro inside) (auto simp: reader_Read.simps [of n k c] Let_def split: if_splits option.splits prod.splits)
next
  case False
  obtain r d where "advanceFrame c = (r, d)" by force
  with assms False show thesis
    by (cases r)
      (auto simp: reader_Read.simps [of n k c] Let_def intro: next_frame split: if_splits option.splits)
qed

lemma some_taken: "0 < sint (r :: i64) \<Longrightarrow> s \<noteq> [] \<Longrightarrow>
    length s - min (max (Suc 0) n) (min (max (Suc 0) k) (nat (sint r))) < length s"
  by (cases s) auto

lemma read_uses: "reader_Read n k c = (Inr b, c') \<Longrightarrow> length (wc_in c') < length (wc_in c)"
proof (induction "length (wc_in c)" arbitrary: c rule: less_induct)
  case less
  from less.prems show ?case
  proof (cases rule: Read_Inr)
    case inside
    then show ?thesis
      by (auto simp: read_some_def Let_def intro: some_taken split: if_splits prod.splits)
  next
    case (next_frame t d)
    from advance_uses [OF next_frame(2)] less.hyps [OF _ next_frame(4)] show ?thesis by simp
  qed
qed

text \<open>
  \<open>ioutil.ReadAll\<close> and \<open>ReadMessage\<close>; \<open>sizes i\<close> are the room in the buffer and the bytes at hand at the
  \<open>i\<close>th call of \<open>Read\<close>.
\<close>

function read_all :: "(nat \<Rightarrow> nat \<times> nat) \<Rightarrow> nat \<Rightarrow> ws_conn \<Rightarrow> string \<times> ws_error option \<times> ws_conn" where
  "read_all sizes i c = (case reader_Read (fst (sizes i)) (snd (sizes i)) c of
     (Inl e, c) \<Rightarrow> ([], if e = IoEOF then None else Some e, c)
   | (Inr b, c) \<Rightarrow> (case read_all sizes (i + 1) c of (bs, e, c) \<Rightarrow> (b @ bs, e, c)))"
  by pat_completeness auto
termination
  by (relation "measure (\<lambda>(sizes, i, c). length (wc_in c))") (auto dest: read_uses [OF sym])

declare read_all.simps [simp del]

definition ReadMessage :: "(nat \<Rightarrow> nat \<times> nat) \<Rightarrow> ws_conn \<Rightarrow> (ws_error + nat \<times> string \<times> ws_error option) \<times> ws_conn" where
  "ReadMessage sizes c = (case NextReader c of
     (Inl e, c) \<Rightarrow> (Inl e, c)
   | (Inr messageType, c) \<Rightarrow>
       (case read_all sizes 0 c of (p, e, c) \<Rightarrow> (Inr (messageType, p, e), c)))"

end
