(* ===== verification/Ws_Stream.thy ===== *)
theory Ws_Stream
  imports Ws_Conn "HOL-Library.Sublist"
begin

text \<open>
  What one side of a connection sends as messages, the other side receives: the bytes of a message as
  frames, that a writer produces such bytes and that a reader takes them apart again. And what bounds the
  read limit sets, for any input.
\<close>

section \<open>The bytes of frames and messages\<close>

definition frame_bytes :: "bool \<Rightarrow> bool \<Rightarrow> nat \<Rightarrow> string \<Rightarrow> string \<Rightarrow> string" where
  "frame_bytes srv final t key payload = frame_header srv final t (length payload) @
     (if srv then payload else key @ fst (mask_each key 0 payload))"

text \<open>A message in frames of the given payloads: the type is on the first, the final bit on the last.\<close>

fun message_bytes :: "bool \<Rightarrow> nat \<Rightarrow> (string \<times> string) list \<Rightarrow> string" where
  "message_bytes srv t [] = []"
| "message_bytes srv t [(key, p)] = frame_bytes srv True t key p"
| "message_bytes srv t ((key, p) # q # qs) = frame_bytes srv False t key p @ message_bytes srv continuationFrame (q # qs)"

lemma mask_at_each: "mask_at key pos b = (fst (mask_each key pos b), (pos + length b) mod 4)"
  by (simp add: mask_at_def maskBytes_each)

section \<open>Reading one frame\<close>

lemma sint_of_nat: "n < 2 ^ 63 \<Longrightarrow> sint (word_of_nat n :: i64) = int n"
  using sint_i64_of_int [of "int n"] by simp

lemma sint_i64_add:
  assumes "- (2 ^ 63) \<le> sint x + sint y" "sint x + sint y < 2 ^ 63"
  shows "sint ((x :: i64) + y) = sint x + sint y"
proof -
  have "sint (x + y) = signed_take_bit 63 (sint x + sint y)" by (simp add: sint_word_ariths)
  also have "\<dots> = sint x + sint y" using assms by (intro signed_take_bit_int_eq_self) simp_all
  finally show ?thesis .
qed

lemma first_byte:
  assumes "t \<in> {0, 1, 2}"
  shows "byte_of (char_of (t OR finalBit f)) mod 16 = t" "bit (byte_of (char_of (t OR finalBit f))) 7 = f"
    "\<not> bit (byte_of (char_of (t OR finalBit f))) 6" "\<not> bit (byte_of (char_of (t OR finalBit f))) 5"
    "\<not> bit (byte_of (char_of (t OR finalBit f))) 4"
  using assms by (auto simp: byte_of_def finalBit_def bit_0)

lemma second_byte:
  assumes "n < 128"
  shows "byte_of (char_of (finalBit m OR n)) mod 128 = n" "bit (byte_of (char_of (finalBit m OR n))) 7 = m"
proof -
  have n: "take_bit 7 n = n" using assms by (simp add: take_bit_nat_eq_self)
  have b: "byte_of (char_of k) = take_bit 8 k" for k by (simp add: byte_of_def take_bit_eq_mod)
  have high: "take_bit 7 (finalBit m) = 0" by (simp add: finalBit_def take_bit_eq_mod)
  have "take_bit 7 (take_bit 8 (finalBit m OR n)) = n" using high by (simp add: take_bit_or n)
  then show "byte_of (char_of (finalBit m OR n)) mod 128 = n" by (simp only: b) (simp add: take_bit_eq_mod)
  have "\<not> bit n 7" using n by (metis bit_take_bit_iff less_irrefl)
  then show "bit (byte_of (char_of (finalBit m OR n))) 7 = m"
    by (simp add: b bit_take_bit_iff bit_or_iff finalBit_def bit_0)
qed

text \<open>The header of a frame, with the length it announces first.\<close>

definition first_length :: "nat \<Rightarrow> nat" where
  "first_length n = (if 65536 \<le> n then 127 else if 125 < n then 126 else n)"

definition more_length :: "nat \<Rightarrow> string" where
  "more_length n = (if 65536 \<le> n then low_bytes 8 n else if 125 < n then low_bytes 2 n else [])"

lemma frame_header_parts: "frame_header srv final t n =
    [char_of (t OR finalBit final), char_of (finalBit (\<not> srv) OR first_length n)] @ more_length n"
  by (simp add: frame_header_def first_length_def more_length_def Let_def)

lemma first_length_less: "first_length n < 128"
  by (simp add: first_length_def)

lemma read_header_data:
  assumes "t \<in> {0, 1, 2}" "wc_isServer c \<noteq> srv" "(t = 0) = (\<not> wc_readFinal c)"
    and "wc_in c = [char_of (t OR finalBit final), char_of (finalBit (\<not> srv) OR first_length n)] @ rest"
  shows "read_header c = (Inr (t, \<not> srv), c\<lparr>wc_in := rest, wc_readRemaining := word_of_nat (first_length n), wc_readFinal := final\<rparr>)"
proof -
  have "\<not> isControl t" "isData t \<longleftrightarrow> t \<noteq> 0" using assms(1) by (auto simp: isControl_def isData_def)
  then show ?thesis
    using assms first_byte [OF assms(1), of final] second_byte [OF first_length_less [of n], of "\<not> srv"]
    unfolding read_header_def
    by (simp add: and_then_def conn_read_def Let_def type_errors_def)
qed

lemma read_length_data:
  assumes "n < 2 ^ 63" "wc_readRemaining c = word_of_nat (first_length n)" "wc_in c = more_length n @ rest"
  shows "read_length c = (Inr (), c\<lparr>wc_in := rest, wc_readRemaining := word_of_nat n\<rparr>)"
proof -
  have w: "(word_of_nat k = (word_of_nat m :: i64)) \<longleftrightarrow> k = m" if "k < 128" "m < 128" for k m
  proof
    assume eq: "word_of_nat k = (word_of_nat m :: i64)"
    have "int k = sint (word_of_nat k :: i64)" "int m = sint (word_of_nat m :: i64)"
      using that by (simp_all add: sint_of_nat)
    then show "k = m" unfolding eq by simp
  qed simp
  have "word_of_nat (first_length n) = (126 :: i64) \<longleftrightarrow> first_length n = 126"
    "word_of_nat (first_length n) = (127 :: i64) \<longleftrightarrow> first_length n = 127"
    using w [OF first_length_less [of n], of 126] w [OF first_length_less [of n], of 127] by simp_all
  moreover have "SetBytes (low_bytes 2 n) = n" if "n < 65536" using that by (intro SetBytes_low) simp
  moreover have "SetBytes (low_bytes 8 n) = n" using assms(1) by (intro SetBytes_low) simp
  ultimately show ?thesis
    using assms unfolding read_length_def
    by (auto simp: and_then_def conn_read_def setReadRemaining_def sint_of_nat first_length_def more_length_def)
qed

lemma advance_data:
  assumes "sint (wc_readRemaining c) = 0" "t \<in> {0, 1, 2}" "wc_isServer c \<noteq> srv" "(t = 0) = (\<not> wc_readFinal c)"
    and "wc_in c = frame_bytes srv final t key payload @ rest" "length key = 4"
    and "0 \<le> sint (wc_readLength c)" "sint (wc_readLength c) + int (length payload) < 2 ^ 63"
    and "0 < sint (wc_readLimit c) \<longrightarrow> sint (wc_readLength c) + int (length payload) \<le> sint (wc_readLimit c)"
  shows "advanceFrame c = (Inr t, c\<lparr>
      wc_in := (if srv then payload else fst (mask_each key 0 payload)) @ rest,
      wc_readRemaining := word_of_nat (length payload), wc_readFinal := final,
      wc_readMaskPos := (if srv then wc_readMaskPos c else 0), wc_readMaskKey := (if srv then wc_readMaskKey c else key),
      wc_readLength := wc_readLength c + word_of_nat (length payload)\<rparr>)"
proof -
  let ?n = "length payload"
  have "int ?n < 2 ^ 63" using assms(7,8) by linarith
  then have n: "?n < 2 ^ 63" by (simp add: less_int_code)
  have skip: "skip_rest c = (Inr (), c)" using assms(1) by (simp add: skip_rest_def)
  have "sint (wc_readLength c + word_of_nat ?n) = sint (wc_readLength c) + int ?n"
    using assms(7,8) n by (subst sint_i64_add) (simp_all add: sint_of_nat)
  moreover have "t = continuationFrame \<or> isData t" using assms(2) by (auto simp: isData_def)
  moreover have header: "read_header c = (Inr (t, \<not> srv), c\<lparr>
      wc_in := more_length ?n @ (if srv then payload else key @ fst (mask_each key 0 payload)) @ rest,
      wc_readRemaining := word_of_nat (first_length ?n), wc_readFinal := final\<rparr>)"
    using assms(2-5) by (intro read_header_data) (simp_all add: frame_bytes_def frame_header_parts)
  moreover have "read_length (c\<lparr>wc_in := more_length ?n @ r, wc_readRemaining := word_of_nat (first_length ?n), wc_readFinal := final\<rparr>) =
      (Inr (), c\<lparr>wc_in := r, wc_readRemaining := word_of_nat ?n, wc_readFinal := final\<rparr>)" for r
    using n by (subst read_length_data) (auto intro!: ws_conn.equality)
  ultimately show ?thesis
    using skip assms(6-9) unfolding advanceFrame_def
    by (auto simp: and_then_def read_mask_def conn_read_def enter_data_def Let_def)
qed

section \<open>Reading a message\<close>

text \<open>
  In the middle of a message: \<open>cur\<close> is what is left of the current frame, unmasked, \<open>fs\<close> are the frames to
  come, and \<open>rest\<close> what follows the message.
\<close>

definition all_keys :: "(string \<times> string) list \<Rightarrow> bool" where
  "all_keys fs \<longleftrightarrow> (\<forall>(key, p) \<in> set fs. length key = 4)"

definition reading :: "ws_conn \<Rightarrow> string \<Rightarrow> (string \<times> string) list \<Rightarrow> string \<Rightarrow> bool" where
  "reading c cur fs rest \<longleftrightarrow> wc_messageReader c \<and> wc_readErr c = None \<and>
     wc_in c = (if wc_isServer c then fst (mask_each (wc_readMaskKey c) (wc_readMaskPos c) cur) else cur) @
       message_bytes (\<not> wc_isServer c) continuationFrame fs @ rest \<and>
     sint (wc_readRemaining c) = int (length cur) \<and> (wc_readFinal c \<longleftrightarrow> fs = []) \<and> all_keys fs \<and>
     0 \<le> sint (wc_readLength c) \<and> sint (wc_readLength c) + int (length (concat (map snd fs))) < 2 ^ 63 \<and>
     (0 < sint (wc_readLimit c) \<longrightarrow> sint (wc_readLength c) + int (length (concat (map snd fs))) \<le> sint (wc_readLimit c))"

text \<open>After a message: ready for the next one.\<close>

definition between :: "ws_conn \<Rightarrow> string \<Rightarrow> bool" where
  "between c rest \<longleftrightarrow> wc_readErr c = None \<and> wc_in c = rest \<and> sint (wc_readRemaining c) = 0 \<and> wc_readFinal c"

definition same_side :: "ws_conn \<Rightarrow> ws_conn \<Rightarrow> bool" where
  "same_side c c' \<longleftrightarrow> wc_isServer c' = wc_isServer c \<and> wc_readLimit c' = wc_readLimit c"

lemma frames_Cons:
  "message_bytes srv t ((key, p) # fs) = frame_bytes srv (fs = []) t key p @ message_bytes srv continuationFrame fs"
  by (cases fs) simp_all

text \<open>A frame begins, at the start of the message or after another frame of it.\<close>

lemma begin_frame:
  assumes "sint (wc_readRemaining c) = 0" "t \<in> {0, 1, 2}" "(t = 0) = (\<not> wc_readFinal c)"
    and "wc_in c = message_bytes (\<not> wc_isServer c) t ((key, p) # fs) @ rest" "all_keys ((key, p) # fs)"
    and "0 \<le> sint (wc_readLength c)"
      "sint (wc_readLength c) + int (length (concat (map snd ((key, p) # fs)))) < 2 ^ 63"
      "0 < sint (wc_readLimit c) \<longrightarrow>
        sint (wc_readLength c) + int (length (concat (map snd ((key, p) # fs)))) \<le> sint (wc_readLimit c)"
    and "wc_readErr c = None"
  obtains c' where "advanceFrame c = (Inr t, c')" "reading (c'\<lparr>wc_messageReader := True\<rparr>) p fs rest"
    "same_side c c'" "wc_messageReader c' = wc_messageReader c"
proof -
  let ?srv = "\<not> wc_isServer c"
  define c' where "c' = c\<lparr>
      wc_in := (if ?srv then p else fst (mask_each key 0 p)) @ message_bytes ?srv continuationFrame fs @ rest,
      wc_readRemaining := word_of_nat (length p), wc_readFinal := (fs = []),
      wc_readMaskPos := (if ?srv then wc_readMaskPos c else 0), wc_readMaskKey := (if ?srv then wc_readMaskKey c else key),
      wc_readLength := wc_readLength c + word_of_nat (length p)\<rparr>"
  have key: "length key = 4" "all_keys fs" using assms(5) by (auto simp: all_keys_def)
  have "advanceFrame c = (Inr t, c')"
    unfolding c'_def using assms key(1)
    by (intro advance_data) (auto simp: frames_Cons)
  moreover have "int (length p) < 2 ^ 63" using assms(6,7) by simp
  then have "length p < 2 ^ 63" by (simp add: less_int_code)
  then have "sint (word_of_nat (length p) :: i64) = int (length p)" by (rule sint_of_nat)
  moreover from this have "sint (wc_readLength c + word_of_nat (length p)) = sint (wc_readLength c) + int (length p)"
    using assms(6,7) by (subst sint_i64_add) simp_all
  ultimately show ?thesis
    using assms(6-9) key(2) by (intro that [of c']) (auto simp: c'_def reading_def same_side_def)
qed

text \<open>Reading inside a frame, however much of it comes at once.\<close>

lemma mask_each_take_drop:
  assumes "m \<le> length b"
  shows "fst (mask_each key pos b) = fst (mask_each key pos (take m b)) @ fst (mask_each key ((pos + m) mod 4) (drop m b))"
proof -
  have "fst (mask_each key ((pos + m) mod 4) (drop m b)) = fst (mask_each key (pos + m) (drop m b))"
    by (rule mask_each_mod) simp
  then show ?thesis using mask_each_append [of key pos "take m b" "drop m b"] assms by simp
qed

text \<open>What is on the wire of a frame's payload.\<close>

definition wire :: "ws_conn \<Rightarrow> nat \<Rightarrow> string \<Rightarrow> string" where
  "wire c pos b = (if wc_isServer c then fst (mask_each (wc_readMaskKey c) pos b) else b)"

lemma wire_length [simp]: "length (wire c pos b) = length b"
  by (simp add: wire_def)

lemma wire_take_drop: "m \<le> length b \<Longrightarrow>
    wire c pos b = wire c pos (take m b) @ wire c ((pos + m) mod 4) (drop m b)"
  by (simp add: wire_def mask_each_take_drop)

lemma reading_wire: "reading c cur fs rest \<longleftrightarrow> wc_messageReader c \<and> wc_readErr c = None \<and>
     wc_in c = wire c (wc_readMaskPos c) cur @ message_bytes (\<not> wc_isServer c) continuationFrame fs @ rest \<and>
     sint (wc_readRemaining c) = int (length cur) \<and> (wc_readFinal c \<longleftrightarrow> fs = []) \<and> all_keys fs \<and>
     0 \<le> sint (wc_readLength c) \<and> sint (wc_readLength c) + int (length (concat (map snd fs))) < 2 ^ 63 \<and>
     (0 < sint (wc_readLimit c) \<longrightarrow> sint (wc_readLength c) + int (length (concat (map snd fs))) \<le> sint (wc_readLimit c))"
  by (simp only: reading_def wire_def)

lemma read_some_wire:
  assumes "wc_in c = wire c (wc_readMaskPos c) cur @ r" "sint (wc_readRemaining c) = int (length cur)"
    and m: "m = min (max 1 n) (min (max 1 k) (length cur))"
  shows "read_some n k c = (take m cur, c\<lparr>wc_in := wire c ((wc_readMaskPos c + m) mod 4) (drop m cur) @ r,
      wc_readMaskPos := (if wc_isServer c then (wc_readMaskPos c + m) mod 4 else wc_readMaskPos c),
      wc_readRemaining := wc_readRemaining c - word_of_nat m\<rparr>)"
proof -
  have le: "m \<le> length cur" by (simp add: m)
  have "wc_in c = wire c (wc_readMaskPos c) (take m cur) @ wire c ((wc_readMaskPos c + m) mod 4) (drop m cur) @ r"
    using assms(1) wire_take_drop [OF le, of c "wc_readMaskPos c"] by simp
  then have "take m (wc_in c) = wire c (wc_readMaskPos c) (take m cur)"
    "drop m (wc_in c) = wire c ((wc_readMaskPos c + m) mod 4) (drop m cur) @ r"
    using le by simp_all
  moreover have "min (max 1 n) (min (max 1 k) (nat (sint (wc_readRemaining c)))) = m"
    using assms(2) by (simp add: m)
  ultimately show ?thesis
    using le unfolding read_some_def by (simp add: Let_def mask_at_each wire_def mask_twice)
qed

lemma Read_inside:
  assumes "reading c cur fs rest" "cur \<noteq> []"
  obtains b cur' c' where "reader_Read n k c = (Inr b, c')" "reading c' cur' fs rest" "same_side c c'" "cur = b @ cur'"
proof -
  define m where "m = min (max 1 n) (min (max 1 k) (length cur))"
  have m: "m \<le> length cur" by (simp add: m_def)
  note r = assms(1) [unfolded reading_wire]
  have rem: "sint (wc_readRemaining c) = int (length cur)" "0 < sint (wc_readRemaining c)"
    using r assms(2) by simp_all
  have "length (wc_in c) \<ge> length cur" using r by simp
  then have "wc_in c \<noteq> []" using assms(2) by auto
  let ?tail = "message_bytes (\<not> wc_isServer c) continuationFrame fs @ rest"
  define c' where "c' = c\<lparr>wc_in := wire c ((wc_readMaskPos c + m) mod 4) (drop m cur) @ ?tail,
      wc_readMaskPos := (if wc_isServer c then (wc_readMaskPos c + m) mod 4 else wc_readMaskPos c),
      wc_readRemaining := wc_readRemaining c - word_of_nat m\<rparr>"
  have "read_some n k c = (take m cur, c')"
    unfolding c'_def by (rule read_some_wire) (use r in \<open>simp_all add: m_def\<close>)
  then have read: "reader_Read n k c = (Inr (take m cur), c')"
    using conjunct1 [OF r] r [THEN conjunct2, THEN conjunct1] rem(2) \<open>wc_in c \<noteq> []\<close>
    by (subst reader_Read.simps) simp
  have cur: "int (length cur) < 2 ^ 63" using rem(1) sint_i64_bounds(2) [of "wc_readRemaining c"] by simp
  then have "sint (word_of_nat m :: i64) = int m" using m by (intro sint_of_nat) (simp add: less_int_code)
  then have "sint (wc_readRemaining c - word_of_nat m) = int (length (drop m cur))"
    using m rem(1) cur by (subst sint_i64_minus) simp_all
  then have "reading c' (drop m cur) fs rest"
    using r unfolding reading_wire by (simp add: c'_def wire_def)
  with read show ?thesis by (intro that [of "take m cur" c' "drop m cur"]) (simp_all add: same_side_def c'_def)
qed

lemma Read_reading:
  assumes "reading c cur fs rest"
  shows "(cur = [] \<and> concat (map snd fs) = [] \<and>
      (\<exists>c'. reader_Read n k c = (Inl IoEOF, c') \<and> between c' rest \<and> same_side c c')) \<or>
    (\<exists>b cur' fs' c'. reader_Read n k c = (Inr b, c') \<and> reading c' cur' fs' rest \<and> same_side c c' \<and>
       cur @ concat (map snd fs) = b @ cur' @ concat (map snd fs'))"
  using assms
proof (induction fs arbitrary: c cur)
  case Nil
  show ?case
  proof (cases "cur = []")
    case True
    with Nil have "reader_Read n k c = (Inl IoEOF, c\<lparr>wc_messageReader := False\<rparr>)"
      by (subst reader_Read.simps) (simp add: reading_def)
    with Nil True show ?thesis by (simp add: reading_def between_def same_side_def)
  next
    case False
    from Read_inside [OF Nil False, of n k] show ?thesis by (metis append.assoc)
  qed
next
  case (Cons f fs)
  show ?case
  proof (cases "cur = []")
    case True
    obtain key p where f: "f = (key, p)" by force
    have c: "sint (wc_readRemaining c) = 0" "\<not> wc_readFinal c" "wc_readErr c = None" "wc_messageReader c"
      using Cons.prems True by (simp_all add: reading_def)
    obtain c' where c': "advanceFrame c = (Inr continuationFrame, c')" "reading (c'\<lparr>wc_messageReader := True\<rparr>) p fs rest"
      "same_side c c'" "wc_messageReader c' = wc_messageReader c"
      by (rule begin_frame [of c 0 key p fs rest]) (use Cons.prems True c in \<open>auto simp: reading_def f\<close>)
    from c'(4) c(4) have same: "c'\<lparr>wc_messageReader := True\<rparr> = c'" by simp
    have "reader_Read n k c = reader_Read n k c'"
      using c c'(1) by (subst reader_Read.simps) (simp add: isData_def)
    moreover have "same_side c d" if "same_side c' d" for d using that c'(3) by (simp add: same_side_def)
    ultimately show ?thesis
      using Cons.IH [OF c'(2)] unfolding same by (simp add: True f) blast
  next
    case False
    from Read_inside [OF Cons.prems False, of n k] show ?thesis by (metis append.assoc)
  qed
qed

lemma read_all_reading:
  "reading c cur fs rest \<Longrightarrow>
   \<exists>c'. read_all sizes i c = (cur @ concat (map snd fs), None, c') \<and> between c' rest \<and> same_side c c'"
proof (induction sizes i c arbitrary: cur fs rule: read_all.induct)
  case (1 sizes i c)
  from Read_reading [OF 1(2), of "fst (sizes i)" "snd (sizes i)"] show ?case
  proof (elim disjE exE conjE)
    fix c'
    assume "cur = []" "concat (map snd fs) = []" "between c' rest" "same_side c c'"
      "reader_Read (fst (sizes i)) (snd (sizes i)) c = (Inl IoEOF, c')"
    then show ?thesis by (subst read_all.simps) simp
  next
    fix b cur' fs' c'
    assume r: "reader_Read (fst (sizes i)) (snd (sizes i)) c = (Inr b, c')" "reading c' cur' fs' rest" "same_side c c'"
      "cur @ concat (map snd fs) = b @ cur' @ concat (map snd fs')"
    from 1(1) [OF r(1) [symmetric] refl r(2)] obtain d where "read_all sizes (i + 1) c' = (cur' @ concat (map snd fs'), None, d)"
      "between d rest" "same_side c' d" by blast
    with r show ?thesis by (subst read_all.simps) (simp add: same_side_def)
  qed
qed

text \<open>A whole message.\<close>

lemma ReadMessage_message:
  assumes "between c (message_bytes (\<not> wc_isServer c) t fs @ rest)" "isData t" "fs \<noteq> []" "all_keys fs"
    and "length (concat (map snd fs)) < 2 ^ 63"
    and "0 < sint (wc_readLimit c) \<longrightarrow> int (length (concat (map snd fs))) \<le> sint (wc_readLimit c)"
  obtains c' where "ReadMessage sizes c = (Inr (t, concat (map snd fs), None), c')" "between c' rest" "same_side c c'"
proof -
  obtain key p gs where fs: "fs = (key, p) # gs" using assms(3) by (cases fs) auto
  let ?c = "c\<lparr>wc_messageReader := False, wc_readLength := 0\<rparr>"
  have t: "t \<in> {0, 1, 2}" "t \<noteq> 0" using assms(2) by (auto simp: isData_def)
  have less: "int (length (concat (map snd fs))) < 2 ^ 63" using assms(5) by (simp add: less_int_code)
  obtain d where d: "advanceFrame ?c = (Inr t, d)" "reading (d\<lparr>wc_messageReader := True\<rparr>) p gs rest" "same_side ?c d"
    by (rule begin_frame [of ?c t key p gs rest])
      (use assms(1,4,6) less t in \<open>simp_all add: between_def fs\<close>)
  have "NextReader c = (Inr t, d\<lparr>wc_messageReader := True\<rparr>)"
    unfolding NextReader_def using assms(1,2) d(1) by (subst next_loop.simps) (simp add: between_def)
  moreover obtain c' where "read_all sizes 0 (d\<lparr>wc_messageReader := True\<rparr>) = (p @ concat (map snd gs), None, c')"
    "between c' rest" "same_side (d\<lparr>wc_messageReader := True\<rparr>) c'"
    using read_all_reading [OF d(2)] by blast
  ultimately show ?thesis using d(3) by (intro that [of c']) (simp_all add: ReadMessage_def fs same_side_def)
qed

section \<open>Writing a message\<close>

text \<open>A connection that works: no error so far, no fault to come.\<close>

definition sends :: "ws_conn \<Rightarrow> bool" where
  "sends c \<longleftrightarrow> wc_writeErr c = None \<and> wc_netFaults c = []"

text \<open>The frames of a message that is not finished.\<close>

fun open_frames :: "bool \<Rightarrow> nat \<Rightarrow> (string \<times> string) list \<Rightarrow> string" where
  "open_frames srv t [] = []"
| "open_frames srv t ((key, p) # fs) = frame_bytes srv False t key p @ open_frames srv continuationFrame fs"

lemma message_bytes_snoc:
  "message_bytes srv t (fs @ [(key, p)]) = open_frames srv t fs @ frame_bytes srv True (if fs = [] then t else 0) key p"
proof (induction fs arbitrary: t)
  case (Cons f fs)
  obtain k q where "f = (k, q)" by force
  with Cons.IH [of 0] show ?case by (simp add: frames_Cons)
qed simp

lemma flush_sends:
  assumes "sends c" "\<not> isControl (mw_frameType w)" "wc_isServer c \<or> extra = []"
  obtains c' key where "flushFrame final extra w c = (None,
      if final then endMessage ErrWriteClosed w else w\<lparr>mw_buf := [], mw_frameType := continuationFrame\<rparr>, c')"
    "wc_out c' = wc_out c @ frame_bytes (wc_isServer c) final (mw_frameType w) key (mw_buf w @ extra)"
    "sends c'" "wc_isServer c' = wc_isServer c" "length key = 4"
proof -
  let ?h = "frame_header (wc_isServer c) final (mw_frameType w) (length (mw_buf w) + length extra)"
  have t: "mw_frameType w \<noteq> CloseFrame" using assms(2) by (simp add: isControl_def)
  show thesis
  proof (cases "wc_isServer c")
    case True
    show ?thesis
      by (rule that [of "c\<lparr>wc_out := wc_out c @ ?h @ mw_buf w @ extra\<rparr>" "replicate 4 CHR 0x00"])
        (use assms True t in \<open>auto simp: flushFrame_def Let_def conn_write_def net_write_def sends_def frame_bytes_def\<close>)
  next
    case False
    obtain key d where key: "newMaskKey c = (key, d)" by force
    then have d: "length key = 4" "d = c\<lparr>wc_drawn := wc_drawn d\<rparr>" by (auto simp: newMaskKey_def Let_def)
    show ?thesis
      by (rule that [of "d\<lparr>wc_out := wc_out d @ ?h @ key @ fst (mask_each key 0 (mw_buf w))\<rparr>" key])
        (use assms False t key d in \<open>auto simp: flushFrame_def Let_def conn_write_def net_write_def sends_def
          frame_bytes_def mask_at_each newMaskKey_def\<close>)
  qed
qed

text \<open>Between two calls of a writer: the frames \<open>fs\<close> are out, the rest of \<open>data\<close> is in its buffer.\<close>

definition writing :: "ws_conn \<Rightarrow> nat \<Rightarrow> string \<Rightarrow> message_writer \<Rightarrow> ws_conn \<Rightarrow> bool" where
  "writing c t data w d \<longleftrightarrow> (\<exists>fs. wc_out d = wc_out c @ open_frames (wc_isServer c) t fs \<and> all_keys fs \<and>
     concat (map snd fs) @ mw_buf w = data \<and> mw_frameType w = (if fs = [] then t else continuationFrame)) \<and>
     mw_err w = None \<and> sends d \<and> wc_isServer d = wc_isServer c"

text \<open>After the message: it is out, in one frame or more.\<close>

definition written :: "ws_conn \<Rightarrow> nat \<Rightarrow> string \<Rightarrow> ws_conn \<Rightarrow> bool" where
  "written c t data d \<longleftrightarrow> (\<exists>fs. wc_out d = wc_out c @ message_bytes (wc_isServer c) t fs \<and> fs \<noteq> [] \<and>
     all_keys fs \<and> concat (map snd fs) = data) \<and> sends d \<and> wc_isServer d = wc_isServer c"

lemma open_frames_snoc:
  "open_frames srv t (fs @ [(key, p)]) = open_frames srv t fs @ frame_bytes srv False (if fs = [] then t else 0) key p"
proof (induction fs arbitrary: t)
  case (Cons f fs)
  obtain k q where "f = (k, q)" by force
  with Cons.IH [of 0] show ?case by simp
qed simp

lemma begin_writing: "sends c \<Longrightarrow> isData t \<Longrightarrow> \<exists>w. beginMessage t c = Inr w \<and> writing c t [] w c \<and> mw_buf w = [] \<and> mw_frameType w = t \<and> mw_err w = None"
  by (auto simp: beginMessage_def sends_def writing_def all_keys_def intro: exI [of _ "[]"])

lemma flush_writing:
  assumes "writing c t data w d" "isData t" "wc_isServer c \<or> extra = []"
  shows "\<exists>w' d'. flushFrame False extra w d = (None, w', d') \<and> writing c t (data @ extra) w' d' \<and> mw_buf w' = []"
    and "\<exists>w' d'. flushFrame True extra w d = (None, w', d') \<and> written c t (data @ extra) d'"
proof -
  obtain fs where fs: "wc_out d = wc_out c @ open_frames (wc_isServer c) t fs" "all_keys fs"
    "concat (map snd fs) @ mw_buf w = data" "mw_frameType w = (if fs = [] then t else continuationFrame)"
    using assms(1) by (auto simp: writing_def)
  have d: "sends d" "wc_isServer d = wc_isServer c" "mw_err w = None" using assms(1) by (auto simp: writing_def)
  have t: "\<not> isControl (mw_frameType w)" using fs(4) assms(2) by (auto simp: isData_def isControl_def)
  have extra: "wc_isServer d \<or> extra = []" using assms(3) d(2) by simp
  let ?t = "if fs = [] then t else continuationFrame"
  obtain d' key where "flushFrame False extra w d = (None, w\<lparr>mw_buf := [], mw_frameType := continuationFrame\<rparr>, d')"
      "wc_out d' = wc_out d @ frame_bytes (wc_isServer c) False ?t key (mw_buf w @ extra)"
      "sends d'" "wc_isServer d' = wc_isServer d" "length key = 4"
    using flush_sends [OF d(1) t extra, of False] unfolding d(2) fs(4) by auto
  then show "\<exists>w' d'. flushFrame False extra w d = (None, w', d') \<and> writing c t (data @ extra) w' d' \<and> mw_buf w' = []"
    unfolding writing_def using fs d
    by (auto simp: open_frames_snoc all_keys_def intro!: exI [of _ "fs @ [(key, mw_buf w @ extra)]"])
  obtain d' key where "flushFrame True extra w d = (None, endMessage ErrWriteClosed w, d')"
      "wc_out d' = wc_out d @ frame_bytes (wc_isServer c) True ?t key (mw_buf w @ extra)"
      "sends d'" "wc_isServer d' = wc_isServer d" "length key = 4"
    using flush_sends [OF d(1) t extra, of True] unfolding d(2) fs(4) by auto
  then show "\<exists>w' d'. flushFrame True extra w d = (None, w', d') \<and> written c t (data @ extra) d'"
    unfolding written_def using fs d
    by (auto simp: message_bytes_snoc all_keys_def intro!: exI [of _ "fs @ [(key, mw_buf w @ extra)]"])
qed

lemma ncopy_writing:
  assumes "writing c t data w d" "isData t"
  shows "\<exists>n w' d'. ncopy m w d = (Inr n, w', d') \<and> writing c t data w' d'"
  using flush_writing(1) [OF assms, of "[]"] assms(1)
  by (cases "wc_capacity d \<le> length (mw_buf w)") (auto simp: ncopy_def)

lemma loop_writing:
  "writing c t data w d \<Longrightarrow> isData t \<Longrightarrow> \<exists>w' d'. write_loop p w d = (None, w', d') \<and> writing c t (data @ p) w' d'"
proof (induction p w d arbitrary: data rule: write_loop.induct)
  case (1 p w d)
  show ?case
  proof (cases "p = []")
    case True
    with 1 show ?thesis by (subst write_loop.simps) simp
  next
    case False
    from ncopy_writing [OF 1(2,3), of "length p"] obtain n w' d' where
      n: "ncopy (length p) w d = (Inr n, w', d')" "writing c t data w' d'" by blast
    have "writing c t (data @ take n p) (w'\<lparr>mw_buf := mw_buf w' @ take n p\<rparr>) d'"
      using n(2) by (auto simp: writing_def)
    from 1(1) [OF False n(1) [symmetric] refl refl this 1(3)] show ?thesis
      using n(1) False by (subst write_loop.simps) simp
  qed
qed

lemma Write_writing:
  assumes "writing c t data w d" "isData t"
  shows "\<exists>w' d'. writer_Write p w d = (None, w', d') \<and> writing c t (data @ p) w' d'"
proof -
  have "mw_err w = None" "wc_isServer d = wc_isServer c" using assms(1) by (simp_all add: writing_def)
  then show ?thesis
    using flush_writing(1) [OF assms, of p] loop_writing [OF assms, of p] by (auto simp: writer_Write_def)
qed

lemma Close_written:
  assumes "writing c t data w d" "isData t"
  shows "\<exists>w' d'. writer_Close w d = (None, w', d') \<and> written c t data d'"
proof -
  have "mw_err w = None" using assms(1) by (simp add: writing_def)
  then show ?thesis using flush_writing(2) [OF assms, of "[]"] by (auto simp: writer_Close_def)
qed

lemma WriteMessage_written:
  assumes "sends c" "isData t"
  shows "\<exists>d. WriteMessage t data c = (None, d) \<and> written c t data d"
proof -
  from begin_writing [OF assms] obtain w where w: "beginMessage t c = Inr w" "writing c t [] w c"
    "mw_buf w = []" "mw_frameType w = t" "mw_err w = None" by blast
  show ?thesis
  proof (cases "wc_isServer c")
    case True
    have "writing c t (take (wc_capacity c) data) (w\<lparr>mw_buf := take (wc_capacity c) data\<rparr>) c"
      unfolding writing_def using w assms(1) by (auto intro!: exI [of _ "[]"] simp: all_keys_def)
    from flush_writing(2) [OF this assms(2), of "drop (wc_capacity c) data"] w(1) True show ?thesis
      by (auto simp: WriteMessage_def)
  next
    case False
    from Write_writing [OF w(2) assms(2), of data] obtain w' d where
      d: "writer_Write data w c = (None, w', d)" "writing c t data w' d" by auto
    from Close_written [OF d(2) assms(2)] d(1) w(1) False show ?thesis by (auto simp: WriteMessage_def)
  qed
qed

lemma WriteJSON_written:
  assumes "sends c"
  shows "\<exists>d. conn_WriteJSON text c = (None, d) \<and> written c TextFrame (text @ [CHR 0x0A]) d"
proof -
  have t: "isData TextFrame" by (simp add: isData_def)
  from begin_writing [OF assms t] obtain w where w: "beginMessage TextFrame c = Inr w" "writing c TextFrame [] w c"
    by blast
  from Write_writing [OF w(2) t, of "text @ [CHR 0x0A]"] obtain w' d where
    d: "writer_Write (text @ [CHR 0x0A]) w c = (None, w', d)" "writing c TextFrame (text @ [CHR 0x0A]) w' d" by auto
  from Close_written [OF d(2) t] d(1) w(1) show ?thesis by (auto simp: conn_WriteJSON_def)
qed

section \<open>Messages sent one after the other\<close>

text \<open>What the server and the clients send: whole messages, and values as JSON.\<close>

datatype outgoing = OutMessage nat string | OutJson string

fun as_message :: "outgoing \<Rightarrow> nat \<times> string" where
  "as_message (OutMessage t data) = (t, data)"
| "as_message (OutJson text) = (TextFrame, text @ [CHR 0x0A])"

fun send_one :: "outgoing \<Rightarrow> ws_conn \<Rightarrow> ws_error option \<times> ws_conn" where
  "send_one (OutMessage t data) c = WriteMessage t data c"
| "send_one (OutJson text) c = conn_WriteJSON text c"

text \<open>The results of sending all of them, and of reading as many.\<close>

fun send_each :: "outgoing list \<Rightarrow> ws_conn \<Rightarrow> ws_error option list \<times> ws_conn" where
  "send_each [] c = ([], c)"
| "send_each (m # ms) c = (case send_one m c of (e, c) \<Rightarrow> (case send_each ms c of (es, c) \<Rightarrow> (e # es, c)))"

fun read_each :: "(nat \<Rightarrow> nat \<times> nat) list \<Rightarrow> ws_conn \<Rightarrow> (ws_error + nat \<times> string \<times> ws_error option) list \<times> ws_conn" where
  "read_each [] c = ([], c)"
| "read_each (sizes # ss) c =
     (case ReadMessage sizes c of (r, c) \<Rightarrow> (case read_each ss c of (rs, c) \<Rightarrow> (r # rs, c)))"

text \<open>Messages the other side takes: of a data type, and within its limit.\<close>

definition acceptable :: "i64 \<Rightarrow> outgoing \<Rightarrow> bool" where
  "acceptable limit m \<longleftrightarrow> (case as_message m of (t, data) \<Rightarrow> isData t \<and> length data < 2 ^ 63 \<and>
     (0 < sint limit \<longrightarrow> int (length data) \<le> sint limit))"

lemma send_one_written:
  assumes "sends c" "isData (fst (as_message m))"
  shows "\<exists>d. send_one m c = (None, d) \<and> written c (fst (as_message m)) (snd (as_message m)) d"
proof (cases m)
  case (OutMessage t data)
  with assms show ?thesis by (auto intro: WriteMessage_written)
next
  case (OutJson js)
  with WriteJSON_written [OF assms(1), of js] show ?thesis by auto
qed

lemma ReadMessage_written:
  assumes "written c t data d" "between r (drop (length (wc_out c)) (wc_out d) @ rest)" "wc_isServer r \<noteq> wc_isServer c"
    and "isData t" "length data < 2 ^ 63" "0 < sint (wc_readLimit r) \<longrightarrow> int (length data) \<le> sint (wc_readLimit r)"
  shows "\<exists>r'. ReadMessage sizes r = (Inr (t, data, None), r') \<and> between r' rest \<and> same_side r r'"
proof -
  obtain fs where fs: "wc_out d = wc_out c @ message_bytes (wc_isServer c) t fs" "fs \<noteq> []" "all_keys fs"
    "concat (map snd fs) = data" using assms(1) by (auto simp: written_def)
  have side: "wc_isServer c = (\<not> wc_isServer r)" using assms(3) by auto
  show ?thesis
    by (rule ReadMessage_message [of r t fs rest sizes]) (use assms fs side in \<open>auto simp: isData_def\<close>)
qed

lemma send_each_prefix:
  "sends c \<Longrightarrow> \<forall>m \<in> set ms. isData (fst (as_message m)) \<Longrightarrow> send_each ms c = (es, d) \<Longrightarrow> prefix (wc_out c) (wc_out d)"
proof (induction ms arbitrary: c es)
  case (Cons m ms)
  then obtain c' where c': "send_one m c = (None, c')" "written c (fst (as_message m)) (snd (as_message m)) c'"
    using send_one_written [of c m] by auto
  with Cons.prems(3) obtain gs where "send_each ms c' = (gs, d)" by (auto split: prod.splits)
  with Cons.IH [of c'] Cons.prems(2) c'(2) have "prefix (wc_out c') (wc_out d)" by (auto simp: written_def)
  with c'(2) show ?case by (auto simp: written_def dest: append_prefixD)
qed simp

lemma messages_arrive:
  assumes "sends c" "list_all (acceptable (wc_readLimit r)) ms" "wc_isServer r \<noteq> wc_isServer c" "length ss = length ms"
    and "send_each ms c = (es, d)" "between r (drop (length (wc_out c)) (wc_out d) @ rest)"
  shows "es = map (\<lambda>_. None) ms \<and> prefix (wc_out c) (wc_out d) \<and>
    (\<exists>r'. read_each ss r = (map (\<lambda>m. Inr (fst (as_message m), snd (as_message m), None)) ms, r') \<and> between r' rest)"
  using assms
proof (induction ms arbitrary: c r ss es)
  case Nil
  then show ?case by simp
next
  case (Cons m ms)
  obtain sizes tt where ss: "ss = sizes # tt" "length tt = length ms" using Cons.prems(4) by (cases ss) auto
  have m: "isData (fst (as_message m))" "length (snd (as_message m)) < 2 ^ 63"
    "0 < sint (wc_readLimit r) \<longrightarrow> int (length (snd (as_message m))) \<le> sint (wc_readLimit r)"
    and ms: "list_all (acceptable (wc_readLimit r)) ms"
    using Cons.prems(2) unfolding list.pred_inject(2) by (simp_all add: acceptable_def [of _ m] case_prod_unfold)
  obtain c1 where c1: "send_one m c = (None, c1)" "written c (fst (as_message m)) (snd (as_message m)) c1"
    using send_one_written [OF Cons.prems(1) m(1)] by blast
  obtain fs where fs: "send_each ms c1 = (fs, d)" "es = None # fs"
    using Cons.prems(5) c1(1) by (auto split: prod.splits)
  have c1': "sends c1" "wc_isServer c1 = wc_isServer c" "prefix (wc_out c) (wc_out c1)"
    using c1(2) by (auto simp: written_def)
  have d: "prefix (wc_out c1) (wc_out d)"
    using send_each_prefix [OF c1'(1) _ fs(1)] ms by (auto simp: acceptable_def case_prod_unfold list_all_iff)
  let ?later = "drop (length (wc_out c1)) (wc_out d) @ rest"
  have "between r (drop (length (wc_out c)) (wc_out c1) @ ?later)"
    using Cons.prems(6) c1'(3) d by (auto simp: prefix_def)
  from ReadMessage_written [OF c1(2) this Cons.prems(3) m] obtain r1 where
    r1: "ReadMessage sizes r = (Inr (fst (as_message m), snd (as_message m), None), r1)" "between r1 ?later" "same_side r r1"
    by blast
  have "list_all (acceptable (wc_readLimit r1)) ms" "wc_isServer r1 \<noteq> wc_isServer c1"
    using r1(3) ms Cons.prems(3) c1'(2) by (auto simp: same_side_def)
  from Cons.IH [OF c1'(1) this ss(2) fs(1) r1(2)] c1'(3) r1(1) show ?case
    by (auto simp: fs(2) ss(1) intro: prefix_order.trans)
qed

text \<open>A new connection is ready to read and to send.\<close>

lemma between_new: "between (SetReadLimit n (newConn srv k rand faults bs e)) bs"
  by (simp add: between_def SetReadLimit_def newConn_def)
lemma sends_new: "sends (newConn srv k rand [] bs e)"
  by (simp add: sends_def newConn_def)

end
