(* ===== verification/Ws_Limit.thy ===== *)
theory Ws_Limit
  imports Ws_Stream
begin

text \<open>
  What the read limit of a connection bounds, for any input: a message that is read is no longer than it.
\<close>

section \<open>The read limit\<close>

lemma conn_read_same: "conn_read n c = (r, c') \<Longrightarrow> c' = c\<lparr>wc_in := wc_in c'\<rparr>"
  by (auto simp: conn_read_def split: if_splits)

lemma add_overflow:
  assumes "0 \<le> sint x" "0 \<le> sint y" "\<not> sint ((x :: i64) + y) < 0"
  shows "sint (x + y) = sint x + sint y"
proof (cases "sint x + sint y < 2 ^ 63")
  case True
  then show ?thesis using assms by (intro sint_i64_add) auto
next
  case False
  have "sint x + sint y < 2 ^ 64" using sint_i64_bounds(2) [of x] sint_i64_bounds(2) [of y] by simp
  with False have "sint (x + y) = sint x + sint y - 2 ^ 64"
  proof -
    have "sint (x + y) = (sint x + sint y + 2 ^ 63) mod 2 ^ 64 - 2 ^ 63"
      by (simp add: sint_word_ariths signed_take_bit_eq_take_bit_shift take_bit_eq_mod)
    also have "(sint x + sint y + 2 ^ 63) mod 2 ^ 64 = (sint x + sint y + 2 ^ 63 - 2 ^ 64) mod 2 ^ 64"
      by (rule minus_mod_self2 [symmetric])
    also have "\<dots> = sint x + sint y + 2 ^ 63 - 2 ^ 64"
      using False \<open>sint x + sint y < 2 ^ 64\<close> by (intro mod_pos_pos_trivial) simp_all
    finally show ?thesis by simp
  qed
  with assms sint_i64_bounds(2) [of x] sint_i64_bounds(2) [of y] show ?thesis by simp
qed

lemma read_length_fits:
  assumes "read_length c = (Inr (), c')" "0 \<le> sint (wc_readRemaining c)"
  shows "0 \<le> sint (wc_readRemaining c') \<and> wc_readLength c' = wc_readLength c \<and> wc_readLimit c' = wc_readLimit c"
  using assms
  by (auto simp: read_length_def and_then_Inr conn_read_Inr setReadRemaining_def split: if_splits)

lemma read_header_fits:
  assumes "read_header c = (Inr (t, m), c')"
  shows "0 \<le> sint (wc_readRemaining c') \<and> wc_readLength c' = wc_readLength c \<and> wc_readLimit c' = wc_readLimit c"
proof -
  have "0 \<le> sint (word_of_nat (n mod 128) :: i64)" for n
    by (subst sint_of_nat) (auto intro: less_trans [of _ 128])
  with assms show ?thesis
    by (auto simp: read_header_def and_then_Inr conn_read_Inr Let_def handleProtocolError_def
        split: if_splits prod.splits)
qed

text \<open>What a frame adds to the length of the message, and what of it is still to be read.\<close>

lemma advance_limit:
  assumes "advanceFrame c = (Inr t, c')" "0 \<le> sint (wc_readLength c)"
  shows "wc_readLimit c' = wc_readLimit c \<and> 0 \<le> sint (wc_readLength c') \<and>
    sint (wc_readLength c') = sint (wc_readLength c) + max 0 (sint (wc_readRemaining c')) \<and>
    (sint (wc_readLength c') = sint (wc_readLength c) \<or>
       (0 < sint (wc_readLimit c) \<longrightarrow> sint (wc_readLength c') \<le> sint (wc_readLimit c)))"
proof -
  from assms(1) obtain c1 t' m c2 c3 c4 where 1: "skip_rest c = (Inr (), c1)" "read_header c1 = (Inr (t', m), c2)"
    "read_length c2 = (Inr (), c3)" "read_mask m c3 = (Inr (), c4)"
    and 2: "(if t' = continuationFrame \<or> isData t' then enter_data t' c4
       else and_then (control_payload c4) (handle_control t')) = (Inr t, c')"
    unfolding advanceFrame_def by (auto simp: and_then_Inr)
  have "wc_readLength c1 = wc_readLength c \<and> wc_readLimit c1 = wc_readLimit c"
    using 1(1) by (auto simp: skip_rest_def Let_def split: if_splits)
  moreover note read_header_fits [OF 1(2)]
  moreover from this have "0 \<le> sint (wc_readRemaining c3) \<and> wc_readLength c3 = wc_readLength c2 \<and> wc_readLimit c3 = wc_readLimit c2"
    using read_length_fits [OF 1(3)] by blast
  moreover have "wc_readRemaining c4 = wc_readRemaining c3 \<and> wc_readLength c4 = wc_readLength c3 \<and> wc_readLimit c4 = wc_readLimit c3"
    using 1(4) by (auto simp: read_mask_def and_then_Inr conn_read_Inr split: if_splits)
  ultimately have c4: "0 \<le> sint (wc_readRemaining c4)" "wc_readLength c4 = wc_readLength c" "wc_readLimit c4 = wc_readLimit c"
    by simp_all
  show ?thesis
  proof (cases "t' = continuationFrame \<or> isData t'")
    case True
    then have "enter_data t' c4 = (Inr t, c')" using 2 by simp
    then have l: "\<not> sint (wc_readLength c4 + wc_readRemaining c4) < 0"
      "\<not> (0 < sint (wc_readLimit c4) \<and> sint (wc_readLimit c4) < sint (wc_readLength c4 + wc_readRemaining c4))"
      "c' = c4\<lparr>wc_readLength := wc_readLength c4 + wc_readRemaining c4\<rparr>"
      by (auto simp: enter_data_def Let_def split: if_splits)
    from add_overflow [OF _ c4(1) l(1)] assms(2) c4 have
      "sint (wc_readLength c4 + wc_readRemaining c4) = sint (wc_readLength c) + sint (wc_readRemaining c4)" by simp
    with l c4 assms(2) show ?thesis by auto
  next
    case False
    then obtain p c5 where c5: "control_payload c4 = (Inr p, c5)" "handle_control t' p c5 = (Inr t, c')"
      using 2 by (auto simp: and_then_Inr)
    have "\<not> 0 < sint (wc_readRemaining c5) \<and> wc_readLength c5 = wc_readLength c4 \<and> wc_readLimit c5 = wc_readLimit c4"
      using c5(1) by (auto simp: control_payload_def and_then_Inr conn_read_Inr dest: conn_read_same split: if_splits prod.splits)
    with handle_control_reading [OF c5(2)] c4 assms(2) show ?thesis by (auto simp: same_reading_def)
  qed
qed

lemma read_some_fits:
  assumes "read_some n k c = (b, c')" "0 < sint (wc_readRemaining c)"
  shows "sint (wc_readRemaining c') = sint (wc_readRemaining c) - int (length b) \<and>
    int (length b) \<le> sint (wc_readRemaining c) \<and> wc_readLength c' = wc_readLength c \<and> wc_readLimit c' = wc_readLimit c"
proof -
  define m where "m = min (max 1 n) (min (max 1 k) (nat (sint (wc_readRemaining c))))"
  have len: "length b \<le> m" "wc_readRemaining c' = wc_readRemaining c - word_of_nat (length b)"
    "wc_readLength c' = wc_readLength c" "wc_readLimit c' = wc_readLimit c"
    using assms(1) unfolding read_some_def Let_def m_def [symmetric] mask_at_each by (auto split: if_splits)
  have "m \<le> nat (sint (wc_readRemaining c))" by (simp add: m_def)
  then have "length b \<le> nat (sint (wc_readRemaining c))" using len(1) by linarith
  with assms(2) have "int (length b) \<le> sint (wc_readRemaining c)" by linarith
  note b = this len(2-4)
  have less: "int (length b) < 2 ^ 63" using b(1) sint_i64_bounds(2) [of "wc_readRemaining c"] by linarith
  then have w: "sint (word_of_nat (length b) :: i64) = int (length b)" by (intro sint_of_nat) (simp add: less_int_code)
  have "sint (wc_readRemaining c - word_of_nat (length b)) = sint (wc_readRemaining c) - int (length b)"
    using b(1) assms(2) less w sint_i64_bounds(2) [of "wc_readRemaining c"] by (subst sint_i64_minus) simp_all
  with b show ?thesis by simp
qed

text \<open>What is still allowed: the limit, less what the message has used, plus what of it is still to be read.\<close>

definition limit_left :: "ws_conn \<Rightarrow> int" where
  "limit_left c = sint (wc_readLimit c) - sint (wc_readLength c) + max 0 (sint (wc_readRemaining c))"

definition within_limit :: "ws_conn \<Rightarrow> bool" where
  "within_limit c \<longleftrightarrow> 0 < sint (wc_readLimit c) \<and> 0 \<le> sint (wc_readLength c) \<and>
     sint (wc_readLength c) \<le> sint (wc_readLimit c)"

lemma advance_within:
  assumes "advanceFrame c = (Inr t, c')" "within_limit c"
  shows "within_limit c' \<and> wc_readLimit c' = wc_readLimit c \<and>
    limit_left c' = sint (wc_readLimit c) - sint (wc_readLength c) \<and> max 0 (sint (wc_readRemaining c')) \<le> sint (wc_readLength c')"
  using advance_limit [OF assms(1)] assms(2) by (auto simp: within_limit_def limit_left_def)

lemma Read_within:
  assumes "reader_Read n k c = (Inr b, c')" "within_limit c"
  shows "within_limit c' \<and> limit_left c' = limit_left c - int (length b) \<and> 0 \<le> limit_left c'"
  using assms
proof (induction "length (wc_in c)" arbitrary: c rule: less_induct)
  case less
  from less.prems(1) show ?case
  proof (cases rule: Read_Inr)
    case inside
    with read_some_fits [OF inside(3,1)] less.prems(2) show ?thesis by (auto simp: within_limit_def limit_left_def)
  next
    case (next_frame t d)
    from advance_within [OF next_frame(2) less.prems(2)] have d: "within_limit d" "limit_left d = limit_left c"
      using next_frame(1) by (auto simp: limit_left_def)
    from less.hyps [OF advance_uses [OF next_frame(2)] next_frame(4) d(1)] d(2) show ?thesis by simp
  qed
qed

lemma read_all_within:
  "within_limit c \<Longrightarrow> read_all sizes i c = (p, e, c') \<Longrightarrow> int (length p) \<le> limit_left c"
proof (induction sizes i c arbitrary: p rule: read_all.induct)
  case (1 sizes i c)
  obtain r d where d: "reader_Read (fst (sizes i)) (snd (sizes i)) c = (r, d)" by force
  show ?case
  proof (cases r)
    case (Inl e)
    with d 1(3) have "p = []" by (auto simp: read_all.simps [of sizes i c])
    then show ?thesis using 1(2) by (auto simp: within_limit_def limit_left_def)
  next
    case (Inr b)
    note b = d [unfolded Inr]
    obtain q where q: "read_all sizes (i + 1) d = (q, e, c')" "p = b @ q"
      using b 1(3) by (auto simp: read_all.simps [of sizes i c] split: prod.splits)
    from Read_within [OF b 1(2)] 1(1) [OF b [symmetric] refl _ q(1)] show ?thesis by (simp add: q(2))
  qed
qed

lemma next_within:
  "next_loop c = (Inr t, c') \<Longrightarrow> within_limit c \<Longrightarrow>
    within_limit c' \<and> limit_left c' \<le> sint (wc_readLimit c) \<and> wc_readLimit c' = wc_readLimit c"
proof (induction c rule: next_loop.induct)
  case (1 c)
  have ok: "wc_readErr c = None" using 1(2) by (auto simp: next_loop.simps [of c] read_failed_def Let_def split: option.splits)
  obtain r d where d: "advanceFrame c = (r, d)" by force
  show ?case
  proof (cases r)
    case (Inl e)
    with d 1(2) ok show ?thesis by (simp add: next_loop.simps [of c] read_failed_def Let_def)
  next
    case (Inr t')
    note d' = d [unfolded Inr]
    note w = advance_within [OF d' 1(3)]
    show ?thesis
    proof (cases "isData t'")
      case True
      then have "c' = d\<lparr>wc_messageReader := True\<rparr>" using 1(2) ok d' by (simp add: next_loop.simps [of c])
      with w 1(3) show ?thesis by (auto simp: within_limit_def limit_left_def)
    next
      case False
      then have "next_loop d = (Inr t, c')" using 1(2) ok d' by (simp add: next_loop.simps [of c])
      from 1(1) [OF ok d' [symmetric] refl False this] w show ?thesis by simp
    qed
  qed
qed

lemma ReadMessage_within:
  assumes "ReadMessage sizes c = (Inr (t, p, e), c')" "0 < sint (wc_readLimit c)"
  shows "int (length p) \<le> sint (wc_readLimit c)"
proof -
  from assms(1) obtain d where d: "NextReader c = (Inr t, d)" "read_all sizes 0 d = (p, e, c')"
    by (auto simp: ReadMessage_def split: prod.splits sum.splits)
  have "within_limit (c\<lparr>wc_messageReader := False, wc_readLength := 0\<rparr>)" using assms(2) by (simp add: within_limit_def)
  from next_within [OF d(1) [unfolded NextReader_def] this] read_all_within [OF _ d(2)] show ?thesis by simp
qed

end
