(* ===== verification/Ws_Util.thy ===== *)
theory Ws_Util
  imports Go_Strings Base64
begin

text \<open>
  Header values in \<open>gorilla/websocket\<close> (util.go): tokens, lists of tokens, comparison without regard to the
  case of ASCII letters, the keys of the handshake. A header is a Go map from canonical names to values.
\<close>

type_synonym header = "(string, string list) gomap"

definition header_values :: "header \<Rightarrow> string \<Rightarrow> string list" where
  "header_values h name = (case gm_get h name of None \<Rightarrow> [] | Some vs \<Rightarrow> vs)"

definition header_get :: "header \<Rightarrow> string \<Rightarrow> string" where
  "header_get h name = (case header_values h name of [] \<Rightarrow> [] | v # _ \<Rightarrow> v)"

section \<open>Tokens\<close>

definition isTokenOctet :: "char \<Rightarrow> bool" where
  "isTokenOctet c \<longleftrightarrow> in_range 48 57 c \<or> in_range 65 90 c \<or> in_range 97 122 c \<or>
     c \<in> set ''!#$%&*+-.^_|~'' \<or> c = CHR 0x27 \<or> c = CHR 0x60"

definition skipSpace :: "string \<Rightarrow> string" where
  "skipSpace s = dropWhile (\<lambda>b. b = CHR '' '' \<or> b = CHR 0x09) s"

definition nextToken :: "string \<Rightarrow> string \<times> string" where
  "nextToken s = (takeWhile isTokenOctet s, dropWhile isTokenOctet s)"

function equalASCIIFold :: "string \<Rightarrow> string \<Rightarrow> bool" where
  "equalASCIIFold s t =
     (if s \<noteq> [] \<and> t \<noteq> [] then
        let (sr, m) = decode_rune s; (tr, n) = decode_rune t;
            lower = (\<lambda>r. if 65 \<le> r \<and> r \<le> 90 then r + 97 - 65 else r)
        in if sr \<noteq> tr \<and> lower sr \<noteq> lower tr then False else equalASCIIFold (drop m s) (drop n t)
      else s = t)"
  by pat_completeness auto
termination
proof (relation "measure (\<lambda>(s, t). length s)", goal_cases)
  case (2 s t x sr m y tr n lower)
  then have "0 < m" using decode_rune_size [of s] by (metis snd_conv)
  with 2 show ?case by (cases s) auto
qed simp

declare equalASCIIFold.simps [simp del]

lemma skipSpace_length: "length (skipSpace s) \<le> length s"
  by (simp add: skipSpace_def length_dropWhile_le)

lemma nextToken_length: "nextToken s = (t, r) \<Longrightarrow> length s = length t + length r"
  by (auto simp: nextToken_def simp flip: length_append)

lemma token_shrinks: "nextToken (skipSpace s) = (t, r) \<Longrightarrow> t \<noteq> [] \<Longrightarrow> length (tl (skipSpace r)) < length s"
  using nextToken_length [of "skipSpace s" t r] skipSpace_length [of s] skipSpace_length [of r] by (cases t) auto

text \<open>One value of a header: the loop stops at what is not a list of tokens.\<close>

function token_in :: "string \<Rightarrow> string \<Rightarrow> bool" where
  "token_in value s =
     (case nextToken (skipSpace s) of (t, s) \<Rightarrow>
        if t = [] then False
        else let s = skipSpace s in
          if s \<noteq> [] \<and> hd s \<noteq> CHR '','' then False
          else if equalASCIIFold t value then True
          else if s = [] then False
          else token_in value (tl s))"
  by pat_completeness auto
termination
  by (relation "measure (\<lambda>(v, s). length s)") (auto dest: token_shrinks [OF sym])

declare token_in.simps [simp del]

definition tokenListContainsValue :: "header \<Rightarrow> string \<Rightarrow> string \<Rightarrow> bool" where
  "tokenListContainsValue h name value \<longleftrightarrow> list_ex (token_in value) (header_values h name)"

section \<open>What the parser finds\<close>

definition lower_ascii :: "char \<Rightarrow> char" where
  "lower_ascii c = (if in_range 65 90 c then char_of (byte_of c + 32) else c)"

definition is_ascii :: "string \<Rightarrow> bool" where
  "is_ascii s \<longleftrightarrow> (\<forall>c \<in> set s. byte_of c < 128)"

lemma fold_step:
  assumes "byte_of a < 128" "byte_of b < 128"
  shows "equalASCIIFold (a # s) (b # t) \<longleftrightarrow> lower_ascii a = lower_ascii b \<and> equalASCIIFold s t"
proof -
  have inj: "byte_of c = byte_of d \<longleftrightarrow> c = d" for c d by (simp add: byte_of_def)
  have low: "byte_of (lower_ascii c) = (if 65 \<le> byte_of c \<and> byte_of c \<le> 90 then byte_of c + 97 - 65 else byte_of c)" for c
    by (simp add: lower_ascii_def in_range_def byte_of_def)
  have "lower_ascii a = lower_ascii b \<longleftrightarrow>
      (if 65 \<le> byte_of a \<and> byte_of a \<le> 90 then byte_of a + 97 - 65 else byte_of a) =
      (if 65 \<le> byte_of b \<and> byte_of b \<le> 90 then byte_of b + 97 - 65 else byte_of b)"
    using inj [of "lower_ascii a" "lower_ascii b"] unfolding low by blast
  then show ?thesis
    using assms by (subst equalASCIIFold.simps) (simp add: decode_rune_ascii Let_def)
qed

text \<open>On ASCII strings the comparison is the one of the strings in lower case.\<close>

lemma fold_ascii:
  "is_ascii s \<Longrightarrow> is_ascii t \<Longrightarrow> equalASCIIFold s t \<longleftrightarrow> map lower_ascii s = map lower_ascii t"
proof (induction s arbitrary: t)
  case Nil
  then show ?case by (subst equalASCIIFold.simps) auto
next
  case (Cons a s)
  show ?case
  proof (cases t)
    case Nil
    then show ?thesis by (subst equalASCIIFold.simps) simp
  next
    case (Cons b u)
    with Cons.prems Cons.IH [of u] show ?thesis by (simp add: fold_step is_ascii_def)
  qed
qed

text \<open>A list of tokens as it is written: tokens with blanks around them, separated by commas.\<close>

definition spaces :: "string \<Rightarrow> bool" where
  "spaces s \<longleftrightarrow> (\<forall>c \<in> set s. c = CHR '' '' \<or> c = CHR 0x09)"

fun token_list :: "(string \<times> string \<times> string) list \<Rightarrow> string" where
  "token_list [] = []"
| "token_list [(l, t, r)] = l @ t @ r"
| "token_list ((l, t, r) # x # xs) = l @ t @ r @ CHR '','' # token_list (x # xs)"

definition tokens_ok :: "(string \<times> string \<times> string) list \<Rightarrow> bool" where
  "tokens_ok ts \<longleftrightarrow> (\<forall>(l, t, r) \<in> set ts. spaces l \<and> spaces r \<and> t \<noteq> [] \<and> (\<forall>c \<in> set t. isTokenOctet c))"

lemma not_token: "\<not> isTokenOctet (CHR '' '')" "\<not> isTokenOctet (CHR 0x09)" "\<not> isTokenOctet (CHR '','')"
  by (simp_all add: isTokenOctet_def in_range_def byte_of_def)

lemma skip_spaces: "spaces l \<Longrightarrow> skipSpace (l @ s) = skipSpace s"
  by (induction l) (auto simp: skipSpace_def spaces_def)

lemma skip_token: "isTokenOctet c \<Longrightarrow> skipSpace (c # s) = c # s"
  using not_token by (auto simp: skipSpace_def)

lemma next_token:
  assumes "\<forall>c \<in> set t. isTokenOctet c" "s = [] \<or> \<not> isTokenOctet (hd s)"
  shows "nextToken (t @ s) = (t, s)"
  using assms by (cases s) (auto simp: nextToken_def takeWhile_append dropWhile_append)

lemma token_step:
  assumes "spaces l" "spaces r" "t \<noteq> []" "\<forall>c \<in> set t. isTokenOctet c" "s = [] \<or> hd s = CHR '',''"
  shows "token_in v (l @ t @ r @ s) \<longleftrightarrow> equalASCIIFold t v \<or> (s \<noteq> [] \<and> token_in v (tl s))"
proof -
  have t: "skipSpace (t @ r @ s) = t @ r @ s" using assms(3,4) by (cases t) (simp_all add: skip_token)
  have "r @ s = [] \<or> \<not> isTokenOctet (hd (r @ s))"
    using assms(2,5) not_token by (cases r) (auto simp: spaces_def)
  then have n: "nextToken (t @ r @ s) = (t, r @ s)" using assms(4) by (intro next_token)
  have "skipSpace s = s" using assms(5) by (cases s) (auto simp: skipSpace_def)
  then have "skipSpace (r @ s) = s" using skip_spaces [OF assms(2)] by simp
  then show ?thesis
    using assms(3,5) n t skip_spaces [OF assms(1), of "t @ r @ s"] by (subst token_in.simps) (auto simp: Let_def)
qed

lemma token_in_list:
  "tokens_ok ts \<Longrightarrow> ts \<noteq> [] \<Longrightarrow> token_in v (token_list ts) \<longleftrightarrow> (\<exists>(l, t, r) \<in> set ts. equalASCIIFold t v)"
proof (induction ts rule: token_list.induct)
  case (2 l t r)
  then show ?case using token_step [of l r t "[]" v] by (simp add: tokens_ok_def)
next
  case (3 l t r x xs)
  have "tokens_ok (x # xs)" using 3(2) by (simp add: tokens_ok_def)
  with 3 token_step [of l r t "CHR '','' # token_list (x # xs)" v] show ?case by (auto simp: tokens_ok_def)
qed simp

section \<open>Base64 with padding, the keys\<close>

definition std_alphabet :: string where
  "std_alphabet = ''ABCDEFGHIJKLMNOPQRSTUVWXYZabcdefghijklmnopqrstuvwxyz0123456789+/''"

text \<open>\<open>base64.StdEncoding\<close>: line breaks are skipped, the padding has to be there.\<close>

definition EncodeToString :: "string \<Rightarrow> string" where
  "EncodeToString s = encode_in std_alphabet s @ replicate ((3 - length s mod 3) mod 3) CHR ''=''"

definition DecodeString :: "string \<Rightarrow> string option" where
  "DecodeString s =
     (let s = filter (\<lambda>c. \<not> line_break c) s;
          body = takeWhile (\<lambda>c. c \<noteq> CHR ''='') s;
          padding = dropWhile (\<lambda>c. c \<noteq> CHR ''='') s
      in if padding = replicate ((4 - length body mod 4) mod 4) CHR ''='' then decode_in std_alphabet body else None)"

lemma std_alphabet_ok: "alphabet_ok std_alphabet" "CHR ''='' \<notin> set std_alphabet"
  unfolding alphabet_ok_def line_break_def by code_simp+

lemma decode_encode_std: "DecodeString (EncodeToString s) = Some s"
proof -
  let ?b = "encode_in std_alphabet s" and ?n = "(3 - length s mod 3) mod 3"
  have al: "length std_alphabet = 64" using std_alphabet_ok(1) by (simp add: alphabet_ok_def)
  have b: "\<forall>c \<in> set ?b. \<not> line_break c \<and> c \<noteq> CHR ''=''"
    using encode_chars [OF al, of s] std_alphabet_ok by (auto simp: alphabet_ok_def)
  have "\<not> line_break CHR ''=''" by (simp add: line_break_def)
  then have "filter (\<lambda>c. \<not> line_break c) (EncodeToString s) = EncodeToString s"
    using b by (auto simp: EncodeToString_def filter_id_conv)
  moreover have "takeWhile (\<lambda>c. c \<noteq> CHR ''='') (EncodeToString s) = ?b"
    "dropWhile (\<lambda>c. c \<noteq> CHR ''='') (EncodeToString s) = replicate ?n CHR ''=''"
    using b by (cases ?n; simp add: EncodeToString_def)+
  moreover have "(4 - length ?b mod 4) mod 4 = ?n"
  proof -
    obtain q where "length s = 3 * q + length s mod 3" by (metis mult_div_mod_eq)
    moreover have "length s mod 3 = 0 \<or> length s mod 3 = 1 \<or> length s mod 3 = 2" by linarith
    ultimately have "length s = 3 * q \<or> length s = 3 * q + 1 \<or> length s = 2 + 3 * q" by linarith
    then show ?thesis unfolding encode_length
    proof (elim disjE)
      assume "length s = 3 * q"
      moreover have "(4 * (3 * q) + 2) div 3 = 4 * q" by simp
      ultimately show "(4 - (4 * length s + 2) div 3 mod 4) mod 4 = ?n" by simp
    next
      assume l: "length s = 3 * q + 1"
      have "(4 * (3 * q + 1) + 2) div 3 = 2 + 4 * q" by simp
      moreover have "(2 + 4 * q) mod 4 = 2 mod 4" by (rule mod_mult_self2)
      ultimately have "(4 * length s + 2) div 3 mod 4 = 2" unfolding l by simp
      then show "(4 - (4 * length s + 2) div 3 mod 4) mod 4 = ?n" unfolding l by simp
    next
      assume l: "length s = 2 + 3 * q"
      have "(4 * (2 + 3 * q) + 2) div 3 = 3 + 4 * q" by simp
      moreover have "(3 + 4 * q) mod 4 = 3 mod 4" "(2 + 3 * q) mod 3 = 2 mod 3" by (rule mod_mult_self2)+
      ultimately have "(4 * length s + 2) div 3 mod 4 = 3" "length s mod 3 = 2" unfolding l by simp_all
      then show "(4 - (4 * length s + 2) div 3 mod 4) mod 4 = ?n" by simp
    qed
  qed
  ultimately show ?thesis by (simp add: DecodeString_def Let_def decode_encode [OF std_alphabet_ok(1)])
qed

definition isValidChallengeKey :: "string \<Rightarrow> bool" where
  "isValidChallengeKey s \<longleftrightarrow> s \<noteq> [] \<and> (case DecodeString s of None \<Rightarrow> False | Some decoded \<Rightarrow> length decoded = 16)"

text \<open>A client that draws a key of its own accord is understood.\<close>

definition generateChallengeKey :: "string option \<Rightarrow> string option" where
  "generateChallengeKey random = (case random of None \<Rightarrow> None | Some p \<Rightarrow> Some (EncodeToString p))"

lemma generated_key_valid: "generateChallengeKey (Some p) = Some k \<Longrightarrow> isValidChallengeKey k \<longleftrightarrow> length p = 16"
proof -
  assume "generateChallengeKey (Some p) = Some k"
  then have k: "k = EncodeToString p" by (simp add: generateChallengeKey_def)
  have "EncodeToString p = [] \<Longrightarrow> p = []"
    using decode_encode_std [of p] decode_encode_std [of "[]"]
    by (simp add: EncodeToString_def encode_in_def split: if_splits)
  then show ?thesis unfolding k isValidChallengeKey_def by (auto simp: decode_encode_std)
qed

definition keyGUID :: string where
  "keyGUID = ''258EAFA5-E914-47DA-95CA-C5AB0DC85B11''"

definition computeAcceptKey :: "(string \<Rightarrow> string) \<Rightarrow> string \<Rightarrow> string" where
  "computeAcceptKey sha1 challengeKey = EncodeToString (sha1 (challengeKey @ keyGUID))"

end
