(* ===== verification/Ws_Extensions.thy ===== *)
theory Ws_Extensions
  imports Ws_Util
begin

text \<open>
  The extensions that a client offers in the handshake of \<open>gorilla/websocket\<close> (util.go): tokens or quoted strings,
  parameters, lists of extensions, and that a list as RFC 6455 writes it is read as it was meant.
\<close>

section \<open>Quoted strings\<close>

abbreviation (input) dquote :: char where "dquote \<equiv> CHR 0x22"

text \<open>The inner loop: what was copied so far, and whether the byte before was a backslash.\<close>

fun unescape :: "bool \<Rightarrow> string \<Rightarrow> string \<Rightarrow> string \<times> string" where
  "unescape esc p [] = ([], [])"
| "unescape esc p (b # s) =
     (if esc then unescape False (p @ [b]) s
      else if b = backslash then unescape True p s
      else if b = dquote then (p, s)
      else unescape False (p @ [b]) s)"

fun quoted :: "string \<Rightarrow> string \<Rightarrow> string \<times> string" where
  "quoted p [] = ([], [])"
| "quoted p (b # s) =
     (if b = dquote then (p, s) else if b = backslash then unescape True p s else quoted (p @ [b]) s)"

definition nextTokenOrQuoted :: "string \<Rightarrow> string \<times> string" where
  "nextTokenOrQuoted s = (if s = [] \<or> hd s \<noteq> dquote then nextToken s else quoted [] (tl s))"

lemma unescape_length: "length (snd (unescape e p s)) \<le> length s"
  by (induction e p s rule: unescape.induct) (auto intro: le_SucI)

lemma quoted_length: "length (snd (quoted p s)) \<le> length s"
proof (induction p s rule: quoted.induct)
  case (2 p b s)
  then show ?case using unescape_length [of True p s] by auto
qed simp

lemma nextTokenOrQuoted_length: "length (snd (nextTokenOrQuoted s)) \<le> length s"
proof (cases "s = [] \<or> hd s \<noteq> dquote")
  case True
  then show ?thesis using nextToken_length [of s "fst (nextToken s)" "snd (nextToken s)"]
    by (simp add: nextTokenOrQuoted_def)
next
  case False
  then show ?thesis using quoted_length [of "[]" "tl s"] by (simp add: nextTokenOrQuoted_def)
qed

section \<open>Lists of extensions\<close>

text \<open>A parameter after its semicolon: its name, its value if there is one, and the rest.\<close>

definition ext_param :: "string \<Rightarrow> string \<times> string \<times> string" where
  "ext_param s = (case nextToken (skipSpace s) of (k, s) \<Rightarrow>
     let s = skipSpace s in
     if s \<noteq> [] \<and> hd s = CHR ''='' then
       (case nextTokenOrQuoted (skipSpace (tl s)) of (v, s) \<Rightarrow> (k, v, skipSpace s))
     else (k, [], s))"

lemma ext_param_length: "ext_param s = (k, v, r) \<Longrightarrow> length r \<le> length s"
proof -
  assume "ext_param s = (k, v, r)"
  obtain k' s' where n: "nextToken (skipSpace s) = (k', s')" by force
  have "length (skipSpace s') \<le> length s"
    using nextToken_length [OF n] skipSpace_length [of s] skipSpace_length [of s'] by linarith
  moreover have "length (skipSpace (snd (nextTokenOrQuoted (skipSpace (tl (skipSpace s')))))) \<le> length (skipSpace s')"
    using skipSpace_length [of "snd (nextTokenOrQuoted (skipSpace (tl (skipSpace s'))))"]
      nextTokenOrQuoted_length [of "skipSpace (tl (skipSpace s'))"] skipSpace_length [of "tl (skipSpace s')"] by simp
  ultimately show ?thesis
    using \<open>ext_param s = (k, v, r)\<close> n
    by (auto simp: ext_param_def Let_def split: if_splits prod.splits)
qed

lemma params_shrink: "(k, v, r) = ext_param (tl (skipSpace s)) \<Longrightarrow> skipSpace s \<noteq> [] \<Longrightarrow> length r < length s"
  using ext_param_length [of "tl (skipSpace s)" k v r] skipSpace_length [of s] by (cases "skipSpace s") auto

text \<open>The parameters of an extension; \<open>None\<close> where the header is given up.\<close>

function ext_params :: "string \<Rightarrow> (string, string) gomap \<Rightarrow> (string \<times> (string, string) gomap) option" where
  "ext_params s ext =
     (let s = skipSpace s in
      if s = [] \<or> hd s \<noteq> CHR '';'' then Some (s, ext)
      else case ext_param (tl s) of (k, v, s) \<Rightarrow>
        if k = [] then None
        else if s \<noteq> [] \<and> hd s \<noteq> CHR '','' \<and> hd s \<noteq> CHR '';'' then None
        else ext_params s (gm_put k v ext))"
  by pat_completeness auto
termination
  by (relation "measure (\<lambda>(s, ext). length s)") (auto dest!: params_shrink)

declare ext_params.simps [simp del]

lemma ext_params_length: "ext_params s ext = Some (r, e) \<Longrightarrow> length r \<le> length s"
proof (induction s ext rule: ext_params.induct)
  case (1 s ext)
  obtain k v t where p: "ext_param (tl (skipSpace s)) = (k, v, t)" by (metis surj_pair)
  show ?case
  proof (cases "skipSpace s = [] \<or> hd (skipSpace s) \<noteq> CHR '';''")
    case True
    with 1(2) show ?thesis using skipSpace_length [of s] by (subst (asm) ext_params.simps) simp
  next
    case False
    with 1(2) p have k: "k \<noteq> [] \<and> \<not> (t \<noteq> [] \<and> hd t \<noteq> CHR '','' \<and> hd t \<noteq> CHR '';'') \<and>
        ext_params t (gm_put k v ext) = Some (r, e)"
      unfolding ext_params.simps [of s ext] Let_def by (simp del: de_Morgan_conj split: if_splits)
    then have k: "k \<noteq> []" "\<not> (t \<noteq> [] \<and> hd t \<noteq> CHR '','' \<and> hd t \<noteq> CHR '';'')"
      "ext_params t (gm_put k v ext) = Some (r, e)" by simp_all
    from 1(1) [OF refl False p [symmetric] refl k] have "length r \<le> length t" .
    then show ?thesis using ext_param_length [OF p] skipSpace_length [of s] by simp
  qed
qed

lemma list_shrinks:
  assumes "(t, y) = nextToken (skipSpace s)" "t \<noteq> []" "ext_params y e = Some (r, ext)"
  shows "length (tl r) < length s"
  using assms(2) nextToken_length [OF assms(1) [symmetric]] skipSpace_length [of s] ext_params_length [OF assms(3)]
  by (cases t) auto

text \<open>One value of the header: what was found before an error is kept.\<close>

function ext_list :: "string \<Rightarrow> (string, string) gomap list" where
  "ext_list s =
     (case nextToken (skipSpace s) of (t, s) \<Rightarrow>
        if t = [] then []
        else case ext_params s [([], t)] of None \<Rightarrow> []
        | Some (s, ext) \<Rightarrow>
            if s \<noteq> [] \<and> hd s \<noteq> CHR '','' then []
            else ext # (if s = [] then [] else ext_list (tl s)))"
  by pat_completeness auto
termination
  by (relation "measure length") (auto dest: list_shrinks)

declare ext_list.simps [simp del]

definition parseExtensions :: "header \<Rightarrow> (string, string) gomap list" where
  "parseExtensions h = concat (map ext_list (header_values h ''Sec-Websocket-Extensions''))"

section \<open>What is written is read\<close>

text \<open>Extensions with their parameters, written with quoted values and separated by commas.\<close>

definition quoted_text :: "string \<Rightarrow> string" where
  "quoted_text v = dquote # concat (map (\<lambda>b. if b = dquote \<or> b = backslash then [backslash, b] else [b]) v) @ [dquote]"

definition param_text :: "string \<times> string \<Rightarrow> string" where
  "param_text p = ''; '' @ fst p @ ''='' @ quoted_text (snd p)"

fun ext_text :: "(string \<times> (string \<times> string) list) list \<Rightarrow> string" where
  "ext_text [] = []"
| "ext_text [(t, ps)] = t @ concat (map param_text ps)"
| "ext_text ((t, ps) # x # xs) = t @ concat (map param_text ps) @ '', '' @ ext_text (x # xs)"

definition ext_map :: "string \<times> (string \<times> string) list \<Rightarrow> (string, string) gomap" where
  "ext_map x = fold (\<lambda>(k, v). gm_put k v) (snd x) [([], fst x)]"

definition token :: "string \<Rightarrow> bool" where
  "token t \<longleftrightarrow> t \<noteq> [] \<and> (\<forall>c \<in> set t. isTokenOctet c)"

lemma unescape_text:
  "unescape False p (concat (map (\<lambda>b. if b = dquote \<or> b = backslash then [backslash, b] else [b]) v) @ dquote # s) = (p @ v, s)"
  by (induction v arbitrary: p) auto

lemma nextTokenOrQuoted_text: "nextTokenOrQuoted (quoted_text v @ s) = (v, s)"
proof -
  have "quoted p (concat (map (\<lambda>b. if b = dquote \<or> b = backslash then [backslash, b] else [b]) v) @ dquote # s) = (p @ v, s)" for p
    by (induction v arbitrary: p) (auto simp: unescape_text)
  then show ?thesis by (simp add: nextTokenOrQuoted_def quoted_text_def)
qed

lemma skipSpace_token: "token t \<Longrightarrow> skipSpace (t @ s) = t @ s" "token t \<Longrightarrow> skipSpace (CHR '' '' # t @ s) = t @ s"
proof -
  show t: "skipSpace (t @ s) = t @ s" if "token t" using that by (cases t) (auto simp: token_def skip_token)
  then show "skipSpace (CHR '' '' # t @ s) = t @ s" if "token t" using that by (simp add: skipSpace_def)
qed

lemma ext_param_text:
  assumes "token k" "s = [] \<or> hd s = CHR '';'' \<or> hd s = CHR '',''"
  shows "ext_param (tl (param_text (k, v)) @ s) = (k, v, s)"
proof -
  have "\<not> isTokenOctet (CHR ''='')" by (simp add: isTokenOctet_def in_range_def byte_of_def)
  with assms(1) have "nextToken (k @ CHR ''='' # quoted_text v @ s) = (k, CHR ''='' # quoted_text v @ s)"
    by (intro next_token) (auto simp: token_def)
  moreover have "skipSpace (quoted_text v @ s) = quoted_text v @ s" "skipSpace (CHR ''='' # quoted_text v @ s) = CHR ''='' # quoted_text v @ s"
    by (simp_all add: skipSpace_def quoted_text_def)
  moreover have "skipSpace s = s" using assms(2) by (cases s) (auto simp: skipSpace_def)
  ultimately show ?thesis
    using assms(1) by (simp add: ext_param_def param_text_def skipSpace_token nextTokenOrQuoted_text)
qed

lemma ext_params_text:
  assumes "\<forall>p \<in> set ps. token (fst p)" "s = [] \<or> hd s = CHR '',''"
  shows "ext_params (concat (map param_text ps) @ s) ext = Some (s, fold (\<lambda>(k, v). gm_put k v) ps ext)"
  using assms(1)
proof (induction ps arbitrary: ext)
  case Nil
  have "skipSpace s = s" using assms(2) by (cases s) (auto simp: skipSpace_def)
  then show ?case using assms(2) by (subst ext_params.simps) auto
next
  case (Cons p ps)
  obtain k v where p: "p = (k, v)" by force
  let ?r = "concat (map param_text ps) @ s"
  have r: "?r = [] \<or> hd ?r = CHR '';'' \<or> hd ?r = CHR '',''"
    using assms(2) by (cases ps) (auto simp: param_text_def)
  have "skipSpace (param_text p @ ?r) = param_text p @ ?r" "hd (param_text p @ ?r) = CHR '';''" "param_text p \<noteq> []"
    by (simp_all add: skipSpace_def param_text_def)
  moreover from this have "ext_param (tl (param_text p @ ?r)) = (k, v, ?r)"
    using ext_param_text [OF _ r] Cons.prems p by simp
  moreover have "k \<noteq> []" using Cons.prems p by (simp add: token_def)
  moreover have "\<not> (?r \<noteq> [] \<and> hd ?r \<noteq> CHR '','' \<and> hd ?r \<noteq> CHR '';'')" using r by blast
  ultimately have "ext_params (param_text p @ ?r) ext = ext_params ?r (gm_put k v ext)"
    by (subst ext_params.simps) (simp del: de_Morgan_conj hd_append)
  then show ?case using Cons p by simp
qed

text \<open>The extensions that a client writes in a value of the header are those that the server reads there.\<close>

lemma ext_list_step:
  assumes "spaces l" "token t" "\<forall>p \<in> set ps. token (fst p)" "s = [] \<or> hd s = CHR '',''"
  shows "ext_list (l @ t @ concat (map param_text ps) @ s) = ext_map (t, ps) # (if s = [] then [] else ext_list (tl s))"
proof -
  let ?r = "concat (map param_text ps) @ s"
  have "?r = [] \<or> \<not> isTokenOctet (hd ?r)"
    using assms(4) not_token isTokenOctet_def [of "CHR '';''"]
    by (cases ps) (auto simp: param_text_def in_range_def byte_of_def)
  then have "nextToken (skipSpace (l @ t @ ?r)) = (t, ?r)"
    using assms(2) by (simp add: skip_spaces [OF assms(1)] skipSpace_token next_token token_def)
  moreover have "t \<noteq> []" using assms(2) by (simp add: token_def)
  ultimately show ?thesis
    using ext_params_text [OF assms(3,4), of "[([], t)]"] assms(4)
    by (subst ext_list.simps) (auto simp: ext_map_def simp del: fold_append)
qed

lemma ext_list_text:
  assumes "spaces l" "\<forall>(t, ps) \<in> set es. token t \<and> (\<forall>p \<in> set ps. token (fst p))"
  shows "ext_list (l @ ext_text es) = map ext_map es"
  using assms
proof (induction es arbitrary: l rule: ext_text.induct)
  case 1
  then have "skipSpace l = []" using skip_spaces [of l "[]"] by (simp add: skipSpace_def)
  then show ?case by (subst ext_list.simps) (simp add: nextToken_def)
next
  case (2 t ps)
  then show ?case using ext_list_step [of l t ps "[]"] by simp
next
  case (3 t ps x xs)
  have "spaces '' ''" by (simp add: spaces_def)
  from 3(1) [OF this] 3(3) have "ext_list ('' '' @ ext_text (x # xs)) = map ext_map (x # xs)" by simp
  with 3 show ?case using ext_list_step [of l t ps "'', '' @ ext_text (x # xs)"] by simp
qed

end
