(* ===== verification/Ws_Upgrade.thy ===== *)
theory Ws_Upgrade
  imports Ws_Extensions Ws_Stream
begin

text \<open>
  The handshake of \<open>gorilla/websocket\<close> (server.go): how a HTTP request becomes a connection. SHA-1, the host
  that \<open>url.Parse\<close> finds in a text, and what \<open>Hijack\<close> gives are parameters. Compression is negotiated, but what a
  connection does with it is not modelled; pools of buffers and the deadlines of \<open>HandshakeTimeout\<close> are left out.
\<close>

section \<open>Requests, upgraders and results\<close>

record upgrade_request =
  ur_Method :: string
  ur_Header :: header
  ur_Host :: string

record ws_env =
  en_sha1 :: "string \<Rightarrow> string"
  en_url_host :: "string \<Rightarrow> string option"

record Upgrader =
  up_ReadBufferSize :: int
  up_WriteBufferSize :: int
  up_Subprotocols :: "string list option"
  up_CheckOrigin :: "(upgrade_request \<Rightarrow> bool) option"
  up_EnableCompression :: bool

text \<open>
  What \<open>Hijack\<close> gives: no hijacker, an error, or the connection, with the bytes that are buffered already, the
  size of the write buffer of the HTTP server, and the network.
\<close>

record network =
  nt_buffered :: nat
  nt_buffer :: nat
  nt_rand :: "nat \<Rightarrow> 32 word"
  nt_faults :: "(nat \<times> ws_error) option list"
  nt_in :: string
  nt_end :: ws_error

datatype hijack = NoHijacker | HijackFailed string | Hijacked network

text \<open>
  The answer with an error status and the header \<open>Sec-Websocket-Version: 13\<close>, for the reason given; a connection
  that is closed; or a connection in use, with its subprotocol and whether messages may be compressed.
\<close>

datatype upgrade = Refused nat string | Dropped ws_error | Upgraded string bool ws_conn

definition returnError :: "nat \<Rightarrow> string \<Rightarrow> upgrade" where
  "returnError status reason = Refused status reason"

section \<open>The checks\<close>

definition checkSameOrigin :: "ws_env \<Rightarrow> upgrade_request \<Rightarrow> bool" where
  "checkSameOrigin e r = (case header_values (ur_Header r) ''Origin'' of [] \<Rightarrow> True
     | origin # _ \<Rightarrow>
         (case en_url_host e origin of None \<Rightarrow> False | Some host \<Rightarrow> equalASCIIFold host (ur_Host r)))"

definition Subprotocols :: "upgrade_request \<Rightarrow> string list" where
  "Subprotocols r =
     (let h = TrimSpace (header_get (ur_Header r) ''Sec-Websocket-Protocol'') in
      if h = [] then [] else map TrimSpace (Split CHR '','' h))"

definition IsWebSocketUpgrade :: "upgrade_request \<Rightarrow> bool" where
  "IsWebSocketUpgrade r \<longleftrightarrow> tokenListContainsValue (ur_Header r) ''Connection'' ''upgrade'' \<and>
     tokenListContainsValue (ur_Header r) ''Upgrade'' ''websocket''"

definition selectSubprotocol :: "Upgrader \<Rightarrow> upgrade_request \<Rightarrow> header option \<Rightarrow> string" where
  "selectSubprotocol u r responseHeader =
     (case up_Subprotocols u of
        Some protocols \<Rightarrow>
          (case find (\<lambda>p. p \<in> set (Subprotocols r)) protocols of None \<Rightarrow> [] | Some p \<Rightarrow> p)
      | None \<Rightarrow>
          (case responseHeader of None \<Rightarrow> [] | Some h \<Rightarrow> header_get h ''Sec-Websocket-Protocol''))"

text \<open>The compression that is agreed upon.\<close>

definition negotiate :: "Upgrader \<Rightarrow> upgrade_request \<Rightarrow> bool" where
  "negotiate u r \<longleftrightarrow> up_EnableCompression u \<and>
     list_ex (\<lambda>ext. gm_get ext [] = Some ''permessage-deflate'') (parseExtensions (ur_Header r))"

section \<open>The response\<close>

definition crlf :: string where "crlf = [CHR 0x0D, CHR 0x0A]"

definition header_value :: "string \<Rightarrow> string" where
  "header_value v = map (\<lambda>b. if byte_of b \<le> 31 then CHR '' '' else b) v"

text \<open>The lines of the given header, in the order of the map, without the one that was negotiated.\<close>

definition header_lines :: "header \<Rightarrow> string list" where
  "header_lines h = concat (map (\<lambda>(k, vs). if k = ''Sec-Websocket-Protocol'' then []
     else map (\<lambda>v. k @ '': '' @ header_value v) vs) h)"

definition response_lines :: "string \<Rightarrow> string \<Rightarrow> bool \<Rightarrow> header option \<Rightarrow> string list" where
  "response_lines accept subprotocol compress responseHeader =
     [''HTTP/1.1 101 Switching Protocols'', ''Upgrade: websocket'', ''Connection: Upgrade'',
      ''Sec-WebSocket-Accept: '' @ accept] @
     (if subprotocol = [] then [] else [''Sec-WebSocket-Protocol: '' @ subprotocol]) @
     (if compress then [''Sec-WebSocket-Extensions: permessage-deflate; server_no_context_takeover; client_no_context_takeover'']
      else []) @
     (case responseHeader of None \<Rightarrow> [] | Some h \<Rightarrow> header_lines h)"

definition response_text :: "string list \<Rightarrow> string" where
  "response_text ls = concat (map (\<lambda>l. l @ crlf) ls) @ crlf"

section \<open>The upgrade\<close>

abbreviation (input) badHandshake :: string where
  "badHandshake \<equiv> ''websocket: the client is not using the websocket protocol: ''"

text \<open>The write buffer of the HTTP server is used where the upgrader sets no size and it is large enough.\<close>

definition write_buffer :: "Upgrader \<Rightarrow> network \<Rightarrow> int" where
  "write_buffer u n = (if up_WriteBufferSize u = 0 \<and> 14 + 256 \<le> nt_buffer n then int (nt_buffer n) - 14
     else up_WriteBufferSize u)"

text \<open>The checks, in their order, with the status and the reason of the first that fails.\<close>

definition handshake_error :: "ws_env \<Rightarrow> Upgrader \<Rightarrow> upgrade_request \<Rightarrow> header option \<Rightarrow> (nat \<times> string) option" where
  "handshake_error e u r responseHeader =
     (if \<not> tokenListContainsValue (ur_Header r) ''Connection'' ''upgrade'' then
        Some (400, badHandshake @ [CHR 0x27] @ ''upgrade'' @ [CHR 0x27] @ '' token not found in '' @ [CHR 0x27] @ ''Connection'' @ [CHR 0x27] @ '' header'')
      else if \<not> tokenListContainsValue (ur_Header r) ''Upgrade'' ''websocket'' then
        Some (400, badHandshake @ [CHR 0x27] @ ''websocket'' @ [CHR 0x27] @ '' token not found in '' @ [CHR 0x27] @ ''Upgrade'' @ [CHR 0x27] @ '' header'')
      else if ur_Method r \<noteq> ''GET'' then Some (405, badHandshake @ ''request method is not GET'')
      else if \<not> tokenListContainsValue (ur_Header r) ''Sec-Websocket-Version'' ''13'' then
        Some (400, ''websocket: unsupported version: 13 not found in '' @ [CHR 0x27] @ ''Sec-Websocket-Version'' @ [CHR 0x27] @ '' header'')
      else if (case responseHeader of None \<Rightarrow> False | Some h \<Rightarrow> gm_get h ''Sec-Websocket-Extensions'' \<noteq> None) then
        Some (500, ''websocket: application specific '' @ [CHR 0x27] @ ''Sec-WebSocket-Extensions'' @ [CHR 0x27] @ '' headers are unsupported'')
      else if \<not> (case up_CheckOrigin u of None \<Rightarrow> checkSameOrigin e r | Some checkOrigin \<Rightarrow> checkOrigin r) then
        Some (403, ''websocket: request origin not allowed by Upgrader.CheckOrigin'')
      else if \<not> isValidChallengeKey (header_get (ur_Header r) ''Sec-Websocket-Key'') then
        Some (400, ''websocket: not a websocket handshake: '' @ [CHR 0x27] @ ''Sec-WebSocket-Key'' @ [CHR 0x27] @
          '' header must be Base64 encoded value of 16-byte in length'')
      else None)"

definition Upgrade :: "ws_env \<Rightarrow> Upgrader \<Rightarrow> upgrade_request \<Rightarrow> header option \<Rightarrow> hijack \<Rightarrow> upgrade" where
  "Upgrade e u r responseHeader hj =
     (case handshake_error e u r responseHeader of
        Some (status, reason) \<Rightarrow> returnError status reason
      | None \<Rightarrow>
          let challengeKey = header_get (ur_Header r) ''Sec-Websocket-Key'';
              subprotocol = selectSubprotocol u r responseHeader;
              compress = negotiate u r in
          (case hj of
             NoHijacker \<Rightarrow> returnError 500 ''websocket: response does not implement http.Hijacker''
           | HijackFailed err \<Rightarrow> returnError 500 err
           | Hijacked n \<Rightarrow>
               if 0 < nt_buffered n then
                 Dropped (WsError ''websocket: client sent data before handshake is complete'')
               else
                 let c = newConn True (write_buffer u n) (nt_rand n) (nt_faults n) (nt_in n) (nt_end n);
                     p = response_text (response_lines (computeAcceptKey (en_sha1 e) challengeKey) subprotocol compress responseHeader)
                 in (case net_write p c of
                     (Some err, c) \<Rightarrow> Dropped err
                   | (None, c) \<Rightarrow> Upgraded subprotocol compress c)))"

text \<open>The upgraders of the server: \<open>middleware.Upgrader\<close> for the lobby, \<open>upgrader\<close> for the tables.\<close>

definition lobby_upgrader :: Upgrader where
  "lobby_upgrader = \<lparr>up_ReadBufferSize = 0, up_WriteBufferSize = 0, up_Subprotocols = None,
     up_CheckOrigin = Some (\<lambda>r. True), up_EnableCompression = False\<rparr>"

definition table_upgrader :: Upgrader where
  "table_upgrader = \<lparr>up_ReadBufferSize = 1024, up_WriteBufferSize = 1024, up_Subprotocols = None,
     up_CheckOrigin = Some (\<lambda>r. True), up_EnableCompression = False\<rparr>"

section \<open>Who gets a connection\<close>

definition proper_handshake :: "upgrade_request \<Rightarrow> bool" where
  "proper_handshake r \<longleftrightarrow> IsWebSocketUpgrade r \<and> ur_Method r = ''GET'' \<and>
     tokenListContainsValue (ur_Header r) ''Sec-Websocket-Version'' ''13'' \<and>
     isValidChallengeKey (header_get (ur_Header r) ''Sec-Websocket-Key'')"

definition allowed_origin :: "ws_env \<Rightarrow> Upgrader \<Rightarrow> upgrade_request \<Rightarrow> bool" where
  "allowed_origin e u r \<longleftrightarrow>
     (case up_CheckOrigin u of None \<Rightarrow> checkSameOrigin e r | Some checkOrigin \<Rightarrow> checkOrigin r)"

definition no_extensions :: "header option \<Rightarrow> bool" where
  "no_extensions h \<longleftrightarrow> (case h of None \<Rightarrow> True | Some h \<Rightarrow> gm_get h ''Sec-Websocket-Extensions'' = None)"

lemma net_write_sent: "net_write p c = (None, c') \<Longrightarrow>
    c' = c\<lparr>wc_out := wc_out c @ p, wc_netFaults := tl (wc_netFaults c)\<rparr>"
  by (auto simp: net_write_def split: list.splits option.splits)

lemma no_handshake_error:
  "handshake_error e u r h = None \<longleftrightarrow> proper_handshake r \<and> allowed_origin e u r \<and> no_extensions h"
  unfolding proper_handshake_def IsWebSocketUpgrade_def allowed_origin_def no_extensions_def handshake_error_def
  by (simp split: option.split)

lemma handshake_error_status: "handshake_error e u r h = Some (status, reason) \<Longrightarrow> status \<in> {400, 403, 405, 500}"
  by (auto simp: handshake_error_def split: if_splits)

lemma Upgrade_upgraded:
  assumes "Upgrade e u r h hj = Upgraded p z c"
  shows "proper_handshake r \<and> allowed_origin e u r \<and> no_extensions h \<and>
    (\<exists>n. hj = Hijacked n \<and> nt_buffered n = 0 \<and> p = selectSubprotocol u r h \<and> z = negotiate u r \<and>
      net_write (response_text (response_lines (computeAcceptKey (en_sha1 e)
          (header_get (ur_Header r) ''Sec-Websocket-Key'')) p z h))
        (newConn True (write_buffer u n) (nt_rand n) (nt_faults n) (nt_in n) (nt_end n)) = (None, c))"
proof (cases "handshake_error e u r h")
  case None
  with assms show ?thesis
    using no_handshake_error [of e u r h] unfolding Upgrade_def returnError_def Let_def
    by (auto split: hijack.splits if_splits prod.splits option.splits)
qed (use assms in \<open>auto simp: Upgrade_def returnError_def\<close>)

text \<open>A client that offers extensions, in one header as it is written.\<close>

definition offers :: "upgrade_request \<Rightarrow> (string \<times> (string \<times> string) list) list \<Rightarrow> bool" where
  "offers r es \<longleftrightarrow> header_values (ur_Header r) ''Sec-Websocket-Extensions'' = [ext_text es] \<and>
     (\<forall>(t, ps) \<in> set es. token t \<and> (\<forall>p \<in> set ps. token (fst p)))"

lemma ext_map_name: "\<forall>p \<in> set ps. token (fst p) \<Longrightarrow> gm_get (ext_map (t, ps)) [] = Some t"
proof -
  have "\<forall>p \<in> set ps. token (fst p) \<Longrightarrow> gm_get (fold (\<lambda>(k, v). gm_put k v) ps m) [] = gm_get m []" for m
    by (induction ps arbitrary: m) (auto simp: token_def)
  then show "\<forall>p \<in> set ps. token (fst p) \<Longrightarrow> gm_get (ext_map (t, ps)) [] = Some t" by (simp add: ext_map_def)
qed

lemma negotiate_offers:
  assumes "offers r es"
  shows "negotiate u r \<longleftrightarrow> up_EnableCompression u \<and> ''permessage-deflate'' \<in> fst ` set es"
proof -
  have "parseExtensions (ur_Header r) = map ext_map es"
    using ext_list_text [of "[]" es] assms by (simp add: parseExtensions_def offers_def spaces_def)
  moreover have "\<forall>x \<in> set es. gm_get (ext_map x) [] = Some (fst x)"
    using assms ext_map_name by (auto simp: offers_def)
  ultimately show ?thesis by (force simp: negotiate_def list_ex_iff)
qed

section \<open>The response is not split\<close>

definition one_line :: "string \<Rightarrow> bool" where
  "one_line s \<longleftrightarrow> (\<forall>c \<in> set s. \<not> line_break c)"

lemma one_line_simps [simp]: "one_line []" "one_line (c # s) \<longleftrightarrow> \<not> line_break c \<and> one_line s"
  "one_line (a @ b) \<longleftrightarrow> one_line a \<and> one_line b"
  by (auto simp: one_line_def)

lemma header_value_line: "one_line (header_value v)"
proof -
  have "\<not> line_break c" if "\<not> byte_of c \<le> 31" for c
    using that by (auto simp: line_break_def byte_of_def)
  moreover have "\<not> line_break CHR '' ''" by (simp add: line_break_def)
  ultimately show ?thesis by (auto simp: one_line_def header_value_def)
qed

lemma accept_line: "one_line (EncodeToString s)"
proof -
  have al: "length std_alphabet = 64" using std_alphabet_ok(1) by (simp add: alphabet_ok_def)
  have "\<not> line_break CHR ''=''" by (simp add: line_break_def)
  then show ?thesis
    using encode_chars [OF al, of s] std_alphabet_ok(1)
    by (auto simp: one_line_def EncodeToString_def alphabet_ok_def)
qed

definition header_names :: "header option \<Rightarrow> string list" where
  "header_names h = (case h of None \<Rightarrow> [] | Some h \<Rightarrow> map fst h)"

lemma header_lines_line:
  assumes "\<forall>k \<in> set (header_names (Some h)). one_line k"
  shows "\<forall>l \<in> set (header_lines h). one_line l"
proof
  fix l
  assume "l \<in> set (header_lines h)"
  then obtain k vs v where "(k, vs) \<in> set h" "k \<noteq> ''Sec-Websocket-Protocol''" "l = k @ '': '' @ header_value v"
    by (auto simp: header_lines_def split: if_splits)
  with assms header_value_line [of v] show "one_line l" by (force simp: line_break_def header_names_def)
qed

text \<open>The lines that a client finds in the response: what stands between its line breaks.\<close>

fun find_lines :: "string \<Rightarrow> string list" where
  "find_lines (c # d # s) = (if [c, d] = crlf then [] # find_lines s
     else (case find_lines (d # s) of [] \<Rightarrow> [[c]] | l # ls \<Rightarrow> (c # l) # ls))"
| "find_lines s = (if s = [] then [] else [s])"

lemma find_lines_line: "one_line l \<Longrightarrow> find_lines (l @ crlf @ s) = l # find_lines s"
proof (induction l)
  case (Cons c l)
  then have c: "c \<noteq> CHR 0x0D" "one_line l" by (auto simp: one_line_def line_break_def)
  obtain d t where "l @ crlf @ s = d # t" by (cases l) (auto simp: crlf_def)
  with Cons.IH [OF c(2)] c(1) show ?case by (simp add: crlf_def)
qed (simp add: crlf_def)

lemma response_found: "\<forall>l \<in> set ls. one_line l \<Longrightarrow> find_lines (response_text ls) = ls @ [[]]"
proof (induction ls)
  case Nil
  then show ?case by (simp add: response_text_def crlf_def)
next
  case (Cons l ls)
  then show ?case using find_lines_line [of l "response_text ls"] by (simp add: response_text_def)
qed

lemma response_lines_line:
  assumes "one_line subprotocol" "\<forall>k \<in> set (header_names h). one_line k"
  shows "\<forall>l \<in> set (response_lines (computeAcceptKey sha1 key) subprotocol compress h). one_line l"
  using assms accept_line header_lines_line
  unfolding response_lines_def computeAcceptKey_def
  by (auto simp: line_break_def split: option.splits)

end
