(* ===== verification/Mux.thy ===== *)
theory Mux
  imports Go_Strings
begin

text \<open>
  The router of \<open>gorilla/mux\<close> (mux.go, route.go, regexp.go), as far as routes by path and method need it: the
  templates and the expressions made of them, routes and their matchers, the search for a route with the errors it
  leaves, and what is answered. The engine of package \<open>regexp\<close> is a parameter. Hosts, queries, headers, schemes,
  subrouters, middlewares, strict slashes and the building of URLs are left out: the server uses none of them.
\<close>

section \<open>Templates (regexp.go)\<close>

text \<open>
  \<open>rg_lengths p s\<close> are the lengths of the beginnings of \<open>s\<close> that the pattern \<open>p\<close> matches, in the order in which the
  engine prefers them; \<open>rg_error p\<close> is the error of compiling it, \<open>rg_groups p\<close> the number of its groups.
\<close>

record engine =
  rg_lengths :: "string \<Rightarrow> string \<Rightarrow> nat list"
  rg_error :: "string \<Rightarrow> string option"
  rg_groups :: "string \<Rightarrow> nat"

datatype mux_error = UnbalancedBraces string | MissingName string | BadPattern string | NoSlash string

text \<open>The outermost pairs of braces, each with the index after it.\<close>

fun brace_loop :: "nat \<Rightarrow> int \<Rightarrow> nat \<Rightarrow> string \<Rightarrow> (nat \<times> nat) list option" where
  "brace_loop i level idx [] = (if level \<noteq> 0 then None else Some [])"
| "brace_loop i level idx (c # s) =
     (if c = CHR ''{'' then brace_loop (i + 1) (level + 1) (if level + 1 = 1 then i else idx) s
      else if c = CHR ''}'' then
        (if level - 1 = 0 then map_option ((#) (idx, i + 1)) (brace_loop (i + 1) 0 idx s)
         else if level - 1 < 0 then None
         else brace_loop (i + 1) (level - 1) idx s)
      else brace_loop (i + 1) level idx s)"

definition braceIndices :: "string \<Rightarrow> mux_error + (nat \<times> nat) list" where
  "braceIndices s = (case brace_loop 0 0 0 s of None \<Rightarrow> Inl (UnbalancedBraces s) | Some idxs \<Rightarrow> Inr idxs)"

text \<open>
  An expression: for each variable the text before it, its name and its pattern, then the text after the
  last. The text is quoted, so that it matches itself only; the whole is anchored at both ends.
\<close>

record routeRegexp =
  rx_template :: string
  rx_parts :: "(string \<times> string \<times> string) list"
  rx_tail :: string

definition slice :: "string \<Rightarrow> nat \<Rightarrow> nat \<Rightarrow> string" where
  "slice s a b = take (b - a) (drop a s)"

definition defaultPattern :: string where "defaultPattern = ''[^/]+''"

definition name_pattern :: "string \<Rightarrow> string \<times> string" where
  "name_pattern s = (takeWhile (\<lambda>c. c \<noteq> CHR '':'') s,
     case dropWhile (\<lambda>c. c \<noteq> CHR '':'') s of [] \<Rightarrow> defaultPattern | _ # patt \<Rightarrow> patt)"

fun regexp_parts :: "engine \<Rightarrow> string \<Rightarrow> nat \<Rightarrow> (nat \<times> nat) list \<Rightarrow>
    mux_error + (string \<times> string \<times> string) list \<times> string" where
  "regexp_parts g tpl end [] = Inr ([], drop end tpl)"
| "regexp_parts g tpl end ((a, b) # idxs) =
     (case name_pattern (slice tpl (a + 1) (b - 1)) of (name, patt) \<Rightarrow>
        if name = [] \<or> patt = [] then Inl (MissingName (slice tpl a b))
        else case rg_error g patt of Some e \<Rightarrow> Inl (BadPattern e)
        | None \<Rightarrow>
            (case regexp_parts g tpl b idxs of Inl e \<Rightarrow> Inl e
             | Inr (parts, tail) \<Rightarrow> Inr ((slice tpl end a, name, patt) # parts, tail)))"

text \<open>\<open>None\<close> is the panic on patterns with groups of their own.\<close>

definition newRouteRegexp :: "engine \<Rightarrow> string \<Rightarrow> (mux_error + routeRegexp) option" where
  "newRouteRegexp g tpl =
     (case braceIndices tpl of Inl e \<Rightarrow> Some (Inl e)
      | Inr idxs \<Rightarrow>
          (case regexp_parts g tpl 0 idxs of Inl e \<Rightarrow> Some (Inl e)
           | Inr (parts, tail) \<Rightarrow>
               if sum_list (map (\<lambda>(_, _, patt). rg_groups g patt) parts) \<noteq> 0 then None
               else Some (Inr \<lparr>rx_template = tpl, rx_parts = parts, rx_tail = tail\<rparr>)))"

text \<open>A match of the expression: the values of the variables, by the preferences of the patterns.\<close>

fun first_some :: "('a \<Rightarrow> 'b option) \<Rightarrow> 'a list \<Rightarrow> 'b option" where
  "first_some f [] = None"
| "first_some f (x # xs) = (case f x of None \<Rightarrow> first_some f xs | Some y \<Rightarrow> Some y)"

fun submatches :: "engine \<Rightarrow> (string \<times> string \<times> string) list \<Rightarrow> string \<Rightarrow> string \<Rightarrow> string list option" where
  "submatches g [] tail s = (if s = tail then Some [] else None)"
| "submatches g ((raw, name, patt) # parts) tail s =
     (if take (length raw) s = raw then
        (let rest = drop (length raw) s in
         first_some (\<lambda>n. map_option ((#) (take n rest)) (submatches g parts tail (drop n rest)))
           (rg_lengths g patt rest))
      else None)"

definition FindStringSubmatch :: "engine \<Rightarrow> routeRegexp \<Rightarrow> string \<Rightarrow> string list option" where
  "FindStringSubmatch g x path = submatches g (rx_parts x) (rx_tail x) path"

definition varsN :: "routeRegexp \<Rightarrow> string list" where
  "varsN x = map (\<lambda>(_, name, _). name) (rx_parts x)"

definition extractVars :: "string list \<Rightarrow> string list \<Rightarrow> (string, string) gomap \<Rightarrow> (string, string) gomap" where
  "extractVars names vals output = fold (\<lambda>(name, v) m. gm_put name v m) (zip names vals) output"

section \<open>Routes (route.go)\<close>

datatype matcher = PathMatcher routeRegexp | MethodMatcher "string list"

record 'h mux_route =
  mr_handler :: "'h option"
  mr_err :: "mux_error option"
  mr_path :: "routeRegexp option"
  mr_matchers :: "matcher list"

definition newRoute :: "'h mux_route" where
  "newRoute = \<lparr>mr_handler = None, mr_err = None, mr_path = None, mr_matchers = []\<rparr>"

definition addMatcher :: "matcher \<Rightarrow> 'h mux_route \<Rightarrow> 'h mux_route" where
  "addMatcher m r = (if mr_err r = None then r\<lparr>mr_matchers := mr_matchers r @ [m]\<rparr> else r)"

definition trim_slashes :: "string \<Rightarrow> string" where
  "trim_slashes s = rev (dropWhile (\<lambda>c. c = CHR ''/'') (rev s))"

definition addRegexpMatcher :: "engine \<Rightarrow> string \<Rightarrow> 'h mux_route \<Rightarrow> (mux_error option \<times> 'h mux_route) option" where
  "addRegexpMatcher g tpl r =
     (if mr_err r \<noteq> None then Some (mr_err r, r)
      else if tpl \<noteq> [] \<and> hd tpl \<noteq> CHR ''/'' then Some (Some (NoSlash tpl), r)
      else
        let tpl = (case mr_path r of None \<Rightarrow> tpl | Some x \<Rightarrow> trim_slashes (rx_template x) @ tpl) in
        (case newRouteRegexp g tpl of None \<Rightarrow> None
         | Some (Inl e) \<Rightarrow> Some (Some e, r)
         | Some (Inr x) \<Rightarrow> Some (None, addMatcher (PathMatcher x) (r\<lparr>mr_path := Some x\<rparr>))))"

definition Path :: "engine \<Rightarrow> string \<Rightarrow> 'h mux_route \<Rightarrow> 'h mux_route option" where
  "Path g tpl r = map_option (\<lambda>(err, r). r\<lparr>mr_err := err\<rparr>) (addRegexpMatcher g tpl r)"

definition Handler :: "'h \<Rightarrow> 'h mux_route \<Rightarrow> 'h mux_route" where
  "Handler h r = (if mr_err r = None then r\<lparr>mr_handler := Some h\<rparr> else r)"

definition upper :: "char \<Rightarrow> char" where
  "upper c = (if in_range 97 122 c then char_of (byte_of c - 32) else c)"

text \<open>The methods are ASCII.\<close>

definition route_Methods :: "string list \<Rightarrow> 'h mux_route \<Rightarrow> 'h mux_route" where
  "route_Methods methods r = addMatcher (MethodMatcher (map (map upper) methods)) r"

datatype match_err = MethodMismatch | NotFound

record 'h route_match =
  mt_route :: "'h mux_route option"
  mt_handler :: "'h option"
  mt_vars :: "(string, string) gomap option"
  mt_err :: "match_err option"

definition no_match :: "'h route_match" where
  "no_match = \<lparr>mt_route = None, mt_handler = None, mt_vars = None, mt_err = None\<rparr>"

definition matcher_match :: "engine \<Rightarrow> string \<Rightarrow> string \<Rightarrow> matcher \<Rightarrow> bool" where
  "matcher_match g meth path m = (case m of
     PathMatcher x \<Rightarrow> FindStringSubmatch g x path \<noteq> None | MethodMatcher ms \<Rightarrow> meth \<in> set ms)"

text \<open>The loop over the matchers: \<open>None\<close> where the route is given up, else whether the method did not match.\<close>

fun match_loop :: "engine \<Rightarrow> string \<Rightarrow> string \<Rightarrow> matcher list \<Rightarrow> bool \<Rightarrow> 'h route_match \<Rightarrow> bool option \<times> 'h route_match" where
  "match_loop g meth path [] mismatch m = (Some mismatch, m)"
| "match_loop g meth path (x # xs) mismatch m =
     (if \<not> matcher_match g meth path x then
        (case x of
           MethodMatcher _ \<Rightarrow> match_loop g meth path xs True m
         | PathMatcher _ \<Rightarrow> (None, if mt_err m = Some NotFound then m\<lparr>mt_err := None\<rparr> else m))
      else match_loop g meth path xs mismatch (if mt_err m = Some MethodMismatch then m\<lparr>mt_err := None\<rparr> else m))"

definition setMatch :: "engine \<Rightarrow> string \<Rightarrow> 'h mux_route \<Rightarrow> (string, string) gomap \<Rightarrow> (string, string) gomap" where
  "setMatch g path r vars = (case mr_path r of None \<Rightarrow> vars
     | Some x \<Rightarrow> (case FindStringSubmatch g x path of None \<Rightarrow> vars | Some vals \<Rightarrow> extractVars (varsN x) vals vars))"

definition route_Match :: "engine \<Rightarrow> string \<Rightarrow> string \<Rightarrow> 'h mux_route \<Rightarrow> 'h route_match \<Rightarrow> bool \<times> 'h route_match" where
  "route_Match g meth path r m =
     (if mr_err r \<noteq> None then (False, m)
      else case match_loop g meth path (mr_matchers r) False m of
        (None, m) \<Rightarrow> (False, m)
      | (Some True, m) \<Rightarrow> (False, m\<lparr>mt_err := Some MethodMismatch\<rparr>)
      | (Some False, m) \<Rightarrow>
          let m = (if mt_err m = Some MethodMismatch \<and> mr_handler r \<noteq> None
                   then m\<lparr>mt_err := None, mt_handler := mr_handler r\<rparr> else m);
              m = (if mt_route m = None then m\<lparr>mt_route := Some r\<rparr> else m);
              m = (if mt_handler m = None then m\<lparr>mt_handler := mr_handler r\<rparr> else m);
              vars = (case mt_vars m of None \<Rightarrow> [] | Some vars \<Rightarrow> vars)
          in (True, m\<lparr>mt_vars := Some (setMatch g path r vars)\<rparr>))"

section \<open>The router (mux.go)\<close>

fun router_loop :: "engine \<Rightarrow> string \<Rightarrow> string \<Rightarrow> 'h mux_route list \<Rightarrow> 'h route_match \<Rightarrow> bool \<times> 'h route_match" where
  "router_loop g meth path [] m = (False, m)"
| "router_loop g meth path (r # rs) m = (case route_Match g meth path r m of
     (True, m) \<Rightarrow> (True, m) | (False, m) \<Rightarrow> router_loop g meth path rs m)"

definition router_Match :: "engine \<Rightarrow> string \<Rightarrow> string \<Rightarrow> 'h mux_route list \<Rightarrow> 'h route_match \<Rightarrow> bool \<times> 'h route_match" where
  "router_Match g meth path rs m = (case router_loop g meth path rs m of
     (True, m) \<Rightarrow> (True, m)
   | (False, m) \<Rightarrow> (False, if mt_err m = Some MethodMismatch then m else m\<lparr>mt_err := Some NotFound\<rparr>))"

text \<open>\<open>path.Clean\<close> of a path that begins with a slash, by its segments.\<close>

fun clean_segments :: "string list \<Rightarrow> string list \<Rightarrow> string list" where
  "clean_segments done [] = rev done"
| "clean_segments done (x # xs) =
     (if x = [] \<or> x = ''.'' then clean_segments done xs
      else if x = ''..'' then clean_segments (tl done) xs
      else clean_segments (x # done) xs)"

definition join_segments :: "string list \<Rightarrow> string" where
  "join_segments xs = (if xs = [] then ''/'' else concat (map ((#) CHR ''/'') xs))"

definition path_Clean :: "string \<Rightarrow> string" where
  "path_Clean p = join_segments (clean_segments [] (Split CHR ''/'' p))"

definition cleanPath :: "string \<Rightarrow> string" where
  "cleanPath p =
     (if p = [] then ''/''
      else
        let p = (if hd p \<noteq> CHR ''/'' then CHR ''/'' # p else p);
            np = path_Clean p
        in if last p = CHR ''/'' \<and> np \<noteq> ''/'' then np @ ''/'' else np)"

datatype 'h served = MovedTo string | Handled 'h "(string, string) gomap" | NotAllowed | NoRoute

definition ServeHTTP :: "engine \<Rightarrow> 'h mux_route list \<Rightarrow> string \<Rightarrow> string \<Rightarrow> 'h served" where
  "ServeHTTP g rs meth path =
     (if cleanPath path \<noteq> path then MovedTo (cleanPath path)
      else case router_Match g meth path rs no_match of
        (found, m) \<Rightarrow>
          (case (if found then mt_handler m else None) of
             Some h \<Rightarrow> Handled h (case mt_vars m of None \<Rightarrow> [] | Some vars \<Rightarrow> vars)
           | None \<Rightarrow> if mt_err m = Some MethodMismatch then NotAllowed else NoRoute))"

definition Handle :: "engine \<Rightarrow> string \<Rightarrow> 'h \<Rightarrow> 'h mux_route option" where
  "Handle g path h = map_option (Handler h) (Path g path newRoute)"

section \<open>Clean paths\<close>

definition plain_segment :: "string \<Rightarrow> bool" where
  "plain_segment x \<longleftrightarrow> x \<noteq> [] \<and> x \<noteq> ''.'' \<and> x \<noteq> ''..'' \<and> CHR ''/'' \<notin> set x"

lemma Split_nonempty [simp]: "Split c s \<noteq> []"
  by (induction s) auto

lemma Split_no_sep: "x \<in> set (Split c s) \<Longrightarrow> c \<notin> set x"
proof (induction s arbitrary: x)
  case (Cons d s)
  then show ?case using list.set_sel [of "Split c s"] by (auto split: if_splits)
qed simp

lemma Split_append: "c \<notin> set x \<Longrightarrow> Split c (x @ c # s) = x # Split c s"
  by (induction x) auto

lemma Split_none: "c \<notin> set x \<Longrightarrow> Split c x = [x]"
  by (induction x) auto

lemma clean_plain: "\<forall>x \<in> set done. plain_segment x \<Longrightarrow> \<forall>x \<in> set xs. CHR ''/'' \<notin> set x \<Longrightarrow>
    \<forall>x \<in> set (clean_segments done xs). plain_segment x"
proof (induction "done" xs rule: clean_segments.induct)
  case (2 "done" x xs)
  have xs: "\<forall>y \<in> set xs. CHR ''/'' \<notin> set y" "CHR ''/'' \<notin> set x" using 2(5) by simp_all
  have tl: "\<forall>y \<in> set (tl done). plain_segment y" using 2(4) by (cases "done") auto
  consider (skip) "x = [] \<or> x = ''.''" | (up) "\<not> (x = [] \<or> x = ''.'')" "x = ''..''"
    | (keep) "\<not> (x = [] \<or> x = ''.'')" "x \<noteq> ''..''" by blast
  then show ?case
  proof cases
    case skip
    with 2(1) [OF skip 2(4) xs(1)] show ?thesis by (simp only: clean_segments.simps if_True)
  next
    case up
    with 2(2) [OF up tl xs(1)] show ?thesis by (simp only: clean_segments.simps if_True if_False simp_thms)
  next
    case keep
    then have "plain_segment x" using xs(2) unfolding plain_segment_def by blast
    then have "\<forall>y \<in> set (x # done). plain_segment y" using 2(4) by simp
    with keep 2(3) [OF keep _ xs(1)] show ?thesis by (simp only: clean_segments.simps if_False)
  qed
qed simp

lemma clean_again: "\<forall>x \<in> set xs. plain_segment x \<Longrightarrow> clean_segments done (xs @ ys) = clean_segments (rev xs @ done) ys"
  by (induction xs arbitrary: "done") (auto simp: plain_segment_def)

lemma Split_concat: "\<forall>x \<in> set xs. plain_segment x \<Longrightarrow> xs \<noteq> [] \<Longrightarrow>
    Split CHR ''/'' (concat (map ((#) CHR ''/'') xs) @ r) = [] # butlast xs @ Split CHR ''/'' (last xs @ r)"
proof (induction xs)
  case (Cons x xs)
  show ?case
  proof (cases "xs = []")
    case False
    with Cons obtain y ys where xs: "xs = y # ys" by (cases xs) auto
    have "Split CHR ''/'' (concat (map ((#) CHR ''/'') xs) @ r) = [] # butlast xs @ Split CHR ''/'' (last xs @ r)"
      using Cons False by simp
    moreover have "CHR ''/'' \<notin> set x" using Cons.prems by (simp add: plain_segment_def)
    from Split_append [OF this] have "Split CHR ''/'' (x @ CHR ''/'' # t) = x # Split CHR ''/'' t" for t .
    ultimately show ?thesis using xs by simp
  qed simp
qed simp

lemma clean_of_segments:
  assumes "\<forall>x \<in> set xs. plain_segment x"
  shows "cleanPath (join_segments xs) = join_segments xs"
    and "xs \<noteq> [] \<Longrightarrow> cleanPath (join_segments xs @ ''/'') = join_segments xs @ ''/''"
proof -
  have last: "last (join_segments xs) \<noteq> CHR ''/''" if "xs \<noteq> []"
  proof -
    from that obtain ys y where xs: "xs = ys @ [y]" by (metis rev_exhaust)
    with assms have "y \<noteq> []" "CHR ''/'' \<notin> set y" by (auto simp: plain_segment_def)
    then have "last y \<noteq> CHR ''/''" by (metis last_in_set)
    then show ?thesis using \<open>y \<noteq> []\<close> by (simp add: join_segments_def xs)
  qed
  have hd: "hd (join_segments xs) = CHR ''/''" "join_segments xs \<noteq> []"
    by (cases xs; simp add: join_segments_def)+
  have neq: "join_segments xs \<noteq> ''/''" if "xs \<noteq> []" using last [OF that] by auto
  have last_plain: "CHR ''/'' \<notin> set (last xs)" "last xs \<noteq> []" if "xs \<noteq> []"
    using assms that last_in_set [of xs] by (auto simp: plain_segment_def)
  have *: "path_Clean (join_segments xs) = join_segments xs"
    "xs \<noteq> [] \<Longrightarrow> path_Clean (join_segments xs @ ''/'') = join_segments xs"
  proof -
    show "path_Clean (join_segments xs) = join_segments xs"
    proof (cases "xs = []")
      case False
      have "Split CHR ''/'' (join_segments xs) = [] # xs"
        using Split_concat [OF assms False, of "[]"] False last_plain [OF False]
        by (simp add: join_segments_def Split_none)
      then show ?thesis using clean_again [OF assms, of "[]" "[]"] by (simp add: path_Clean_def)
    qed (simp add: path_Clean_def join_segments_def)
    assume xs: "xs \<noteq> []"
    have "Split CHR ''/'' (last xs @ ''/'') = [last xs, []]"
      using Split_append [of "CHR ''/''" "last xs" "[]"] last_plain [OF xs] by simp
    then have "Split CHR ''/'' (join_segments xs @ ''/'') = [] # xs @ [[]]"
      using Split_concat [OF assms xs, of "''/''"] xs by (simp add: join_segments_def)
    then show "path_Clean (join_segments xs @ ''/'') = join_segments xs"
      using clean_again [OF assms, of "[]" "[[]]"] by (simp add: path_Clean_def)
  qed
  show "cleanPath (join_segments xs) = join_segments xs"
    using *(1) hd last by (cases "xs = []") (auto simp: cleanPath_def Let_def join_segments_def [of "[]"])
  show "cleanPath (join_segments xs @ ''/'') = join_segments xs @ ''/''" if "xs \<noteq> []"
    using *(2) [OF that] hd neq [OF that] by (simp add: cleanPath_def Let_def)
qed

text \<open>A path that was cleaned stays as it is: the answer to a redirection is not redirected again.\<close>

lemma cleanPath_idem: "cleanPath (cleanPath p) = cleanPath p"
proof -
  have "\<exists>xs. (\<forall>x \<in> set xs. plain_segment x) \<and> path_Clean q = join_segments xs" for q
    using clean_plain [of "[]" "Split CHR ''/'' q"] Split_no_sep [of _ "CHR ''/''" q]
    by (auto simp: path_Clean_def)
  then obtain xs where xs: "\<forall>x \<in> set xs. plain_segment x"
    "path_Clean (if hd p \<noteq> CHR ''/'' then CHR ''/'' # p else p) = join_segments xs" by blast
  show ?thesis
  proof (cases "p = []")
    case True
    then show ?thesis using clean_of_segments(1) [of "[]"] by (simp add: cleanPath_def join_segments_def)
  next
    case False
    then have "cleanPath p = join_segments xs \<or> cleanPath p = join_segments xs @ ''/'' \<and> xs \<noteq> []"
      using xs(2) by (auto simp: cleanPath_def Let_def join_segments_def)
    then show ?thesis using clean_of_segments [OF xs(1)] by auto
  qed
qed

end
