(* ===== verification/Mux_Routes.thy ===== *)
theory Mux_Routes
  imports Routes Mux
begin

text \<open>
  The router of main.go on \<open>gorilla/mux\<close>: the routes registered as the code registers them are searched and
  answered as theory \<open>Routes\<close> says, once the path is clean; a path that is not is answered with a redirection.
\<close>

section \<open>Registering the routes\<close>

definition muxed :: "engine \<Rightarrow> route \<Rightarrow> route mux_route option" where
  "muxed g r = map_option (\<lambda>m. if ro_methods r = [] then m else route_Methods (ro_methods r) m)
     (Handle g (ro_template r) r)"

definition router :: "engine \<Rightarrow> route mux_route list option" where
  "router g = those (map (muxed g) routes)"

definition answer :: "go_env \<Rightarrow> inputs \<Rightarrow> http_request \<Rightarrow> route served \<Rightarrow> (bjworld, outcome) prog" where
  "answer env i q s = (case s of
     MovedTo p \<Rightarrow> Ret (Status 301)
   | NotAllowed \<Rightarrow> Ret (Status 405)
   | NoRoute \<Rightarrow> Ret (Status 404)
   | Handled route vars \<Rightarrow>
       let r = (hq_request q)\<lparr>rq_vars := vars, rq_ctx := None\<rparr> in
       if ro_secured route then JWTMiddleware env refuse (handler env i (ro_endpoint route)) r
       else handler env i (ro_endpoint route) r)"

text \<open>
  What is documented of \<open>regexp\<close> for the pattern of a variable: it is well-formed, without groups, and matches the
  characters up to the next slash, if there are any, or fewer of them.
\<close>

definition to_slash :: "string \<Rightarrow> nat" where
  "to_slash s = length (takeWhile (\<lambda>c. c \<noteq> CHR ''/'') s)"

definition matches_segments :: "engine \<Rightarrow> bool" where
  "matches_segments g \<longleftrightarrow> rg_error g defaultPattern = None \<and> rg_groups g defaultPattern = 0 \<and>
     (\<forall>s. (\<forall>k \<in> set (rg_lengths g defaultPattern s). 0 < k \<and> k \<le> to_slash s) \<and>
        (0 < to_slash s \<longrightarrow> to_slash s \<in> set (rg_lengths g defaultPattern s)))"

section \<open>Segments\<close>

lemma segments_Split: "segments s = Split CHR ''/'' s"
proof (induction s)
  case (Cons c s)
  then show ?case by (cases "Split CHR ''/'' s") auto
qed simp

fun unsplit :: "'a \<Rightarrow> 'a list list \<Rightarrow> 'a list" where
  "unsplit c [] = []"
| "unsplit c [x] = x"
| "unsplit c (x # y # xs) = x @ c # unsplit c (y # xs)"

lemma unsplit_Cons: "xs \<noteq> [] \<Longrightarrow> unsplit c (x # xs) = x @ c # unsplit c xs"
  by (cases xs) auto

lemma unsplit_Split [simp]: "unsplit c (Split c s) = s"
proof (induction s)
  case (Cons d s)
  obtain x xs where "Split c s = x # xs" by (cases "Split c s") auto
  with Cons show ?case by (cases xs) auto
qed simp

lemma unsplit_append: "xs \<noteq> [] \<Longrightarrow> ys \<noteq> [] \<Longrightarrow> unsplit c (xs @ ys) = unsplit c xs @ c # unsplit c ys"
proof (induction xs)
  case (Cons x xs)
  then show ?case by (cases "xs = []") (simp_all add: unsplit_Cons)
qed simp

lemma Split_inj: "Split c s = Split c t \<longleftrightarrow> s = t"
  by (metis unsplit_Split)

lemma Split_middle: "Split c (s @ c # t) = Split c s @ Split c t"
  by (induction s) auto

lemma Split_prefix:
  "(\<exists>q. p = a @ c # q) \<longleftrightarrow> take (length (Split c a)) (Split c p) = Split c a \<and> length (Split c a) < length (Split c p)"
proof
  assume r: "take (length (Split c a)) (Split c p) = Split c a \<and> length (Split c a) < length (Split c p)"
  let ?ys = "drop (length (Split c a)) (Split c p)"
  have "Split c p = Split c a @ ?ys" "?ys \<noteq> []" using r append_take_drop_id [of "length (Split c a)" "Split c p"] by auto
  then have "p = a @ c # unsplit c ?ys" using unsplit_append [of "Split c a" ?ys c] by (metis Split_nonempty unsplit_Split)
  then show "\<exists>q. p = a @ c # q" by blast
qed (auto simp: Split_middle)

lemma Split_first:
  "Split c s = takeWhile (\<lambda>d. d \<noteq> c) s # (case dropWhile (\<lambda>d. d \<noteq> c) s of [] \<Rightarrow> [] | _ # r \<Rightarrow> Split c r)"
  by (induction s) auto

text \<open>Literal segments of a template.\<close>

definition no_braces :: "string \<Rightarrow> bool" where
  "no_braces s \<longleftrightarrow> CHR ''{'' \<notin> set s \<and> CHR ''}'' \<notin> set s"

lemma Split_subset: "x \<in> set (Split c s) \<Longrightarrow> set x \<subseteq> set s"
proof (induction s arbitrary: x)
  case (Cons d s)
  obtain y ys where ys: "Split c s = y # ys" by (cases "Split c s") auto
  with Cons.IH have "set y \<subseteq> set s" "\<forall>z \<in> set ys. set z \<subseteq> set s" by auto
  with Cons.prems ys show ?case by (auto split: if_splits)
qed simp

lemma literal_segments:
  assumes "no_braces s" "t \<in> set (Split c s)"
  shows "template_var t = None"
proof (rule ccontr)
  assume "template_var t \<noteq> None"
  then have "t \<noteq> []" "hd t = CHR ''{''" by (simp_all add: template_var_def split: if_splits)
  then have "CHR ''{'' \<in> set t" by (metis list.set_sel(1))
  with assms Split_subset show False unfolding no_braces_def by blast
qed

lemma match_literals:
  "\<forall>t \<in> set ts. template_var t = None \<Longrightarrow> match_segments (ts @ us) ps =
     (if take (length ts) ps = ts then match_segments us (drop (length ts) ps) else None)"
proof (induction ts arbitrary: ps)
  case (Cons t ts)
  then show ?case by (cases ps) auto
qed simp

lemma match_literal_template:
  assumes "no_braces t"
  shows "match_segments (segments t) (segments p) = (if p = t then Some [] else None)"
proof -
  have lits: "\<forall>x \<in> set (segments t). template_var x = None"
    using literal_segments [OF assms] by (simp add: segments_Split)
  have "match_segments [] ps = (if ps = [] then Some [] else None)" for ps by (cases ps) auto
  then show ?thesis
    using match_literals [OF lits, of "[]" "segments p"] Split_inj [of "CHR ''/''" p t]
    by (auto simp: segments_Split)
qed

section \<open>Templates with one variable\<close>

definition var_tail :: "string \<Rightarrow> bool" where
  "var_tail b \<longleftrightarrow> no_braces b \<and> (b = [] \<or> hd b = CHR ''/'')"

definition var_name :: "string \<Rightarrow> bool" where
  "var_name x \<longleftrightarrow> x \<noteq> [] \<and> no_braces x \<and> CHR '':'' \<notin> set x \<and> CHR ''/'' \<notin> set x"

definition var_template :: "string \<Rightarrow> string \<Rightarrow> string \<Rightarrow> string" where
  "var_template a x b = a @ ''/{'' @ x @ ''}'' @ b"

lemma to_slash_parts: "take (to_slash q) q = takeWhile (\<lambda>c. c \<noteq> CHR ''/'') q" "drop (to_slash q) q = dropWhile (\<lambda>c. c \<noteq> CHR ''/'') q"
  unfolding to_slash_def by (rule takeWhile_eq_take [symmetric] dropWhile_eq_drop [symmetric])+

lemma to_slash_length: "length (take (to_slash q) q) = to_slash q"
  unfolding to_slash_parts by (simp add: to_slash_def)

lemma first_some_only: "\<forall>k \<in> set ks. f k \<noteq> None \<longrightarrow> k = n \<Longrightarrow> first_some f ks = (if n \<in> set ks then f n else None)"
  by (induction ks) (auto split: option.split)

lemma before_slash: "k < to_slash q \<Longrightarrow> drop k q \<noteq> [] \<and> hd (drop k q) \<noteq> CHR ''/''"
proof -
  assume k: "k < to_slash q"
  let ?h = "takeWhile (\<lambda>c. c \<noteq> CHR ''/'') q"
  have "?h ! k \<in> set ?h" using k unfolding to_slash_def by (rule nth_mem)
  then have "?h ! k \<noteq> CHR ''/''" by (auto dest: set_takeWhileD)
  then have "q ! k \<noteq> CHR ''/''" using k takeWhile_nth [of k "\<lambda>c. c \<noteq> CHR ''/''" q] by (simp add: to_slash_def)
  moreover have "k < length q" using k length_takeWhile_le [of "\<lambda>c. c \<noteq> CHR ''/''" q] by (simp add: to_slash_def)
  ultimately show ?thesis by (simp add: hd_drop_conv_nth)
qed

text \<open>What the expression of such a template finds.\<close>

lemma var_submatches:
  assumes "matches_segments g" "var_tail b"
  shows "submatches g [(a @ ''/'', x, defaultPattern)] b (a @ ''/'' @ q) =
      (if 0 < to_slash q \<and> drop (to_slash q) q = b then Some [take (to_slash q) q] else None)"
    and "\<nexists>q. p = a @ CHR ''/'' # q \<Longrightarrow> submatches g [(a @ ''/'', x, defaultPattern)] b p = None"
proof -
  let ?f = "\<lambda>n. map_option ((#) (take n q)) (submatches g [] b (drop n q))"
  let ?ks = "rg_lengths g defaultPattern q"
  have ks: "\<forall>k \<in> set ?ks. 0 < k \<and> k \<le> to_slash q" "0 < to_slash q \<longrightarrow> to_slash q \<in> set ?ks"
    using assms(1) by (simp_all add: matches_segments_def)
  have "\<forall>k \<in> set ?ks. ?f k \<noteq> None \<longrightarrow> k = to_slash q"
  proof (intro ballI impI)
    fix k
    assume k: "k \<in> set ?ks" "?f k \<noteq> None"
    then have "drop k q = b" by (auto split: if_splits)
    then have "\<not> k < to_slash q" using before_slash [of k q] assms(2) by (auto simp: var_tail_def)
    with k(1) ks(1) show "k = to_slash q" by fastforce
  qed
  from first_some_only [OF this] show "submatches g [(a @ ''/'', x, defaultPattern)] b (a @ ''/'' @ q) =
      (if 0 < to_slash q \<and> drop (to_slash q) q = b then Some [take (to_slash q) q] else None)"
    using ks by (auto simp: Let_def)
  assume no: "\<nexists>q. p = a @ CHR ''/'' # q"
  have "take (Suc (length a)) p \<noteq> a @ ''/''"
  proof
    assume "take (Suc (length a)) p = a @ ''/''"
    then have "p = a @ CHR ''/'' # drop (Suc (length a)) p" using append_take_drop_id [of "Suc (length a)" p] by simp
    with no show False by blast
  qed
  then show "submatches g [(a @ ''/'', x, defaultPattern)] b p = None" by simp
qed

text \<open>What its segments find.\<close>

lemma var_segments:
  assumes "no_braces a" "var_name x" "var_tail b"
  shows "match_segments (segments (var_template a x b)) (segments (a @ ''/'' @ q)) =
      (if 0 < to_slash q \<and> drop (to_slash q) q = b then Some [(x, take (to_slash q) q)] else None)"
    and "\<nexists>q. p = a @ CHR ''/'' # q \<Longrightarrow> match_segments (segments (var_template a x b)) (segments p) = None"
proof -
  let ?S = "Split CHR ''/''"
  define v where "v = ''{'' @ x @ ''}''"
  define ts where "ts = (if b = [] then [] else ?S (tl b))"
  have v: "template_var v = Some x" "CHR ''/'' \<notin> set v"
    using assms(2) by (simp_all add: v_def template_var_def var_name_def)
  have "?S (v @ b) = v # ts"
  proof (cases b)
    case Nil
    then show ?thesis using Split_none [OF v(2)] by (simp add: ts_def)
  next
    case (Cons d b')
    then show ?thesis using Split_append [OF v(2), of b'] assms(3) by (simp add: ts_def var_tail_def)
  qed
  moreover have "var_template a x b = a @ CHR ''/'' # v @ b" by (simp add: var_template_def v_def)
  ultimately have template: "?S (var_template a x b) = ?S a @ v # ts"
    by (simp only: Split_middle)
  have lits: "\<forall>t \<in> set (?S a). template_var t = None" using literal_segments [OF assms(1)] by blast
  note step = match_literals [OF lits, of "v # ts"]
  have no_tail: "no_braces (tl b)" using assms(3) by (cases b) (auto simp: var_tail_def no_braces_def)
  let ?later = "case dropWhile (\<lambda>c. c \<noteq> CHR ''/'') q of [] \<Rightarrow> [] | _ # r \<Rightarrow> ?S r"
  have tail: "match_segments ts ?later =
      (if drop (to_slash q) q = b then Some [] else None)"
  proof (cases "dropWhile (\<lambda>c. c \<noteq> CHR ''/'') q")
    case Nil
    have "match_segments ts [] = (if ts = [] then Some [] else None)" by (cases ts) auto
    moreover have "ts = [] \<longleftrightarrow> [] = b" by (auto simp: ts_def)
    ultimately show ?thesis unfolding to_slash_parts Nil list.case by simp
  next
    case (Cons d r)
    then have d: "d = CHR ''/''" using hd_dropWhile [of "\<lambda>c. c \<noteq> CHR ''/''" q] by simp
    have "match_segments ts (?S r) = (if b \<noteq> [] \<and> r = tl b then Some [] else None)"
    proof (cases "b = []")
      case True
      then show ?thesis by (cases "?S r") (auto simp: ts_def)
    next
      case False
      then show ?thesis using match_literal_template [OF no_tail, of r] by (simp add: ts_def segments_Split)
    qed
    moreover have "CHR ''/'' # r = b \<longleftrightarrow> b \<noteq> [] \<and> r = tl b" using assms(3) by (cases b) (auto simp: var_tail_def)
    ultimately show ?thesis unfolding to_slash_parts Cons list.case d by simp
  qed
  have q: "?S q = take (to_slash q) q # ?later"
    using Split_first [of "CHR ''/''" q] by (simp add: to_slash_parts)
  have "take (to_slash q) q = [] \<longleftrightarrow> to_slash q = 0" using to_slash_length [of q] by (metis length_0_conv)
  then have "match_segments (v # ts) (?S q) =
      (if 0 < to_slash q \<and> drop (to_slash q) q = b then Some [(x, take (to_slash q) q)] else None)"
    unfolding q match_segments.simps v(1) option.case tail by simp
  then show "match_segments (segments (var_template a x b)) (segments (a @ ''/'' @ q)) =
      (if 0 < to_slash q \<and> drop (to_slash q) q = b then Some [(x, take (to_slash q) q)] else None)"
    using step [of "?S (a @ CHR ''/'' # q)"] Split_middle [of "CHR ''/''" a q] unfolding segments_Split template by simp
  assume no: "\<nexists>q. p = a @ CHR ''/'' # q"
  then have "take (length (?S a)) (?S p) \<noteq> ?S a \<or> length (?S p) \<le> length (?S a)"
    using Split_prefix [of p a "CHR ''/''"] by auto
  then show "match_segments (segments (var_template a x b)) (segments p) = None"
    using step [of "?S p"] unfolding segments_Split template by auto
qed

section \<open>Expressions of the templates\<close>

lemma brace_loop_plain: "no_braces s \<Longrightarrow> brace_loop i 0 idx (s @ t) = brace_loop (i + length s) 0 idx t"
  by (induction s arbitrary: i) (auto simp: no_braces_def)

lemma brace_loop_inside: "no_braces s \<Longrightarrow> brace_loop i 1 idx (s @ t) = brace_loop (i + length s) 1 idx t"
  by (induction s arbitrary: i) (auto simp: no_braces_def)

lemma literal_regexp:
  assumes "no_braces t"
  shows "newRouteRegexp g t = Some (Inr \<lparr>rx_template = t, rx_parts = [], rx_tail = t\<rparr>)"
  using brace_loop_plain [OF assms, of 0 0 "[]"] by (simp add: newRouteRegexp_def braceIndices_def)

lemma var_regexp:
  assumes "no_braces a" "var_name x" "var_tail b" "matches_segments g"
  shows "newRouteRegexp g (var_template a x b) =
    Some (Inr \<lparr>rx_template = var_template a x b, rx_parts = [(a @ ''/'', x, defaultPattern)], rx_tail = b\<rparr>)"
proof -
  let ?t = "(a @ ''/'') @ CHR ''{'' # x @ CHR ''}'' # b" and ?i = "Suc (length a)"
  have t: "var_template a x b = ?t" by (simp add: var_template_def)
  have x: "no_braces x" "x \<noteq> []" "CHR '':'' \<notin> set x" using assms(2) by (simp_all add: var_name_def)
  have a: "no_braces (a @ ''/'')" using assms(1) by (simp add: no_braces_def)
  have b: "brace_loop n 0 i b = Some []" for n i
    using brace_loop_plain [of b n i "[]"] assms(3) by (simp add: var_tail_def)
  have inside: "brace_loop n 1 i (x @ CHR ''}'' # b) = Some [(i, n + length x + 1)]" for n i
    using brace_loop_inside [OF x(1), of n i "CHR ''}'' # b"] b by simp
  have "brace_loop 0 0 0 ?t = Some [(?i, ?i + 1 + length x + 1)]"
    using brace_loop_plain [OF a, of 0 0 "CHR ''{'' # x @ CHR ''}'' # b"] inside [of "?i + 1" ?i] by simp
  then have idxs: "braceIndices ?t = Inr [(?i, ?i + 1 + length x + 1)]" by (simp add: braceIndices_def)
  have slices: "slice ?t 0 ?i = a @ ''/''" "slice ?t (?i + 1) (?i + 1 + length x + 1 - 1) = x" by (simp_all add: slice_def)
  have "drop (length u) (u @ b) = b" for u by simp
  from this [of "a @ ''/{'' @ x @ ''}''"] have rest: "drop (?i + 1 + length x + 1) ?t = b" by simp
  have "dropWhile (\<lambda>c. c \<noteq> CHR '':'') x = []" "takeWhile (\<lambda>c. c \<noteq> CHR '':'') x = x"
    unfolding dropWhile_eq_Nil_conv takeWhile_eq_all_conv using x(3) by blast+
  then have "name_pattern x = (x, defaultPattern)" unfolding name_pattern_def by (simp only: list.case)
  moreover have "defaultPattern \<noteq> []" by (simp add: defaultPattern_def)
  ultimately show ?thesis
    using assms(4) x(2) slices rest unfolding t newRouteRegexp_def idxs by (simp add: matches_segments_def)
qed

text \<open>A template that the table uses: without variables, or with one.\<close>

definition simple_template :: "string \<Rightarrow> bool" where
  "simple_template t \<longleftrightarrow> t \<noteq> [] \<and> hd t = CHR ''/'' \<and>
     (no_braces t \<or> (\<exists>a x b. t = var_template a x b \<and> no_braces a \<and> var_name x \<and> var_tail b))"

lemma simple_regexp:
  assumes "simple_template t" "matches_segments g"
  obtains x where "newRouteRegexp g t = Some (Inr x)" "rx_template x = t"
    "\<And>p. map_option (zip (varsN x)) (FindStringSubmatch g x p) = match_segments (segments t) (segments p)"
    "length (varsN x) \<le> 1"
proof (cases "no_braces t")
  case True
  show ?thesis
    by (rule that [OF literal_regexp [OF True]])
      (simp_all add: FindStringSubmatch_def varsN_def match_literal_template [OF True])
next
  case False
  with assms(1) obtain a x b where t: "t = var_template a x b" and ok: "no_braces a" "var_name x" "var_tail b"
    by (auto simp: simple_template_def)
  have "map_option (zip [x]) (submatches g [(a @ ''/'', x, defaultPattern)] b p) =
      match_segments (segments (var_template a x b)) (segments p)" for p
  proof (cases "\<exists>q. p = a @ CHR ''/'' # q")
    case True
    then obtain q where "p = a @ ''/'' @ q" by auto
    with var_submatches(1) [OF assms(2) ok(3), of a x q] var_segments(1) [OF ok, of q] show ?thesis
      by (simp only: option.map zip.simps if_distrib [of "map_option (zip [x])"]) simp
  next
    case False
    with var_submatches(2) [OF assms(2) ok(3), of p a x] var_segments(2) [OF ok, of p] show ?thesis by simp
  qed
  note m = this
  show ?thesis
  proof (rule that [of "\<lparr>rx_template = t, rx_parts = [(a @ ''/'', x, defaultPattern)], rx_tail = b\<rparr>"])
    show "newRouteRegexp g t = Some (Inr \<lparr>rx_template = t, rx_parts = [(a @ ''/'', x, defaultPattern)], rx_tail = b\<rparr>)"
      unfolding t by (rule var_regexp [OF ok assms(2)])
  qed (use m in \<open>simp_all add: FindStringSubmatch_def varsN_def t\<close>)
qed

section \<open>The search for a route\<close>

lemma muxed_route:
  assumes "simple_template (ro_template r)" "matches_segments g" "map (map upper) (ro_methods r) = ro_methods r"
  obtains x m where "muxed g r = Some m"
    "m = \<lparr>mr_handler = Some r, mr_err = None, mr_path = Some x,
      mr_matchers = PathMatcher x # (if ro_methods r = [] then [] else [MethodMatcher (ro_methods r)])\<rparr>"
    "\<And>p. map_option (zip (varsN x)) (FindStringSubmatch g x p) = match_segments (segments (ro_template r)) (segments p)"
    "length (varsN x) \<le> 1"
proof -
  from simple_regexp [OF assms(1,2)] obtain x where x: "newRouteRegexp g (ro_template r) = Some (Inr x)"
    "rx_template x = ro_template r"
    "\<And>p. map_option (zip (varsN x)) (FindStringSubmatch g x p) = match_segments (segments (ro_template r)) (segments p)"
    "length (varsN x) \<le> 1" by blast
  have "ro_template r \<noteq> []" "hd (ro_template r) = CHR ''/''" using assms(1) by (simp_all add: simple_template_def)
  with x(1) have "muxed g r = Some \<lparr>mr_handler = Some r, mr_err = None, mr_path = Some x,
      mr_matchers = PathMatcher x # (if ro_methods r = [] then [] else [MethodMatcher (ro_methods r)])\<rparr>"
    using assms(3) by (simp add: muxed_def Handle_def Path_def addRegexpMatcher_def newRoute_def addMatcher_def
        Handler_def route_Methods_def)
  with x(3,4) that show thesis by blast
qed

text \<open>A search goes on with no route, handler and variables, and at most the error of the method.\<close>

definition searching :: "'h route_match \<Rightarrow> bool" where
  "searching m \<longleftrightarrow> mt_route m = None \<and> mt_handler m = None \<and> mt_vars m = None \<and> mt_err m \<noteq> Some NotFound"

lemma one_var: "length ns \<le> 1 \<Longrightarrow> length ns = length vs \<Longrightarrow> extractVars ns vs [] = zip ns vs"
  by (cases ns; cases vs) (auto simp: extractVars_def)

lemma submatches_length: "submatches g parts tail s = Some vs \<Longrightarrow> length vs = length parts"
proof (induction parts arbitrary: s vs)
  case (Cons part parts)
  obtain raw name patt where part: "part = (raw, name, patt)" by (cases part) auto
  have some: "first_some f ns = Some y \<Longrightarrow> \<exists>n. f n = Some y" for f :: "nat \<Rightarrow> string list option" and ns y
    by (induction ns) (auto split: option.splits)
  from Cons.prems obtain n ws where "submatches g parts tail (drop n (drop (length raw) s)) = Some ws"
    "vs = take n (drop (length raw) s) # ws"
    by (auto simp: part Let_def split: if_splits dest!: some)
  with Cons.IH show ?case by simp
qed (simp split: if_splits)

lemma search_route:
  assumes "simple_template (ro_template r)" "matches_segments g" "map (map upper) (ro_methods r) = ro_methods r"
    and "muxed g r = Some m" "searching s"
  shows "case match_segments (segments (ro_template r)) (segments path) of
      None \<Rightarrow> route_Match g meth path m s = (False, s)
    | Some vars \<Rightarrow>
        if ro_methods r = [] \<or> meth \<in> set (ro_methods r)
        then \<exists>t. route_Match g meth path m s = (True, t) \<and> mt_handler t = Some r \<and> mt_vars t = Some vars
        else \<exists>t. route_Match g meth path m s = (False, t) \<and> searching t \<and> mt_err t = Some MethodMismatch"
proof -
  obtain x where m: "m = \<lparr>mr_handler = Some r, mr_err = None, mr_path = Some x,
      mr_matchers = PathMatcher x # (if ro_methods r = [] then [] else [MethodMatcher (ro_methods r)])\<rparr>"
    and x: "map_option (zip (varsN x)) (FindStringSubmatch g x path) = match_segments (segments (ro_template r)) (segments path)"
      "length (varsN x) \<le> 1"
    using muxed_route [OF assms(1-3)] assms(4) by (metis option.inject)
  note s = assms(5) [unfolded searching_def]
  show ?thesis
  proof (cases "FindStringSubmatch g x path")
    case None
    then have "match_segments (segments (ro_template r)) (segments path) = None" using x(1) by simp
    then show ?thesis using None s by (simp add: m route_Match_def matcher_match_def)
  next
    case (Some vs)
    then have vars: "match_segments (segments (ro_template r)) (segments path) = Some (zip (varsN x) vs)" using x(1) by simp
    have "length vs = length (varsN x)"
      using Some submatches_length unfolding FindStringSubmatch_def varsN_def by simp
    then have "extractVars (varsN x) vs [] = zip (varsN x) vs" using one_var [OF x(2), of vs] by simp
    with Some s show ?thesis unfolding vars
      by (auto simp: m route_Match_def matcher_match_def setMatch_def searching_def Let_def)
  qed
qed

lemma search_routes:
  assumes "matches_segments g" "searching s"
    and "\<forall>r \<in> set rs. simple_template (ro_template r) \<and> map (map upper) (ro_methods r) = ro_methods r"
    and "those (map (muxed g) rs) = Some ms"
  shows "case find_route rs meth path of
      Some (r, vars) \<Rightarrow> \<exists>t. router_loop g meth path ms s = (True, t) \<and> mt_handler t = Some r \<and> mt_vars t = Some vars
    | None \<Rightarrow> \<exists>t. router_loop g meth path ms s = (False, t) \<and> searching t \<and>
        (mt_err t = Some MethodMismatch \<longleftrightarrow> mt_err s = Some MethodMismatch \<or>
           (\<exists>r \<in> set rs. match_segments (segments (ro_template r)) (segments path) \<noteq> None))"
  using assms(2-4)
proof (induction rs arbitrary: s ms)
  case Nil
  then show ?case by simp
next
  case (Cons r rs)
  obtain m ms' where ms: "ms = m # ms'" "muxed g r = Some m" "those (map (muxed g) rs) = Some ms'"
    using Cons.prems(3) by (auto split: option.splits)
  have r: "simple_template (ro_template r)" "map (map upper) (ro_methods r) = ro_methods r"
    and rs: "\<forall>r \<in> set rs. simple_template (ro_template r) \<and> map (map upper) (ro_methods r) = ro_methods r"
    using Cons.prems(2) by simp_all
  note step = search_route [OF r(1) assms(1) r(2) ms(2) Cons.prems(1), where path = path and meth = meth]
  show ?case
  proof (cases "match_segments (segments (ro_template r)) (segments path)")
    case None
    then have "match_route meth path r = None" by (simp add: match_route_def)
    then have "find_route (r # rs) meth path = find_route rs meth path" by simp
    moreover have "router_loop g meth path ms s = router_loop g meth path ms' s" using step None by (simp add: ms(1))
    moreover have "(\<exists>q \<in> set (r # rs). match_segments (segments (ro_template q)) (segments path) \<noteq> None) \<longleftrightarrow>
        (\<exists>q \<in> set rs. match_segments (segments (ro_template q)) (segments path) \<noteq> None)" using None by simp
    ultimately show ?thesis using Cons.IH [OF Cons.prems(1) rs ms(3)] by (simp only:)
  next
    case (Some vars)
    show ?thesis
    proof (cases "ro_methods r = [] \<or> meth \<in> set (ro_methods r)")
      case True
      with step Some obtain t where "route_Match g meth path m s = (True, t)" "mt_handler t = Some r" "mt_vars t = Some vars"
        by auto
      moreover have "match_route meth path r = Some vars" using True Some by (simp add: match_route_def)
      ultimately show ?thesis by (simp add: ms(1))
    next
      case False
      with step Some obtain t where t: "route_Match g meth path m s = (False, t)" "searching t" "mt_err t = Some MethodMismatch"
        by auto
      have "match_route meth path r = None" using False by (simp add: match_route_def)
      then have "find_route (r # rs) meth path = find_route rs meth path" by simp
      moreover have "router_loop g meth path ms s = router_loop g meth path ms' t" using t(1) by (simp add: ms(1))
      ultimately show ?thesis
        using Cons.IH [OF t(2) rs ms(3)] Some t(3) by (auto split: option.splits)
    qed
  qed
qed

section \<open>The routes of the server\<close>

text \<open>A path is known where a template has its segments, whatever the method.\<close>

lemma routes_simple:
  "\<forall>r \<in> set routes. simple_template (ro_template r) \<and> map (map upper) (ro_methods r) = ro_methods r"
proof
  fix r
  assume r: "r \<in> set routes"
  have upper: "map upper ''POST'' = ''POST''" "map upper ''OPTIONS'' = ''OPTIONS''" "map upper ''GET'' = ''GET''"
    by code_simp+
  have vars: "simple_template ''/api/ws/room/{room_code}''" "simple_template ''/api/rooms/{room_id}/players''"
    "simple_template ''/api/ws/blackjackwebsocket/{room_code}''"
  proof -
    have "''/api/ws/room/{room_code}'' = var_template ''/api/ws/room'' ''room_code'' []"
      "''/api/rooms/{room_id}/players'' = var_template ''/api/rooms'' ''room_id'' ''/players''"
      "''/api/ws/blackjackwebsocket/{room_code}'' = var_template ''/api/ws/blackjackwebsocket'' ''room_code'' []"
      by (simp_all add: var_template_def)
    moreover have "no_braces ''/api/ws/room''" "no_braces ''/api/rooms''" "no_braces ''/api/ws/blackjackwebsocket''"
      "var_name ''room_code''" "var_name ''room_id''" "var_tail []" "var_tail ''/players''"
      by (simp_all add: no_braces_def var_name_def var_tail_def)
    ultimately show "simple_template ''/api/ws/room/{room_code}''" "simple_template ''/api/rooms/{room_id}/players''"
      "simple_template ''/api/ws/blackjackwebsocket/{room_code}''"
      unfolding simple_template_def by (metis list.sel(1) list.distinct(1))+
  qed
  have plain: "simple_template t" if "no_braces t" "t \<noteq> []" "hd t = CHR ''/''" for t
    using that by (simp add: simple_template_def)
  show "simple_template (ro_template r) \<and> map (map upper) (ro_methods r) = ro_methods r"
    using r vars upper
    by (auto simp: routes_def open_route_def secured_route_def Methods_def no_braces_def plain)
qed

lemma router_found:
  assumes "matches_segments g"
  obtains ms where "router g = Some ms"
proof -
  have "those (map (muxed g) rs) \<noteq> None" if "set rs \<subseteq> set routes" for rs
    using that
  proof (induction rs)
    case (Cons r rs)
    then have "simple_template (ro_template r)" "map (map upper) (ro_methods r) = ro_methods r"
      using routes_simple by auto
    from muxed_route [OF this(1) assms this(2)] obtain m where "muxed g r = Some m" by blast
    with Cons show ?case by auto
  qed simp
  from this [of routes] show thesis using that unfolding router_def by blast
qed

lemma served:
  assumes "matches_segments g" "router g = Some ms" "cleanPath path = path"
  shows "ServeHTTP g ms meth path = (case find_route routes meth path of
      Some (r, vars) \<Rightarrow> Handled r vars
    | None \<Rightarrow> if path_known path then NotAllowed else NoRoute)"
proof -
  have start: "searching no_match" "(mt_err no_match = Some MethodMismatch) = False" by (simp_all add: searching_def no_match_def)
  note search = search_routes [OF assms(1) start(1) routes_simple assms(2) [unfolded router_def],
      where meth = meth and path = path, unfolded start(2) simp_thms path_known_def [symmetric]]
  show ?thesis
  proof (cases "find_route routes meth path")
    case None
    with search obtain t where "router_loop g meth path ms no_match = (False, t)" "searching t"
      "mt_err t = Some MethodMismatch \<longleftrightarrow> path_known path" by auto
    with None show ?thesis using assms(3) by (simp add: ServeHTTP_def router_Match_def)
  next
    case (Some rv)
    obtain r vars where "rv = (r, vars)" by (cases rv)
    with search Some obtain t where "router_loop g meth path ms no_match = (True, t)" "mt_handler t = Some r" "mt_vars t = Some vars"
      by auto
    with Some \<open>rv = (r, vars)\<close> show ?thesis using assms(3) by (simp add: ServeHTTP_def router_Match_def)
  qed
qed

end
