(* ===== verification/Ws_Examples.thy ===== *)
theory Ws_Examples
  imports Ws_Limit Ws_Upgrade Mux_Routes
begin

text \<open>
  A request for a web socket and an engine for the patterns of paths, on which the properties of the handshake and of
  the router are applied. The key is the one of RFC 6455; the example's hash is of the length of SHA-1.
\<close>

definition example_ws_env :: ws_env where
  "example_ws_env = \<lparr>en_sha1 = (\<lambda>s. take 20 s), en_url_host = (\<lambda>s. None)\<rparr>"

definition example_offer :: "(string \<times> (string \<times> string) list) list" where
  "example_offer = [(''permessage-deflate'', [(''client_max_window_bits'', ''15'')])]"

definition example_handshake :: upgrade_request where
  "example_handshake = \<lparr>ur_Method = ''GET'', ur_Header = [(''Connection'', [''keep-alive, Upgrade'']), (''Upgrade'', [''websocket'']),
      (''Sec-Websocket-Version'', [''13'']), (''Sec-Websocket-Key'', [''dGhlIHNhbXBsZSBub25jZQ==''])] @
     [(''Sec-Websocket-Extensions'', [ext_text example_offer])],
     ur_Host = ''localhost:9090''\<rparr>"

definition example_upgrader :: Upgrader where
  "example_upgrader = lobby_upgrader\<lparr>up_EnableCompression := True\<rparr>"

definition example_network :: network where
  "example_network = \<lparr>nt_buffered = 0, nt_buffer = 4096, nt_rand = (\<lambda>_. 0), nt_faults = [], nt_in = ''ab'', nt_end = IoEOF\<rparr>"

definition example_connection :: ws_conn where
  "example_connection = snd (net_write (response_text (response_lines (computeAcceptKey (en_sha1 example_ws_env)
       (header_get (ur_Header example_handshake) ''Sec-Websocket-Key'')) [] True None))
     (newConn True (write_buffer example_upgrader example_network) (\<lambda>_. 0) [] ''ab'' IoEOF))"

lemma example_offers: "offers example_handshake example_offer"
  unfolding offers_def example_handshake_def example_offer_def token_def by code_simp

lemma example_upgrade: "Upgrade example_ws_env example_upgrader example_handshake None (Hijacked example_network) =
    Upgraded [] True example_connection"
proof -
  have "handshake_error example_ws_env example_upgrader example_handshake None = None" by code_simp
  moreover have "selectSubprotocol example_upgrader example_handshake None = []" by code_simp
  moreover have "negotiate example_upgrader example_handshake"
    using negotiate_offers [OF example_offers] by (simp add: example_offer_def example_upgrader_def)
  ultimately show ?thesis
    by (simp add: Upgrade_def Let_def example_connection_def example_network_def net_write_def newConn_def)
qed

text \<open>Longest first, as a greedy pattern prefers.\<close>

definition segment_engine :: engine where
  "segment_engine = \<lparr>rg_lengths = (\<lambda>p s. rev [1..<Suc (to_slash s)]), rg_error = (\<lambda>p. None), rg_groups = (\<lambda>p. 0)\<rparr>"

lemma segment_engine_ok: "matches_segments segment_engine"
  by (auto simp: matches_segments_def segment_engine_def)

end
