(* ===== verification/Spec2Isabelle.thy ===== *)
theory Spec2Isabelle
  imports Account_Examples Ws_Examples
begin

text \<open>
  Verification of the game server of the repository (\<open>src/src/Graduation_Server/api\<close>): accounts and
  logins, lobby rooms, Blackjack tables and the libraries on which its routes, tokens, passwords and sockets rest.

  \<^bold>\<open>The program.\<close> \<open>main.go\<close> routes HTTP requests to handlers (\<open>internal/handlers\<close>); some routes stand
  behind \<open>JWTMiddleware\<close> (\<open>internal/middleware\<close>), which puts the user id of the request's token into its
  context. Handlers work on MySQL tables, partly through \<open>internal/models\<close>, and on two maps of web
  sockets in memory: the connections of each lobby room and those of each Blackjack table, the latter with
  the state of the table. Every request and every connection runs in its own goroutine.

  \<^bold>\<open>The model.\<close> A handler is a value of type \<open>prog\<close> (theory \<open>Go_Runtime\<close>), a tree of atomic steps: a
  statement on the database, a transaction, a section under a mutex, a write to a socket. \<open>run\<close> executes
  it alone, \<open>pool_steps\<close> interleaves the steps of any number of them; \<open>keeps I G\<close> is the rule by which an
  invariant of single steps survives every interleaving (locale \<open>world_invariant\<close>, interpreted for the
  lobby and table requests in \<open>Server\<close> and for all routes in \<open>Routes\<close>). The world is a record: the tables
  (\<open>database\<close>), the statements that will fail (\<open>w_faults\<close>, over which the theorems quantify: every error
  path is covered), the clock, the messages sent, the clients that cannot be reached, the connection maps.

  \<^item> \<open>Prelude\<close>: Go maps as association lists (the iteration order is the order of the list and theorems
    hold for any), and lemmas the components share.
  \<^item> \<open>Go_Runtime\<close>, \<open>Database\<close>, \<open>Http\<close>, \<open>Json\<close>: programs and their rules, tables and statements,
    requests and responses, values of a decoded JSON body and their decoding into records.
    \<open>Go_Strings\<close>: white space, splitting and runes of Go strings, which are lists of bytes.
  \<^item> \<open>Float64\<close>: IEEE doubles as exact dyadic numbers with rounding to even, where the code computes in
    \<open>float64\<close> (numbers of JSON and claims, the timer).
  \<^item> \<open>Models\<close> (\<open>internal/models\<close>), \<open>Rooms\<close> (\<open>room_create.go\<close>, \<open>room_join.go\<close>, \<open>room_leave.go\<close>,
    \<open>room_start.go\<close>, \<open>room_ready.go\<close>, \<open>room_info.go\<close>), \<open>Conns\<close> and \<open>Room_Ws\<close> (\<open>room_websocket.go\<close>):
    the lobby. \<open>Membership\<close>, \<open>Lobby\<close>, \<open>Lobby_Handlers\<close>, \<open>Lobby_Results\<close>, \<open>Broadcasts\<close> prove what each
    handler does on every branch: C8 to C20. \<open>Sequential\<close> proves the invariant of rooms for requests served
    one after the other (C6); \<open>Races\<close> shows two interleavings that break it (C7).
  \<^item> \<open>Blackjack\<close> (\<open>game_websocket.go\<close>, \<open>game_tip.go\<close>, \<open>game_dealer.go\<close>, \<open>player_order.go\<close>) and \<open>Timer\<close>
    (\<open>game_timer.go\<close>): the table, with bets and chips as 64-bit words. \<open>Blackjack_Inv\<close> proves its invariant,
    through the interface \<open>betting_table\<close>, and \<open>Server\<close> carries it through every interleaving: C1 to C5, C21, C35.
  \<^item> \<open>Base64\<close>, \<open>Json_Text\<close>: the encodings of tokens and hashes, and JSON text printed and parsed as
    \<open>encoding/json\<close> does. \<open>Jwt_Claims\<close>, \<open>Jwt_Methods\<close>, \<open>Jwt\<close>: package \<open>golang-jwt/jwt/v4\<close>, claims, signing
    methods, tokens and parser (C27). \<open>Auth\<close>: the middleware, \<open>models/jwt.go\<close>, the claims of a login (C26).
  \<^item> \<open>Blowfish_Const\<close>, \<open>Blowfish\<close>, \<open>Bcrypt\<close>: packages \<open>golang.org/x/crypto/blowfish\<close> and \<open>bcrypt\<close> (C28 to C31).
  \<^item> \<open>Accounts\<close> (\<open>create_account.go\<close>, \<open>login.go\<close>, \<open>maindata.go\<close>, \<open>user_setting.go\<close>, \<open>get_tipsdate.go\<close>,
    \<open>updatesolotip.go\<close>) with \<open>Account_Results\<close> (C23 to C25, C36), and \<open>Catalog\<close> (\<open>solo.go\<close>, \<open>friend.go\<close>, \<open>multi.go\<close>,
    \<open>rank.go\<close>, \<open>game_mode.go\<close>, \<open>getGamePlayer.go\<close>).
  \<^item> \<open>Routes\<close>: the table of \<open>main.go\<close>, the dispatch of a request, and all requests as one pool (C32, C33).
    \<open>Mux\<close>: package \<open>gorilla/mux\<close> (\<open>mux.go\<close>, \<open>route.go\<close>, \<open>regexp.go\<close>) as far as routes by path and method need
    it; \<open>Mux_Routes\<close> registers the routes there and shows that they are found as \<open>Routes\<close> dispatches them (C34).
  \<^item> \<open>Ws_Mask\<close>, \<open>Ws_Conn\<close>: package \<open>gorilla/websocket\<close> (\<open>conn.go\<close>, \<open>mask.go\<close>, \<open>json.go\<close>), a connection down to
    its bytes: frames, masks, control frames, read limit. \<open>Ws_Stream\<close> shows that what one side writes the other
    reads, \<open>Ws_Limit\<close> what the read limit bounds (C37 to C39). \<open>Ws_Util\<close>, \<open>Ws_Extensions\<close> (\<open>util.go\<close>)
    and \<open>Ws_Upgrade\<close> (\<open>server.go\<close>): the handshake that turns a request into such a connection, its checks and its response (C40),
    with the two upgraders of the server (\<open>upgrader.go\<close>, \<open>game_websocket.go\<close>). The lobby and the tables use a connection through
    what it delivers: messages one after the other, or a write that fails.
  \<^item> \<open>Examples\<close>, \<open>Account_Examples\<close>, \<open>Ws_Examples\<close>: concrete worlds and requests on which the properties are applied.

  \<^bold>\<open>Fuel and bounds.\<close> The parser of JSON text takes fuel, twice the length of the text, which \<open>pvalue_fuel\<close>
  shows to be enough for every text; the code's own limit of nesting, 10000, is in the model. The timer takes fuel for
  its loop, of which 152 rounds are enough (C22). All other definitions terminate by their recursion.

  \<^bold>\<open>Assumptions.\<close> The primitives of Go's \<open>crypto\<close> packages are the arbitrary functions of the record \<open>crypto\<close>, and
  what a platform makes of a float outside \<open>int64\<close> is an arbitrary function too (\<open>go_env\<close>); no theorem assumes
  anything of them but that a hash is available where a token is signed. In the handshake SHA-1, the host of a URL and
  the result of \<open>Hijack\<close> are arbitrary. The engine of \<open>regexp\<close> is arbitrary too, but for what \<open>matches_segments\<close>
  states of the pattern \<open>[^/]+\<close>. The defaults of the columns that \<open>models.CreateRoom\<close> leaves out, which the
  repository does not give, are its arguments. The collation of the columns is an arbitrary
  function \<open>d_coll\<close>. A transaction is serializable. Ids come from counters that no rollback takes back.
  \<open>room_users\<close> has the unique key that \<open>AddUserToRoomAsHost\<close> states it relies on.

  \<^bold>\<open>Not modelled.\<close> The global handle of the database; reading the address file, opening the database and
  listening in \<open>main\<close>; log output; the ping goroutine and the deadlines of sockets (the end of the received frames
  stands for any failed read). Of \<open>gorilla/websocket\<close>: clients, compressed messages (compression is
  negotiated, but the server does not switch it on), prepared messages, pools of buffers, and the detection of concurrent writers. Of
  \<open>gorilla/mux\<close>: hosts, queries, headers, schemes, subrouters, middlewares, strict slashes and the building of URLs,
  none of which the server uses. The parsing of key files in the JWT package, which the server does not use, and the
  claims that a failed decode leaves half-filled. The MySQL driver, of which the model uses the documented behaviour;
  development tools and their dependencies under \<open>pkg/mod\<close>.
\<close>

section \<open>Blackjack tables under every interleaving\<close>

text \<open>
  C1: Whatever requests the server answers, in whatever interleaving of their steps, with whatever
  statements failing: at every Blackjack table the bet and the purse of each player are never
  negative and add up to the 1000 chips the player started with.
\<close>

theorem chips_conserved:
  assumes "pool_steps (map serve ops, boot d faults broken now) (ps, w)" "db_inv d"
    and "gm_get (bj_states w) code = Some st" "gm_get (bj_Players st) uid = Some p"
  shows "0 \<le> sint (bp_Bet p) \<and> 0 \<le> sint (bp_TotalChips p) \<and>
    sint (bp_Bet p) + sint (bp_TotalChips p) = 1000"
  using reachable_table [OF assms(1-3)] assms(4) by (auto simp: table_ok_def pre_ok_def player_ok_def)

theorem chips_conserved_witness:
  "\<exists>p. gm_get (bj_Players (table_now 250 True 750)) 20 = Some p \<and> 0 \<le> sint (bp_Bet p) \<and>
     0 \<le> sint (bp_TotalChips p) \<and> sint (bp_Bet p) + sint (bp_TotalChips p) = 1000"
proof -
  have run: "pool_steps (map serve table_ops, boot seated_db [] [] 0) (fst played_pool, snd played_pool)"
    using played_reachable by simp
  obtain p where p: "gm_get (bj_Players (table_now 250 True 750)) 20 = Some p"
    by (simp add: table_now_def)
  with chips_conserved [OF run seated_db_ok(2) played_table p] show ?thesis by blast
qed

text \<open>
  C2: In every reachable state each table has a dealer, who is one of its players, holds no bet
  and counts as confirmed.
\<close>

theorem dealer_seated:
  assumes "pool_steps (map serve ops, boot d faults broken now) (ps, w)" "db_inv d"
    and "gm_get (bj_states w) code = Some st"
  shows "bj_DealerID st \<noteq> 0 \<and> (\<exists>p. gm_get (bj_Players st) (bj_DealerID st) = Some p \<and>
    bp_Bet p = 0 \<and> bp_TotalChips p = 1000 \<and> bp_Confirmed p)"
proof -
  from reachable_table [OF assms] have st: "table_ok st" .
  then obtain p where p: "gm_get (bj_Players st) (bj_DealerID st) = Some p" "bp_Bet p = 0" "bp_Confirmed p"
    by (auto simp: table_ok_def pre_ok_def)
  with table_ok_player [OF st p(1)] have "sint (bp_TotalChips p) = sint (1000 :: i64)"
    by (simp add: player_ok_def)
  then have "bp_TotalChips p = 1000" by (rule signed_word_eqI)
  with st p show ?thesis by (auto simp: table_ok_def)
qed

theorem dealer_seated_witness:
  "\<exists>p. gm_get (bj_Players (table_now 250 True 750)) 10 = Some p \<and> bp_Bet p = 0 \<and> bp_Confirmed p"
proof -
  have run: "pool_steps (map serve table_ops, boot seated_db [] [] 0) (fst played_pool, snd played_pool)"
    using played_reachable by simp
  have "bj_DealerID (table_now 250 True 750) = 10" by (simp add: table_now_def)
  with dealer_seated [OF run seated_db_ok(2) played_table] show ?thesis by auto
qed

text \<open>
  C3: The dealer of a table is chosen once: from a state in which the table exists, every later
  state of the same run has the table, with the same dealer and with all its players.
\<close>

theorem dealer_fixed:
  assumes "pool_steps (map serve ops, boot d faults broken now) (ps, w)" "db_inv d"
    and "pool_steps (ps, w) (qs, v)" "gm_get (bj_states w) code = Some st"
  shows "\<exists>st'. gm_get (bj_states v) code = Some st' \<and> bj_DealerID st' = bj_DealerID st \<and>
    dom (gm_get (bj_Players st)) \<subseteq> dom (gm_get (bj_Players st'))"
  using srv.later(2) [OF assms(1) boot_sound [OF assms(2)] assms(3)] assms(4)
  by (simp add: onward_def tables_kept_def)

theorem dealer_fixed_witness:
  "\<exists>st'. gm_get (bj_states (snd played_pool)) ''123456'' = Some st' \<and> bj_DealerID st' = 10"
proof -
  have run: "pool_steps (map serve table_ops, boot seated_db [] [] 0) (fst half_pool, snd half_pool)"
    using half_reachable by simp
  have later: "pool_steps (fst half_pool, snd half_pool) (fst played_pool, snd played_pool)"
    using played_from_half by simp
  have "bj_DealerID (table_now 0 False 1000) = 10" by (simp add: table_now_def)
  with dealer_fixed [OF run seated_db_ok(2) later half_table] show ?thesis by auto
qed





text \<open>
  C5: The broadcast of the bets lists every player of the table once, and says that all have
  confirmed exactly when every player but the dealer has, in whatever order the map is visited.
\<close>

theorem bet_state_all_confirmed:
  assumes "table_ok st"
  shows "bet_state_msg code st = BetState \<lparr>bs_Type = ''bet_state'', bs_RoomCode = code,
    bs_Players = map snd (bj_Players st),
    bs_AllConfirmed = (\<forall>k p. gm_get (bj_Players st) k = Some p \<longrightarrow> k \<noteq> bj_DealerID st \<longrightarrow> bp_Confirmed p)\<rparr>"
  using assms by (rule bet_state_eq)

theorem bet_state_all_confirmed_witness:
  "\<exists>ps. bet_state_msg ''123456'' (table_now 0 False 1000) = BetState \<lparr>bs_Type = ''bet_state'',
     bs_RoomCode = ''123456'', bs_Players = ps, bs_AllConfirmed = False\<rparr>"
  using bet_state_all_confirmed [OF table_now_ok, of "''123456''"]
  by (auto simp: table_now_def split: if_splits)

section \<open>The rooms of the lobby\<close>

text \<open>
  C6: Served one after the other, any requests (with any statements failing, and whole connections
  among them) leave every room consistent: closed exactly when it is empty, owned by one of its
  members, never with more members than it allows, and each user at most once in it.
\<close>

theorem rooms_stay_consistent:
  assumes "lobby_ok (w_db w)" "r \<in> set (d_rooms (w_db (run_all ops w)))"
  shows "let d = w_db (run_all ops w); m = members (rm_id r) d in
    (m = [] \<longleftrightarrow> rm_status r = ''closed'') \<and> (m \<noteq> [] \<longrightarrow> rm_owner r \<in> set m) \<and>
    int (length m) \<le> rm_max r \<and> distinct m"
proof -
  from assms(1) have "lobby_ok (w_db (run_all ops w))"
    using run_all_rooms_ok [of w ops] by (simp add: rooms_ok_def)
  with assms(2) show ?thesis
    using lobby_okD(2) [of "w_db (run_all ops w)" r] tables.mem_distinct [of "w_db (run_all ops w)" "rm_id r"]
    by (simp add: room_ok_def Let_def lobby_okD(1))
qed

definition two_joins :: "server_op list" where
  "two_joins = [JoinRoom (join_req 20 ''123456''), JoinRoom (join_req 30 ''123456''),
     LeaveRoom (leave_req 10 ''123456'')]"

theorem rooms_stay_consistent_witness:
  "rm_owner (hd (d_rooms (w_db (run_all two_joins (boot race_db [] [] 0))))) = 20 \<and>
   int (length (members 1 (w_db (run_all two_joins (boot race_db [] [] 0))))) \<le> 2"
proof -
  let ?w = "boot race_db [] [] 0"
  have rooms: "d_rooms (w_db (run_all two_joins ?w)) = [\<lparr>rm_id = 1, rm_code = ''123456'', rm_game_type = 7,
      rm_status = ''waiting'', rm_max = 2, rm_created = 0, rm_owner = 20\<rparr>]"
    by code_simp
  have "lobby_ok (w_db ?w)" using race_db_ok by (simp add: boot_def)
  from rooms_stay_consistent [OF this, of "hd (d_rooms (w_db (run_all two_joins ?w)))" two_joins] rooms
  show ?thesis by (simp add: Let_def)
qed


section \<open>The answers of the lobby\<close>

text \<open>
  C8: A create request that is answered with OK adds one room and one membership and nothing else:
  the room is open for joining, has the code of six decimal digits that the answer gives, holds its
  creator alone, who owns it, and allows the number of players asked for, or 4 where the request
  names none above zero.
\<close>

theorem create_room_ok:
  assumes "lobby_ok (w_db w)" "run (CreateRoomHandler raw r) w = (Json b, w')"
  shows "\<exists>q. decode_body create_room_fields \<lparr>crq_GameTypeID = 0, crq_MaxPlayers = 0\<rparr> (rq_json r) = Some q \<and>
    d_rooms (w_db w') = d_rooms (w_db w) @ [\<lparr>rm_id = d_next_room (w_db w), rm_code = crs_RoomCode b,
      rm_game_type = crq_GameTypeID q, rm_status = ''waiting'',
      rm_max = (if crq_MaxPlayers q \<le> 0 then 4 else crq_MaxPlayers q),
      rm_created = w_clock w, rm_owner = GetUserID r\<rparr>] \<and>
    members (d_next_room (w_db w)) (w_db w') = [GetUserID r] \<and>
    (\<forall>rid. rid \<noteq> d_next_room (w_db w) \<longrightarrow> members rid (w_db w') = members rid (w_db w)) \<and>
    length (crs_RoomCode b) = 6 \<and> set (crs_RoomCode b) \<subseteq> set ''0123456789'' \<and> GetUserID r \<noteq> 0"
proof -
  from wpD [OF create_spec [OF assms(1)] assms(2)] obtain req where req: "create_req r = Some req"
    "GetUserID r \<noteq> 0" "crs_RoomCode b = GenerateRoomCode raw"
    "w_db w' = created (GenerateRoomCode raw) (crq_GameTypeID req) (crq_MaxPlayers req)
       (GetUserID r) (w_clock w) (w_db w)"
    by auto
  from req(1) obtain q where q: "decode_body create_room_fields \<lparr>crq_GameTypeID = 0, crq_MaxPlayers = 0\<rparr> (rq_json r) = Some q"
    "req = (if crq_MaxPlayers q \<le> 0 then q\<lparr>crq_MaxPlayers := 4\<rparr> else q)"
    by (auto simp: create_req_def)
  have code: "length (GenerateRoomCode raw) = 6" "set (GenerateRoomCode raw) \<subseteq> set roomCodeCharset"
    by (auto simp: GenerateRoomCode_def Intn_def intro!: nth_mem) (simp add: roomCodeCharset_def)
  have "members (d_next_room (w_db w)) (w_db w) = []"
    using lobby_okD(1,3) [OF assms(1)] by (fastforce simp: members_def ids_ok_def filter_empty_conv)
  then show ?thesis
    using req(2-4) q code
    by (intro exI [of _ q]) (auto simp: created_def db_simps insert_room_def members_def add_member_def
        roomCodeCharset_def)
qed

theorem create_room_ok_witness:
  "let r = blank_request\<lparr>rq_ctx := Some 30, rq_json := create_body 7 0\<rparr>;
       w' = snd (run (CreateRoomHandler (\<lambda>i. i) r) (boot race_db [] [] 9)) in
   members 2 (w_db w') = [30] \<and> members 1 (w_db w') = [10]"
proof -
  let ?r = "blank_request\<lparr>rq_ctx := Some 30, rq_json := create_body 7 0\<rparr>"
  have b: "fst (run (CreateRoomHandler (\<lambda>i. i) ?r) (boot race_db [] [] 9)) =
      Json \<lparr>crs_Result = ''OK'', crs_RoomCode = ''012345'', crs_UserID = 30, crs_GameName = ''blackjack''\<rparr>"
    by code_simp
  have next_id: "d_next_room race_db = 2" by (simp add: race_db_def)
  have "GetUserID ?r = 30" by (simp add: GetUserID_def blank_request_def)
  with create_room_ok [of "boot race_db [] [] 9" "\<lambda>i. i" ?r, OF _ run_result [OF b]]
  show ?thesis using race_db_ok(1) next_id example_members(1) by (auto simp: Let_def)
qed

text \<open>
  C9: Where no statement fails, the status of a join answer is decided by the request and the tables
  alone: 401 without a user, 400 for a body without a room code, 404 for an unknown room, 403 for
  a room that is not open or, to somebody not yet in it, full, and 200 otherwise (500 only where
  the room's game has no name).
\<close>

theorem join_status:
  assumes "w_faults w = []"
  shows "status_code (fst (run (JoinRoomHandler r) w)) =
     (if GetUserID r = 0 then 401 else
      case decode_room_code r of None \<Rightarrow> 400 | Some code \<Rightarrow>
      (case room_by_code code (w_db w) of Inl _ \<Rightarrow> 404 | Inr room \<Rightarrow>
       let m = members (rm_id room) (w_db w) in
       if rm_status room \<noteq> ''waiting'' then 403
       else if GetUserID r \<notin> set m \<and> rm_max room \<le> int (length m) then 403
       else case room_game_name (rm_id room) (w_db w) of Inl _ \<Rightarrow> 500 | Inr _ \<Rightarrow> 200))"
  using join_code_ok [OF assms, of r] unfolding join_code_def Let_def .

theorem join_status_witness:
  "status_code (fst (run (JoinRoomHandler (join_req 30 ''123456'')) (boot seated_db [] [] 0))) = 403"
proof -
  have r: "GetUserID (join_req 30 ''123456'') = 30" "decode_room_code (join_req 30 ''123456'') = Some ''123456''"
    by code_simp+
  show ?thesis
    using join_status [of "boot seated_db [] [] 0" "join_req 30 ''123456''"]
    by (simp add: r race_room race_room_fields example_members)
qed

text \<open>
  C10: With any statement failing, a join changes the tables at most by one membership: the user's,
  at the end of the list, in an open room that the user was not in and that was not full. An OK
  answer means that the user now is a member; an error answer means that nothing changed, unless it
  is the lookup of the game's name, after the membership was added, that failed.
\<close>

theorem join_changes:
  "case run (JoinRoomHandler r) w of (res, w') \<Rightarrow>
     (w_db w' = w_db w \<and> (case res of HttpError msg c \<Rightarrow> True | Json b \<Rightarrow>
        GetUserID r \<in> set (members (jr_RoomID b) (w_db w)))) \<or>
     (\<exists>code room. decode_room_code r = Some code \<and> room_by_code code (w_db w) = Inr room \<and>
        rm_status room = ''waiting'' \<and> GetUserID r \<notin> set (members (rm_id room) (w_db w)) \<and>
        int (length (members (rm_id room) (w_db w))) < rm_max room \<and>
        w_db w' = add_member (rm_id room) (GetUserID r) False (w_db w) \<and>
        members (rm_id room) (w_db w') = members (rm_id room) (w_db w) @ [GetUserID r] \<and>
        (case res of HttpError msg c \<Rightarrow> msg = ''Lookup error'' \<and> c = 500
         | Json b \<Rightarrow> jr_RoomID b = rm_id room \<and> jr_RoomCode b = rm_code room \<and> jr_UserID b = GetUserID r))"
proof -
  obtain res w' where run: "run (JoinRoomHandler r) w = (res, w')" by force
  from wpD [OF join_effect_ok run] show ?thesis
    by (cases "decode_room_code r"; cases res)
      (auto simp: run join_effect_def join_response_def Let_def db_simps
        split: sum.splits if_splits)
qed

text \<open>
  C11: A departure that is answered with OK takes the user out of the room and nobody else out of any
  room. If nobody stays, the room is closed and the answer says so. If the owner leaves and
  somebody stays, the member who has been there longest is the new owner, and the answer names
  them. No other room changes.
\<close>

theorem leave_room_correct:
  assumes "lobby_ok (w_db w)" "run (LeaveRoomHandler r) w = (Json b, w')"
  shows "\<exists>code room stay. decode_room_code r = Some code \<and> room_by_code code (w_db w) = Inr room \<and>
    GetUserID r \<in> set (members (rm_id room) (w_db w)) \<and>
    stay = filter (\<lambda>u. u \<noteq> GetUserID r) (members (rm_id room) (w_db w)) \<and>
    (\<forall>q. members q (w_db w') = (if q = rm_id room then stay else members q (w_db w))) \<and>
    d_rooms (w_db w') = map (\<lambda>q. if rm_id q \<noteq> rm_id room then q
       else if stay = [] then q\<lparr>rm_status := ''closed''\<rparr>
       else if GetUserID r = rm_owner q then q\<lparr>rm_owner := hd stay\<rparr> else q) (d_rooms (w_db w)) \<and>
    lr_RoomBecameZero b = (stay = []) \<and>
    lr_HostChanged b = (stay \<noteq> [] \<and> GetUserID r = rm_owner room) \<and>
    lr_NewHostUserID b = (if stay \<noteq> [] \<and> GetUserID r = rm_owner room then hd stay else 0)"
proof -
  from wpD [OF leave_spec assms(2)] obtain code room where l: "decode_room_code r = Some code"
    "room_by_code code (w_db w) = Inr room" "GetUserID r \<in> set (members (rm_id room) (w_db w))"
    "w_db w' = leave_db room (GetUserID r) (w_db w)" "b = leave_resp room (GetUserID r) (w_db w)"
    by auto
  have ids: "ids_ok (w_db w)" using assms(1) by (rule lobby_okD)
  let ?stay = "filter (\<lambda>u. u \<noteq> GetUserID r) (members (rm_id room) (w_db w))"
  have mem: "\<forall>q. members q (w_db w') = (if q = rm_id room then ?stay else members q (w_db w))"
    by (simp add: l(4) leave_members)
  have rooms: "d_rooms (w_db w') = map (\<lambda>q. if rm_id q \<noteq> rm_id room then q
       else if ?stay = [] then q\<lparr>rm_status := ''closed''\<rparr>
       else if GetUserID r = rm_owner q then q\<lparr>rm_owner := hd ?stay\<rparr> else q) (d_rooms (w_db w))"
    unfolding l(4) leave_rooms [OF ids room_by_code_in [OF l(2)] refl] room_left_def [abs_def] by (rule refl)
  have resp: "lr_RoomBecameZero b = (?stay = [])"
    "lr_HostChanged b = (?stay \<noteq> [] \<and> GetUserID r = rm_owner room)"
    "lr_NewHostUserID b = (if ?stay \<noteq> [] \<and> GetUserID r = rm_owner room then hd ?stay else 0)"
    unfolding l(5) leave_resp_hd [OF ids refl] by simp_all
  show ?thesis
    by (intro exI [of _ code] exI [of _ room] exI [of _ ?stay] conjI)
      (rule l(1) l(2) l(3) refl mem rooms resp)+
qed

theorem leave_room_correct_witness:
  "let w' = snd (run (LeaveRoomHandler (leave_req 10 ''123456'')) (boot seated_db [] [] 0)) in
   members 1 (w_db w') = [20] \<and> rm_owner (hd (d_rooms (w_db w'))) = 20"
proof -
  have b: "fst (run (LeaveRoomHandler (leave_req 10 ''123456'')) (boot seated_db [] [] 0)) =
      Json \<lparr>lr_Result = ''OK'', lr_RoomCode = ''123456'', lr_HostChanged = True, lr_NewHostUserID = 20,
        lr_RoomBecameZero = False\<rparr>"
    by code_simp
  have r: "GetUserID (leave_req 10 ''123456'') = 10" "decode_room_code (leave_req 10 ''123456'') = Some ''123456''"
    by code_simp+
  have d: "d_rooms seated_db = [hd (d_rooms race_db)]" by (simp add: seated_db_def race_db_def add_member_def)
  have "lobby_ok (w_db (boot seated_db [] [] 0))" using seated_db_ok(1) by simp
  from leave_room_correct [OF this run_result [OF b]] show ?thesis
    by (simp add: r d race_room race_room_fields example_members Let_def)
qed

text \<open>
  C12: Where no statement fails, the game is started exactly by the owner of a room that is not empty,
  in which all are ready and no game runs; the other answers are 401, 400, 404, 403 and 409 in this
  order of the checks.
\<close>

theorem start_status:
  assumes "w_faults w = []"
  shows "status_code (fst (fst (run (StartRoomHandler r) w))) =
     (if GetUserID r = 0 then 401 else
      case decode_room_code r of None \<Rightarrow> 400 | Some code \<Rightarrow>
      (case room_by_code code (w_db w) of Inl _ \<Rightarrow> 404 | Inr room \<Rightarrow>
       if rm_owner room \<noteq> GetUserID r then 403
       else if members (rm_id room) (w_db w) = [] \<or>
         (\<exists>ru \<in> set (d_room_users (w_db w)). ru_room ru = rm_id room \<and> \<not> ru_ready ru) then 403
       else if rm_status room = ''playing'' then 409 else 200))"
  using start_code_ok [OF assms, of r] unfolding start_code_def all_ready_def
  by (simp split: option.split sum.split)

theorem start_status_witness:
  "status_code (fst (fst (run (StartRoomHandler (join_req 10 ''123456'')) (boot ready_db [] [] 0)))) = 200 \<and>
   status_code (fst (fst (run (StartRoomHandler (join_req 20 ''123456'')) (boot ready_db [] [] 0)))) = 403"
proof -
  have r: "decode_room_code (join_req u ''123456'') = Some ''123456''" "GetUserID (join_req u ''123456'') = u" for u
    by (simp_all add: decode_room_code_def join_req_def blank_request_def decode_body_def room_code_fields_def
        json_key_def GetUserID_def)
  show ?thesis
    using start_status [of "boot ready_db [] [] 0" "join_req 10 ''123456''"]
      start_status [of "boot ready_db [] [] 0" "join_req 20 ''123456''"] ready_db_ok(4)
    by (auto simp: r race_room race_room_fields example_members all_ready_def)
qed

text \<open>
  C13: A start that is answered with OK, with any statement failing before, has recorded one game under
  the id of the answer, has set the room to playing, and has left the memberships alone; the
  goroutine it starts announces that game to that room.
\<close>

theorem start_room_ok:
  assumes "run (StartRoomHandler r) w = ((Json b, g), w')"
  shows "\<exists>code room. decode_room_code r = Some code \<and> room_by_code code (w_db w) = Inr room \<and>
    rm_owner room = GetUserID r \<and> g = Some (code, sr_GameID b) \<and> sr_GameID b = d_next_game (w_db w) \<and>
    d_games (w_db w') = d_games (w_db w) @
      [\<lparr>ga_id = sr_GameID b, ga_mode = 1, ga_type = rm_game_type room\<rparr>] \<and>
    d_rooms (w_db w') = map (\<lambda>q. if rm_id q = rm_id room then q\<lparr>rm_status := ''playing''\<rparr> else q) (d_rooms (w_db w)) \<and>
    d_room_users (w_db w') = d_room_users (w_db w)"
  using wpD [OF start_spec assms]
  by (auto simp: started_def set_room_status_def insert_game_def)

theorem start_room_ok_witness:
  "map rm_status (d_rooms (w_db (snd (run (StartRoomHandler (join_req 10 ''123456'')) (boot ready_db [] [] 0))))) = [''playing'']"
proof -
  have b: "fst (run (StartRoomHandler (join_req 10 ''123456'')) (boot ready_db [] [] 0)) =
      (Json \<lparr>sr_Result = ''OK'', sr_GameID = 1\<rparr>, Some (''123456'', 1))"
    by code_simp
  have r: "decode_room_code (join_req 10 ''123456'') = Some ''123456''" by code_simp
  have d: "d_rooms ready_db = [hd (d_rooms race_db)]"
    by (simp add: ready_db_def seated_db_def race_db_def add_member_def set_ready_def)
  show ?thesis
    using start_room_ok [OF run_result [OF b]] by (simp add: r race_room d)
qed

text \<open>
  C14: An error answer of create, leave, start or ready changes no table (the counters of the
  AUTO_INCREMENT columns may have moved on), whichever statement failed.
\<close>

theorem errors_change_nothing:
  assumes "lobby_ok (w_db w)"
  shows "(case run (CreateRoomHandler raw r) w of (HttpError m c, w') \<Rightarrow> same_tables (w_db w) (w_db w') | _ \<Rightarrow> True) \<and>
    (case run (LeaveRoomHandler r) w of (HttpError m c, w') \<Rightarrow> same_tables (w_db w) (w_db w') | _ \<Rightarrow> True) \<and>
    (case run (StartRoomHandler r) w of ((HttpError m c, g), w') \<Rightarrow> same_tables (w_db w) (w_db w') \<and> g = None | _ \<Rightarrow> True) \<and>
    (case run (ReadyHandler r) w of (HttpError m c, w') \<Rightarrow> w_db w' = w_db w | _ \<Rightarrow> True)"
  using wpD [OF create_spec [OF assms]] wpD [OF leave_spec] wpD [OF start_spec] wpD [OF ready_spec]
  by (fastforce split: prod.split response.split)

theorem errors_change_nothing_witness:
  "same_tables ready_db (w_db (snd (run (StartRoomHandler (join_req 10 ''123456''))
     (boot ready_db [None, None, None, None, None, Some ''deadlock''] [] 0))))"
proof -
  let ?w = "boot ready_db [None, None, None, None, None, Some ''deadlock''] [] 0"
  have b: "fst (run (StartRoomHandler (join_req 10 ''123456'')) ?w) =
      (HttpError ''update room status failed: deadlock'' 500, None)"
    by code_simp
  have "lobby_ok (w_db ?w)" using ready_db_ok(1) by simp
  from errors_change_nothing [OF this, of "\<lambda>i. i" "join_req 10 ''123456''",
      THEN conjunct2, THEN conjunct2, THEN conjunct1]
  have "case run (StartRoomHandler (join_req 10 ''123456'')) ?w of
      ((HttpError m c, g), w') \<Rightarrow> same_tables (w_db ?w) (w_db w') \<and> g = None | _ \<Rightarrow> True" .
  moreover obtain w' where "run (StartRoomHandler (join_req 10 ''123456'')) ?w =
      ((HttpError ''update room status failed: deadlock'' 500, None), w')"
    using run_result [OF b] by blast
  ultimately show ?thesis by simp
qed

section \<open>What the clients of a room are told\<close>

text \<open>
  C15: The list of the users of a room names every member once: the owner first, then the others in
  the order in which they came.
\<close>

theorem users_listed_host_first:
  assumes "lobby_ok d" "users_ok d" "r \<in> set (d_rooms d)" "members (rm_id r) d \<noteq> []"
  shows "map us_UserID (order_users (room_user_rows (rm_id r) d)) =
    rm_owner r # filter (\<lambda>u. u \<noteq> rm_owner r) (members (rm_id r) d)"
  using assms lobby_okD(1,2) [OF assms(1)]
  by (intro order_users_host_first) (auto simp: room_ok_def)

theorem users_listed_host_first_witness:
  "map us_UserID (order_users (room_user_rows 1 ready_db)) = [10, 20]"
  using users_listed_host_first [OF ready_db_ok(1,2,5)]
  by (simp add: race_room_fields example_members)

text \<open>
  C16: A status broadcast gives each connection of the room that can be reached the list of the users
  and the room's capacity, and then, exactly if all members are ready, the message that all are
  ready, to the owner's connections alone; nobody else receives anything.
\<close>

theorem broadcast_received:
  assumes "w_faults w = []" "lobby_ok (w_db w)" "users_ok (w_db w)"
    and "room_by_code code (w_db w) = Inr room" "members (rm_id room) (w_db w) \<noteq> []"
    and "gm_ok (gm_sub (w_roomConns w) code)"
  shows "received w (snd (run (broadcastRoomStatus code) w)) c =
    (case gm_get (gm_sub (w_roomConns w) code) c of None \<Rightarrow> []
     | Some uid \<Rightarrow> if \<not> alive w c then [] else
         RoomStatus \<lparr>rs_Type = ''room_status'', rs_RoomCode = code,
           rs_Players = map player_info (order_users (room_user_rows (rm_id room) (w_db w))),
           rs_MaxPlayers = rm_max room\<rparr> #
         (if all_ready (rm_id room) (w_db w) \<and> uid = rm_owner room
          then [AllReady \<lparr>ar_Type = ''all_ready'', ar_RoomCode = code, ar_AllReady = True\<rparr>] else []))"
proof -
  have room: "room \<in> set (d_rooms (w_db w))" using assms(4) by (rule room_by_code_in)
  have ids: "ids_ok (w_db w)" "rm_owner room \<in> set (members (rm_id room) (w_db w))"
    using assms(5) lobby_okD(1,2) [OF assms(2)] room by (auto simp: room_ok_def)
  show ?thesis
    unfolding received_def broadcast_sent [OF assms(1,4) refl] room_users_ready [OF ids(1) assms(3) room]
      room_users_host [OF ids(1) assms(3) room ids(2)]
    by (simp add: status_sends_to [OF assms(6)] status_msg_def all_ready_msg_def split: option.split)
qed

theorem broadcast_received_witness:
  "let w = lobby_world ready_db; w' = snd (run (broadcastRoomStatus ''123456'') w) in
   length (received w w' 5) = 2 \<and> length (received w w' 6) = 1 \<and> received w w' 7 = []"
proof -
  have "alive (lobby_world ready_db) 5" "alive (lobby_world ready_db) 6" by (simp_all add: alive_def)
  then show ?thesis
    using broadcast_received [of "lobby_world ready_db" "''123456''" "hd (d_rooms race_db)"] ready_db_ok
    by (simp add: race_room race_room_fields example_members gm_sub_def gm_ok_def Let_def)
qed

text \<open>
  C17: The announcement of a game goes to every connection of the room that can be reached, once, and to
  no other. After a departure exactly the connections of that user are taken out of the room's table
  and closed; the connections of the other users and of other rooms stay.
\<close>

theorem start_and_departure:
  assumes "gm_ok (gm_sub (w_roomConns w) code)"
  shows "received w (snd (run (broadcastStartGame code gid) w)) c =
      (if alive w c \<and> gm_get (gm_sub (w_roomConns w) code) c \<noteq> None
       then [StartGame \<lparr>sg_Type = ''start_game'', sg_RoomCode = code, sg_GameID = gid\<rparr>] else []) \<and>
    (let w' = snd (run (closeUserConnections code uid) w) in
      gm_sub (w_roomConns w') k = filter (\<lambda>p. k \<noteq> code \<or> snd p \<noteq> uid) (gm_sub (w_roomConns w) k) \<and>
      set (w_closed w') = set (w_closed w) \<union> {c. (c, uid) \<in> set (gm_sub (w_roomConns w) code)} \<and>
      w_db w' = w_db w \<and> w_sent w' = w_sent w)"
proof -
  have "w_db (snd (run (closeUserConnections code uid) w)) = w_db w"
    "w_sent (snd (run (closeUserConnections code uid) w)) = w_sent w"
    by (auto simp: closeUserConnections_def run_atomic split: option.splits prod.splits)
  then show ?thesis
    using close_user_conns [OF assms, of uid] by (simp add: Let_def received_def start_sent start_sends_to [OF assms])
qed

theorem start_and_departure_witness:
  "received (lobby_world ready_db) (snd (run (broadcastStartGame ''123456'' 4) (lobby_world ready_db))) 6 =
      [StartGame \<lparr>sg_Type = ''start_game'', sg_RoomCode = ''123456'', sg_GameID = 4\<rparr>] \<and>
    gm_sub (w_roomConns (snd (run (closeUserConnections ''123456'' 10) (lobby_world ready_db)))) ''123456'' = [(6, 20)]"
  using start_and_departure [of "lobby_world ready_db" "''123456''" 4 6 10 "''123456''"]
  by (simp add: gm_sub_def gm_ok_def alive_def Let_def)

text \<open>
  C18: When the session of a lobby connection is over, whatever the client sent and whatever failed, the
  connection is closed and registered in no room any more.
\<close>

theorem session_leaves_nothing:
  assumes "\<forall>k. gm_get (gm_sub (w_roomConns w) k) c = None"
  shows "case run (GameRoomWebSocketHandler True c frames r) w of (_, w') \<Rightarrow>
    (\<forall>k. gm_get (gm_sub (w_roomConns w') k) c = None) \<and> c \<in> set (w_closed w')"
  using session_end [of w c frames r] assms by (simp add: registered_def wp_def)

theorem session_leaves_nothing_witness:
  "case run (GameRoomWebSocketHandler True 7 [ready_frame True] (table_req 10)) (lobby_world seated_db) of
     (_, w') \<Rightarrow> 7 \<in> set (w_closed w')"
  using session_leaves_nothing [of "lobby_world seated_db" 7 "[ready_frame True]" "table_req 10"]
  by (auto simp: gm_sub_def split: prod.splits)

text \<open>
  C19: A client without a valid user, or who is not a member of the room of the path, is only
  disconnected: nothing is registered, sent or written, whatever it sends.
\<close>

theorem outsider_refused:
  assumes "GetUserID r = 0 \<or> (\<forall>room. room_by_code (value_of (rq_vars r) ''room_code'') (w_db w) = Inr room \<longrightarrow>
     GetUserID r \<notin> set (members (rm_id room) (w_db w)))"
  shows "case run (GameRoomWebSocketHandler True c frames r) w of (_, w') \<Rightarrow>
    w_db w' = w_db w \<and> w_roomConns w' = w_roomConns w \<and> w_sent w' = w_sent w \<and> w_closed w' = c # w_closed w"
  using session_refused [OF assms, of c frames] by (simp add: wp_def)

theorem outsider_refused_witness:
  "case run (GameRoomWebSocketHandler True 7 [ready_frame True] (table_req 30)) (lobby_world seated_db) of
     (_, w') \<Rightarrow> w_sent w' = [] \<and> w_closed w' = [7]"
proof -
  have "GetUserID (table_req 30) = 30" "value_of (rq_vars (table_req 30)) ''room_code'' = ''123456''" by code_simp+
  with outsider_refused [of "table_req 30" "lobby_world seated_db" 7 "[ready_frame True]"]
  show ?thesis by (auto simp: race_room race_room_fields example_members split: prod.splits)
qed

text \<open>
  C20: When a member's lobby connection ends and no statement fails, the tables differ from those before
  the connection at most in the ready flag of that member, which is off.
\<close>

theorem ready_taken_back:
  assumes "w_faults w = []" "room_by_code (value_of (rq_vars r) ''room_code'') (w_db w) = Inr room"
    and "GetUserID r \<in> set (members (rm_id room) (w_db w))" "GetUserID r \<noteq> 0"
  shows "w_db (snd (run (GameRoomWebSocketHandler True c frames r) w)) =
    set_ready (rm_id room) (GetUserID r) False (w_db w)"
  using assms by (rule session_ready_off)

theorem ready_taken_back_witness:
  "w_db (snd (run (GameRoomWebSocketHandler True 7 [ready_frame True, OtherMessage] (table_req 20)) (lobby_world ready_db))) =
     set_ready 1 20 False ready_db"
proof -
  have r: "GetUserID (table_req 20) = 20" "value_of (rq_vars (table_req 20)) ''room_code'' = ''123456''" by code_simp+
  show ?thesis
    using ready_taken_back [of "lobby_world ready_db" "table_req 20" "hd (d_rooms race_db)" 7 "[ready_frame True, OtherMessage]"]
    by (simp add: r race_room race_room_fields example_members)
qed

section \<open>The table and its timer\<close>


text \<open>
  C22: The action timer started with 15 seconds ends by itself after 152 messages, whatever fuel above
  that it is given, if the client can be reached; the last message but one is not 0 but a rest of
  about 3.6e-14 that the rounding of the subtractions leaves, so one more, negative, is sent.
\<close>

theorem timer_ends:
  assumes "152 \<le> n" "alive w c"
  shows "\<exists>rs. run (startActionTimer n c (f64_of_int 15)) w =
      (TimerFinished, w\<lparr>w_sent := w_sent w @ map (\<lambda>r. (c, TimerMsg \<lparr>tm_Type = ''timer'', tm_Remaining = r\<rparr>)) rs\<rparr>) \<and>
    length rs = 152 \<and> drop 150 rs = [Fin 5792227255123968 (- 97), Fin (- 7205759403790160) (- 56)]"
proof -
  obtain rs b where c: "countdown 152 (f64_of_int 15) = (rs, b)" by force
  with countdown_fifteen have "b" "length rs = 152"
    "drop 150 rs = [Fin 5792227255123968 (- 97), Fin (- 7205759403790160) (- 56)]"
    by simp_all
  with c assms show ?thesis
    by (intro exI [of _ rs])
      (simp add: startActionTimer_def run_timer_loop countdown_fifteen_enough [OF assms(1)] timer_msg_def)
qed

theorem timer_ends_witness:
  "fst (run (startActionTimer 200 6 (f64_of_int 15)) (lobby_world ready_db)) = TimerFinished"
  using timer_ends [of 200 "lobby_world ready_db" 6] by (auto simp: alive_def)

section \<open>Accounts and logins\<close>

text \<open>
  C23: An account request answered with OK has added one user with the next id, the name asked
  for, which nobody had, and the hash of the password (none for an automatic account), one row of
  settings and one of 10000 chips of each kind for that user, and nothing else to these tables; the
  answer carries a token that lets its bearer through the middleware as the new user for 24 hours.
\<close>

theorem create_account_ok:
  assumes "run (CreateAccountHandler env random r) w = (Json b, w')" "ar_result b = ''OK''"
    and "\<bar>d_next_user (w_db w)\<bar> < 2 ^ 53" "0 < w_clock w" "sane_seconds (w_clock w + 86400)"
  shows "\<exists>req hash tok. parse_create_account r = Inr req \<and> account_hash random req = Inr hash \<and>
    name_exists (caq_Name req) (w_db w) = Inr False \<and> \<not> blank (caq_Name req) \<and>
    d_users (w_db w') = d_users (w_db w) @ [\<lparr>u_id = d_next_user (w_db w), u_name = caq_Name req,
      u_password = hash, u_created = w_clock w, u_last_login = w_clock w\<rparr>] \<and>
    d_settings (w_db w') = d_settings (w_db w) @ [\<lparr>st_user = d_next_user (w_db w), st_bgm = f64_of_int 1,
      st_se = f64_of_int 1, st_icon = ''default_icon''\<rparr>] \<and>
    d_tips (w_db w') = d_tips (w_db w) @ [\<lparr>tp_user = d_next_user (w_db w), tp_solo = 10000,
      tp_multi = 10000, tp_updated = w_clock w\<rparr>] \<and>
    ar_token b = Some tok \<and> good_for_a_day env (w_clock w) (d_next_user (w_db w)) tok"
proof -
  from assms(1,2) obtain req hash tok where "parse_create_account r = Inr req" "\<not> blank (caq_Name req)"
    "name_exists (caq_Name req) (w_db w) = Inr False" "account_hash random req = Inr hash"
    "w_db w' = account_db 3 (caq_Name req) hash (w_clock w) (w_db w)" "ar_token b = Some tok"
    "SignedString (ge_crypto env) (MapClaims (ge_oor env)) (NewWithClaims SigningMethodHS256
       (account_claims (d_next_user (w_db w)) (caq_Name req) (w_clock w + 86400))) (Bytes jwtSecret) = Some (Inr tok)"
    by (rule account_created)
  then show ?thesis
    using account_token_good [OF _ assms(3-5)] by (intro exI [of _ req] exI [of _ hash] exI [of _ tok]) (simp add: account_tables)
qed

theorem create_account_ok_witness:
  "\<exists>b w' tok. run (CreateAccountHandler example_env None (account_request ''cy'' [] True)) (boot seated_db [] [] 1000) = (Json b, w') \<and>
     ar_result b = ''OK'' \<and> ar_token b = Some tok \<and> token_user example_env (clock_at 5000 7) tok = Inr 31"
proof -
  have "account_hash None \<lparr>caq_Name = ''cy'', caq_Password = [], caq_AutoFlg = True\<rparr> = Inr []"
    by (simp add: account_hash_def)
  from example_account [OF this] obtain tok where
    run: "run (CreateAccountHandler example_env None (account_request ''cy'' [] True)) (boot seated_db [] [] 1000) =
      (Json \<lparr>ar_result = ''OK'', ar_token = Some tok, ar_message = None\<rparr>,
       (boot seated_db [] [] 1000)\<lparr>w_db := account_db 3 ''cy'' [] 1000 seated_db, w_faults := []\<rparr>)" by blast
  from create_account_ok [OF run] have "good_for_a_day example_env 1000 31 tok"
    by (auto simp: example_names sane_seconds_def)
  then show ?thesis using run by (auto simp: good_for_a_day_def)
qed

text \<open>
  C24: A login answered with OK changed no table; the first user with that name has a password hash
  that the password of the request fits, and the answer carries a token that lets its bearer through
  the middleware as that user for 24 hours.
\<close>

theorem login_ok:
  assumes "run (LoginHandler env r) w = (Json b, w')" "0 < w_clock w" "sane_seconds (w_clock w + 86400)"
  shows "\<exists>req uid hp tok. parse_login r = Inr req \<and> password_of (lq_Name req) (w_db w) = Inr (uid, hp) \<and>
    CompareHashAndPassword hp (lq_Password req) = None \<and> w_db w' = w_db w \<and>
    b = \<lparr>ar_result = ''OK'', ar_token = Some tok, ar_message = Some []\<rparr> \<and>
    (\<bar>uid\<bar> < 2 ^ 53 \<longrightarrow> good_for_a_day env (w_clock w) uid tok)"
proof -
  from wpD [OF login_spec assms(1)] obtain req uid hp tok where "parse_login r = Inr req" "w_db w' = w_db w"
    "password_of (lq_Name req) (w_db w) = Inr (uid, hp)" "CompareHashAndPassword hp (lq_Password req) = None"
    "b = \<lparr>ar_result = ''OK'', ar_token = Some tok, ar_message = Some []\<rparr>"
    "SignedString (ge_crypto env) (UserClaims (ge_oor env)) (NewWithClaims SigningMethodHS256
       (login_claims uid (lq_Name req) (clock_at (w_clock w + 86400) 0) (clock_at (w_clock w) 0)))
       (Bytes jwtSecret) = Some (Inr tok)" by blast
  then show ?thesis using login_token_good [OF _ _ assms(2,3)] by blast
qed

theorem login_ok_witness:
  "\<exists>d b w' tok. run (LoginHandler example_env (login_request ''cy'' ''pw'')) (boot d [] [] 2000) = (Json b, w') \<and>
     w_db w' = d \<and> ar_token b = Some tok \<and> token_user example_env (clock_at 2000 5) tok = Inr 31"
proof -
  obtain h where h: "account_hash (Some (replicate 16 nul)) \<lparr>caq_Name = ''cy'', caq_Password = ''pw'', caq_AutoFlg = False\<rparr> = Inr h"
    using example_salt by blast
  let ?d = "account_db 3 ''cy'' h 1000 seated_db"
  have hash: "CompareHashAndPassword h ''pw'' = None" "h \<noteq> []"
    using account_hash_compares [OF h] by auto
  have pw: "password_of ''cy'' ?d = Inr (31, h)" using account_password [OF example_names(1)] by (simp add: example_names)
  obtain tok where run: "run (LoginHandler example_env (login_request ''cy'' ''pw'')) (boot ?d [] [] 2000) =
      (Json \<lparr>ar_result = ''OK'', ar_token = Some tok, ar_message = Some []\<rparr>, boot ?d [] [] 2000)"
    by (rule run_login [OF example_requests(2), where w = "boot ?d [] [] 2000" and env = example_env])
      (use pw hash example_env_hash in auto)
  from login_ok [OF run] obtain uid hp where "password_of ''cy'' ?d = Inr (uid, hp)"
    "\<bar>uid\<bar> < 2 ^ 53 \<longrightarrow> good_for_a_day example_env 2000 uid tok"
    by (auto simp: example_requests sane_seconds_def)
  with pw have "good_for_a_day example_env 2000 31 tok" by simp
  then show ?thesis using run
    by (intro exI [of _ ?d] exI [of _ "\<lparr>ar_result = ''OK'', ar_token = Some tok, ar_message = Some []\<rparr>"]
        exI [of _ "boot ?d [] [] 2000"] exI [of _ tok]) (simp add: good_for_a_day_def)
qed



section \<open>Tokens\<close>

text \<open>
  C26: The middleware takes a token for a user only if it has three segments, its header names one of
  the three HMAC methods, its last segment is the code of the first two under the secret, its
  claims are valid at that moment and name the user in \<open>user_id\<close>. A token signed with another
  method, with \<open>none\<close> or not at all is never accepted.
\<close>

theorem token_accepted_only:
  assumes "token_user env now s = Inr uid"
  shows "\<exists>h cs sg name hsh header claims x.
    s = h @ ''.'' @ cs @ ''.'' @ sg \<and> CHR ''.'' \<notin> set h \<union> set cs \<union> set sg \<and>
    gm_get header ''alg'' = Some (GStr name) \<and> GetSigningMethod name = Some (HMAC name hsh) \<and>
    DecodeSegment sg = Inr (cy_hmac (ge_crypto env) hsh jwtSecret (h @ ''.'' @ cs)) \<and>
    (\<exists>hb. DecodeSegment h = Inr hb \<and> decode_header hb = Some header) \<and>
    (\<exists>cb v. DecodeSegment cs = Inr cb \<and> parse_first cb = Some v \<and> map_decode False v = Some claims) \<and>
    map_Valid (ge_oor env) now claims = None \<and>
    gm_get claims ''user_id'' = Some (GFloat x) \<and> uid = f64_to_int64 (ge_oor env x) x"
proof -
  from assms obtain h cs sg header claims name hsh x where
    acc: "accepts (ge_crypto env) (NewParser []) (MapClaims (ge_oor env)) now middleware_key s h cs sg header claims (HMAC name hsh)"
    and x: "gm_get claims ''user_id'' = Some (GFloat x)" "uid = f64_to_int64 (ge_oor env x) x"
    by (rule token_user_only)
  from acc obtain alg where "gm_get header ''alg'' = Some (GStr alg)" "GetSigningMethod alg = Some (HMAC name hsh)"
    by (auto simp: accepts_def readable_def)
  moreover from this have "alg = name" by (auto dest: GetSigningMethod_Alg)
  ultimately show ?thesis
    using acc x
    by (intro exI [of _ h] exI [of _ cs] exI [of _ sg] exI [of _ name] exI [of _ hsh] exI [of _ header]
        exI [of _ claims] exI [of _ x])
      (auto simp: accepts_def readable_def splitToken_iff middleware_key_def read_token_def hmac_verify_iff
        MapClaims_def default_parser)
qed

theorem token_accepted_only_witness:
  "\<exists>s h cs sg hsh. s = h @ ''.'' @ cs @ ''.'' @ sg \<and>
     DecodeSegment sg = Inr (cy_hmac (ge_crypto example_env) hsh jwtSecret (h @ ''.'' @ cs))"
proof -
  have sane: "\<bar>31 :: int\<bar> < 2 ^ 53" "sane_seconds (1000 + 86400)" by (simp_all add: sane_seconds_def)
  obtain tok where "SignedString (ge_crypto example_env) (MapClaims (ge_oor example_env)) (NewWithClaims SigningMethodHS256
       (account_claims 31 ''cy'' (1000 + 86400))) (Bytes jwtSecret) = Some (Inr tok)"
    using map_claims.signing_succeeds [OF account_claims_good [OF sane] example_env_hash] by blast
  from account_token_good [OF this sane(1) _ sane(2)] have "token_user example_env (clock_at 2000 0) tok = Inr 31"
    by (simp add: good_for_a_day_def)
  from token_accepted_only [OF this] show ?thesis by blast
qed



section \<open>Passwords\<close>

text \<open>
  C28: What a password of at most 72 bytes is hashed to accepts that password, and another one only if
  it has the same bcrypt value with the salt and cost that the hash records.
\<close>

theorem password_roundtrip:
  assumes "length password \<le> 72" "cost \<le> MaxCost" "length random = 16"
  shows "\<exists>h p. GenerateFromPassword (Some random) password cost = Inr h \<and> newFromHash h = Inr p \<and>
    h_salt p = base64Encode random \<and> h_cost p = (if cost < MinCost then DefaultCost else cost) \<and>
    CompareHashAndPassword h password = None \<and>
    (\<forall>other. CompareHashAndPassword h other = None \<longleftrightarrow>
       bcrypt other (h_cost p) (h_salt p) = bcrypt password (h_cost p) (h_salt p))"
proof -
  obtain h where h: "GenerateFromPassword (Some random) password cost = Inr h"
    using generate_succeeds [OF assms] by blast
  from generate_hashed [OF this assms(3)] obtain p where "h = Hash p" "new_hash p"
    "h_cost p = (if cost < MinCost then DefaultCost else cost)" "h_salt p = base64Encode random"
    "bcrypt password (h_cost p) (h_salt p) = Inr (h_hash p)" by blast
  with h show ?thesis by (intro exI [of _ h] exI [of _ p]) (simp add: compare_new newFromHash_Hash)
qed

theorem password_roundtrip_witness:
  "\<exists>h. GenerateFromPassword (Some (replicate 16 nul)) ''secret'' 3 = Inr h \<and> Cost h = Inr 10 \<and>
     CompareHashAndPassword h ''secret'' = None"
  using password_roundtrip [of "''secret''" 3 "replicate 16 nul"] by (auto simp: Cost_def)





text \<open>
  C31: Hashing a password fails exactly for more than 72 bytes and for a cost above 31, each with its own
  error, and otherwise gives a text of 60 bytes that records version 2a and the cost (10 for one below 4).
\<close>

theorem hash_bounds:
  assumes "length random = 16"
  shows "(72 < length password \<longrightarrow> GenerateFromPassword (Some random) password cost = Inl ErrPasswordTooLong) \<and>
    (length password \<le> 72 \<longrightarrow> MaxCost < cost \<longrightarrow>
       GenerateFromPassword (Some random) password cost = Inl (InvalidCostError cost)) \<and>
    (length password \<le> 72 \<longrightarrow> cost \<le> MaxCost \<longrightarrow>
       (\<exists>h. GenerateFromPassword (Some random) password cost = Inr h \<and> length h = 60 \<and> take 4 h = ''$2a$'' \<and>
          Cost h = Inr (if cost < MinCost then DefaultCost else cost)))"
proof -
  have "\<exists>h. GenerateFromPassword (Some random) password cost = Inr h \<and> length h = 60 \<and> take 4 h = ''$2a$'' \<and>
      Cost h = Inr (if cost < MinCost then DefaultCost else cost)" if le: "length password \<le> 72" "cost \<le> MaxCost"
  proof -
    obtain h where h: "GenerateFromPassword (Some random) password cost = Inr h"
      using generate_succeeds [OF le assms] by blast
    from generate_hashed [OF this assms] obtain p where p: "h = Hash p" "new_hash p"
      "h_cost p = (if cost < MinCost then DefaultCost else cost)" by blast
    have "CHR ''a'' \<noteq> nul" by code_simp
    then have "take 4 (Hash p) = ''$2a$''"
      using p(2) by (subst Hash_text) (auto simp: new_hash_def two_digits_cost)
    with h p show ?thesis by (simp add: newFromHash_Hash Cost_def)
  qed
  then show ?thesis by (auto simp: GenerateFromPassword_def newFromPassword_def checkCost_def Let_def)
qed

theorem hash_bounds_witness:
  "GenerateFromPassword (Some (replicate 16 nul)) (replicate 73 CHR ''x'') 10 = Inl ErrPasswordTooLong \<and>
   GenerateFromPassword (Some (replicate 16 nul)) ''x'' 32 = Inl (InvalidCostError 32)"
  using hash_bounds [of "replicate 16 nul" "replicate 73 CHR ''x''" 10] hash_bounds [of "replicate 16 nul" "''x''" 32]
  by simp

section \<open>The routes\<close>

text \<open>
  C32: A request to one of the nine routes that stand behind the middleware is answered 401, with nothing
  read or changed, unless its token is accepted; then it is the route's handler that answers, told the
  user of the token, whatever the request itself says about its user.
\<close>

theorem protected_routes:
  assumes "find_route routes (hq_method q) (hq_path q) = Some (ro, vars)"
    and "ro_endpoint ro \<in> {CreateRoomEP, JoinRoomEP, RoomSocket, LeaveRoomEP, StartRoomEP, BlackjackSocket,
      UpdateSettings, UpdateSoloTip, ChipData}"
  shows "run (dispatch env i q) w =
    (case (if bearer_token (hq_request q) = [] then Inl ''Missing token''
           else token_user env (clock_at (w_clock w) 0) (bearer_token (hq_request q))) of
       Inl msg \<Rightarrow> (Status 401, w)
     | Inr uid \<Rightarrow> run (handler env i (ro_endpoint ro) ((hq_request q)\<lparr>rq_vars := vars, rq_ctx := Some uid\<rparr>)) w)"
proof -
  have "ro_secured ro"
    using find_route_in [OF assms(1)] assms(2) by (auto simp: routes_def open_route_def secured_route_def Methods_def)
  moreover have "bearer_token ((hq_request q)\<lparr>rq_vars := vars, rq_ctx := None\<rparr>) = bearer_token (hq_request q)"
    by (simp add: bearer_token_def)
  ultimately show ?thesis
    by (simp add: dispatch_def assms(1) Let_def run_middleware refuse_def run_Ret split: sum.split)
qed

theorem protected_routes_witness:
  "run (dispatch example_env example_inputs (example_query ''/api/create_room'' (table_req 10))) (boot seated_db [] [] 0) =
     (Status 401, boot seated_db [] [] 0)"
proof -
  let ?q = "example_query ''/api/create_room'' (table_req 10)"
  have "find_route routes (hq_method ?q) (hq_path ?q) = Some (secured_route ''/api/create_room'' CreateRoomEP, [])"
    by code_simp
  moreover have "bearer_token (hq_request ?q) = []"
    by (simp add: example_query_def bearer_token_def table_req_def blank_request_def has_prefix_def value_of_def)
  ultimately show ?thesis
    using protected_routes [of ?q "secured_route ''/api/create_room'' CreateRoomEP" "[]" example_env example_inputs
      "boot seated_db [] [] 0"] by (simp add: secured_route_def)
qed



text \<open>
  C34: The router of \<open>gorilla/mux\<close>, with the routes registered as main.go registers them, implements the
  dispatch by segments: for a clean path it runs what \<open>dispatch\<close> runs, with the same variables, or answers the
  same 404 or 405; any other path is redirected to its clean form, which is not redirected again.
\<close>

theorem router_implements_dispatch:
  assumes "matches_segments g"
  shows "\<exists>ms. router g = Some ms \<and>
    (\<forall>env i q. answer env i q (ServeHTTP g ms (hq_method q) (hq_path q)) =
       (if cleanPath (hq_path q) = hq_path q then dispatch env i q else Ret (Status 301))) \<and>
    (\<forall>meth path. cleanPath path \<noteq> path \<longrightarrow> ServeHTTP g ms meth path = MovedTo (cleanPath path) \<and>
       (\<forall>p. ServeHTTP g ms meth (cleanPath path) \<noteq> MovedTo p))"
proof -
  obtain ms where ms: "router g = Some ms" using router_found [OF assms] by blast
  have moved: "ServeHTTP g ms meth path = MovedTo (cleanPath path)" if "cleanPath path \<noteq> path" for meth path
    using that by (simp add: ServeHTTP_def)
  have "answer env i q (ServeHTTP g ms (hq_method q) (hq_path q)) =
      (if cleanPath (hq_path q) = hq_path q then dispatch env i q else Ret (Status 301))" for env i q
    using served [OF assms ms, of "hq_path q" "hq_method q"] moved [of "hq_path q" "hq_method q"]
    by (auto simp: answer_def dispatch_def split: option.split)
  moreover have "ServeHTTP g ms meth (cleanPath path) \<noteq> MovedTo p" for meth path p
    unfolding served [OF assms ms cleanPath_idem] by (simp split: option.split)
  ultimately show ?thesis using ms moved by blast
qed

theorem router_implements_dispatch_witness:
  "\<exists>ms. router segment_engine = Some ms \<and>
     answer example_env example_inputs (example_query ''/api//login'' (table_req 10))
       (ServeHTTP segment_engine ms ''POST'' ''/api//login'') = Ret (Status 301) \<and>
     ServeHTTP segment_engine ms ''GET'' ''/api/./login'' = MovedTo ''/api/login''"
proof -
  let ?q = "example_query ''/api//login'' (table_req 10)"
  have q: "hq_method ?q = ''POST''" "hq_path ?q = ''/api//login''" by (simp_all add: example_query_def)
  have clean: "cleanPath ''/api//login'' \<noteq> ''/api//login''" "cleanPath ''/api/./login'' = ''/api/login''" by code_simp+
  from router_implements_dispatch [OF segment_engine_ok] obtain ms where ms: "router segment_engine = Some ms"
    "answer example_env example_inputs ?q (ServeHTTP segment_engine ms (hq_method ?q) (hq_path ?q)) =
       (if cleanPath (hq_path ?q) = hq_path ?q then dispatch example_env example_inputs ?q else Ret (Status 301))"
    "cleanPath ''/api/./login'' \<noteq> ''/api/./login'' \<longrightarrow> ServeHTTP segment_engine ms ''GET'' ''/api/./login'' = MovedTo (cleanPath ''/api/./login'')"
    by blast
  from ms(2) clean(1) have "answer example_env example_inputs ?q (ServeHTTP segment_engine ms ''POST'' ''/api//login'') = Ret (Status 301)"
    unfolding q by simp
  moreover from ms(3) have "ServeHTTP segment_engine ms ''GET'' ''/api/./login'' = MovedTo ''/api/login''"
    unfolding clean(2) by simp
  ultimately show ?thesis using ms(1) by blast
qed

section \<open>A round of bets\<close>




section \<open>An account created in part\<close>

text \<open>
  C36: The three inserts of a new account are no transaction: where the second one fails, the answer is
  500, but the user stays, without settings and chips, and whoever asks for the name again is told that
  it is in use.
\<close>

theorem account_in_part:
  assumes "parse_create_account r = Inr req" "\<not> blank (caq_Name req)" "caq_AutoFlg req \<or> \<not> blank (caq_Password req)"
    and "name_exists (caq_Name req) (w_db w) = Inr False" "account_hash random req = Inr hash"
    and "w_faults w = None # None # Some e # fs"
  shows "\<exists>w'. run (CreateAccountHandler env random r) w = (HttpError msg_settings_failed 500, w') \<and>
    d_users (w_db w') = d_users (w_db w) @ [\<lparr>u_id = d_next_user (w_db w), u_name = caq_Name req,
      u_password = hash, u_created = w_clock w, u_last_login = w_clock w\<rparr>] \<and>
    d_settings (w_db w') = d_settings (w_db w) \<and> d_tips (w_db w') = d_tips (w_db w) \<and>
    (\<forall>v random'. w_db v = w_db w' \<longrightarrow> w_faults v = [] \<longrightarrow> run (CreateAccountHandler env random' r) v =
       (Json \<lparr>ar_result = ''NG'', ar_token = None, ar_message = Some msg_name_used\<rparr>, v))"
proof -
  let ?d = "account_db (Suc 0) (caq_Name req) hash (w_clock w) (w_db w)"
  have auto: "\<not> (\<not> caq_AutoFlg req \<and> blank (caq_Password req))" using assms(3) by blast
  have taken: "name_exists (caq_Name req) ?d = Inr True"
    by (auto simp: account_steps insert_user_def name_exists_def)
  have "run (CreateAccountHandler env random' r) v =
      (Json \<lparr>ar_result = ''NG'', ar_token = None, ar_message = Some msg_name_used\<rparr>, v)"
    if "w_db v = ?d" "w_faults v = []" for v random'
    by (rule run_create_taken [OF assms(1,2) auto]) (simp_all only: that taken)
  then show ?thesis
    using run_create_account(2) [OF assms(1,2) auto assms(4-6)] by (auto simp: account_steps insert_user_def)
qed

theorem account_in_part_witness:
  "\<exists>w'. run (CreateAccountHandler example_env None (account_request ''cy'' [] True))
      (boot seated_db [None, None, Some ''lock wait timeout''] [] 1000) = (HttpError msg_settings_failed 500, w') \<and>
     length (d_users (w_db w')) = length (d_users seated_db) + 1 \<and> d_settings (w_db w') = d_settings seated_db"
proof -
  have "account_hash None \<lparr>caq_Name = ''cy'', caq_Password = [], caq_AutoFlg = True\<rparr> = Inr []"
    by (simp add: account_hash_def)
  from account_in_part [OF example_requests(1) _ _ _ this, of "boot seated_db [None, None, Some ''lock wait timeout''] [] 1000"]
  show ?thesis using example_names by fastforce
qed

section \<open>The wire of the sockets\<close>

text \<open>
  C37: Messages that are sent on a connection that works arrive at the other side as they were sent, in
  their order: sent by either side, whole or as JSON values, cut into frames by a write buffer of any size,
  masked with any keys, and read in portions of any sizes. The reader is then ready for what follows.
\<close>

theorem messages_received:
  assumes "sends c" "wc_isServer r \<noteq> wc_isServer c" "list_all (acceptable (wc_readLimit r)) ms" "length ss = length ms"
    and "between r (drop (length (wc_out c)) (wc_out (snd (send_each ms c))) @ rest)"
  shows "fst (send_each ms c) = map (\<lambda>_. None) ms \<and>
    fst (read_each ss r) = map (\<lambda>m. Inr (fst (as_message m), snd (as_message m), None)) ms \<and>
    between (snd (read_each ss r)) rest"
proof -
  have "send_each ms c = (fst (send_each ms c), snd (send_each ms c))" by simp
  from messages_arrive [OF assms(1,3,2,4) this assms(5)] show ?thesis by auto
qed

theorem messages_received_witness:
  "let c = newConn False 0 (\<lambda>i. word_of_nat (i + 1)) [] [] IoEOF;
       sent = send_each [OutMessage BinaryFrame ''bet'', OutJson ''{}''] c;
       s = SetReadLimit 52428800 (newConn True 0 (\<lambda>_. 0) [] (wc_out (snd sent)) IoEOF)
   in fst sent = [None, None] \<and> fst (read_each [\<lambda>_. (512, 1), \<lambda>_. (512, 4096)] s) =
     [Inr (BinaryFrame, ''bet'', None), Inr (TextFrame, ''{}'' @ [CHR 0x0A], None)]"
proof -
  let ?c = "newConn False 0 (\<lambda>i. word_of_nat (i + 1)) [] [] IoEOF"
  let ?ms = "[OutMessage BinaryFrame ''bet'', OutJson ''{}'']"
  let ?out = "wc_out (snd (send_each ?ms ?c))"
  let ?s = "SetReadLimit 52428800 (newConn True 0 (\<lambda>_. 0) [] ?out IoEOF)"
  let ?ss = "[\<lambda>_::nat. (512, 1), \<lambda>_. (512, 4096)] :: (nat \<Rightarrow> nat \<times> nat) list"
  have c: "sends ?c" "wc_out ?c = []" by (rule sends_new) (simp add: newConn_def)
  have s: "wc_isServer ?s \<noteq> wc_isServer ?c" "wc_readLimit ?s = 52428800"
    by (simp_all add: newConn_def SetReadLimit_def)
  have ms: "list_all (acceptable (wc_readLimit ?s)) ?ms" unfolding s(2) by (simp add: acceptable_def isData_def)
  have "between ?s (drop (length (wc_out ?c)) ?out @ [])" unfolding c(2) list.size drop_0 append_Nil2 by (rule between_new)
  moreover have "length ?ss = length ?ms" by simp
  ultimately have "fst (send_each ?ms ?c) = map (\<lambda>_. None) ?ms \<and>
      fst (read_each ?ss ?s) = map (\<lambda>m. Inr (fst (as_message m), snd (as_message m), None)) ?ms \<and>
      between (snd (read_each ?ss ?s)) []"
    by (intro messages_received [OF c(1) s(1) ms])
  then show ?thesis unfolding Let_def list.map as_message.simps fst_conv snd_conv by (elim conjE) (rule conjI)
qed

text \<open>
  C38: Whatever the other side sends, in however many frames: a message that is read is no longer than the
  read limit of the connection.
\<close>

theorem message_within_limit:
  assumes "fst (ReadMessage sizes c) = Inr (t, p, e)" "0 < sint (wc_readLimit c)"
  shows "int (length p) \<le> sint (wc_readLimit c)"
  using assms by (cases "ReadMessage sizes c") (simp add: ReadMessage_within)

theorem message_within_limit_witness:
  "let c = SetReadLimit 2 (newConn False 0 (\<lambda>_. 0) [] [CHR 0x81, CHR 0x02, CHR ''h'', CHR ''i''] IoEOF)
   in fst (ReadMessage (\<lambda>_. (1, 1)) c) = Inr (TextFrame, ''hi'', None) \<and> int (length ''hi'') \<le> sint (wc_readLimit c)"
proof -
  let ?c = "SetReadLimit 2 (newConn False 0 (\<lambda>_. 0) [] [CHR 0x81, CHR 0x02, CHR ''h'', CHR ''i''] IoEOF)"
  have "message_bytes True TextFrame [([CHR 0x00, CHR 0x00, CHR 0x00, CHR 0x00], ''hi'')] = [CHR 0x81, CHR 0x02, CHR ''h'', CHR ''i'']"
    by (simp add: frame_bytes_def frame_header_def finalBit_def char_of_def bit_iff_odd Let_def)
  then have "between ?c (message_bytes (\<not> wc_isServer ?c) TextFrame [([CHR 0x00, CHR 0x00, CHR 0x00, CHR 0x00], ''hi'')] @ [])"
    using between_new [of 2 False 0 "\<lambda>_. 0" "[]" "[CHR 0x81, CHR 0x02, CHR ''h'', CHR ''i'']" IoEOF]
    by (simp add: newConn_def SetReadLimit_def)
  then have "fst (ReadMessage (\<lambda>_. (1, 1)) ?c) = Inr (TextFrame, ''hi'', None)"
    by (rule ReadMessage_message [where sizes = "\<lambda>_. (1, 1)"])
      (simp_all add: isData_def all_keys_def SetReadLimit_def newConn_def)
  moreover have "0 < sint (wc_readLimit ?c)" by (simp add: SetReadLimit_def)
  ultimately show ?thesis using message_within_limit [of "\<lambda>_. (1, 1)" ?c TextFrame "''hi''" None]
    unfolding Let_def by blast
qed

text \<open>
  C39: The two builds of the masking routine agree: the one that works a machine word at a time, on
  machines of either byte order and for buffers at any address, and the one that works byte by byte.
\<close>

theorem masks_agree: "maskBytes le addr key pos b = maskBytes_safe key pos b"
  by (simp add: maskBytes_each maskBytes_safe_def mask_each_eq)



end
